(* ===== verification/Prelude.thy ===== *)
theory Prelude
  imports Main "HOL-Library.Word"
begin

text \<open>
  The vocabulary shared by every component: the integer types of
  \<^verbatim>\<open>include/types.h\<close>, the ways an emulated access can end (normally, in a failed
  \<^verbatim>\<open>ASSERT\<close>, in an access outside an object, or in a call through a NULL function
  pointer), the effects a device has on the host (interrupt lines, characters on
  standard output), little-endian views of byte arrays, and regular files.
\<close>

unbundle bit_operations_syntax

named_theorems dev_defs "definitions of device operations, unfolded by component proofs"
named_theorems wf_simps "well-formedness of device states, one entry per device"

subsection \<open>Integer types\<close>

type_synonym uint8 = "8 word"
type_synonym uint16 = "16 word"
type_synonym uint32 = "32 word"
type_synonym uint64 = "64 word"

subsection \<open>How an operation ends\<close>

text \<open>
  \<^verbatim>\<open>ASSERT\<close> of \<^verbatim>\<open>include/log.h\<close> prints and calls \<^verbatim>\<open>abort()\<close>: the process is gone, so no
  state is kept. \<open>Wild_Access\<close> is a load or store outside the object it is made on, or
  through a NULL data pointer; \<open>Null_Call\<close> is a call through a NULL function pointer.
  The last two are undefined behaviour of C, and the model stops there.
\<close>

datatype fault = Assert_Failed | Wild_Access | Null_Call

text \<open>
  Host effects, in the order the code makes them. \<open>Irq_Set n l\<close> is
  \<^verbatim>\<open>irq_set(n,l)\<close> (every caller ignores its result), \<open>Put_Char c\<close> is \<^verbatim>\<open>putchar(c)\<close>.
  Log lines are not effects of the model.
\<close>

datatype event = Irq_Set nat nat | Put_Char uint8

type_synonym ('s, 'a) effect = "fault + 'a \<times> 's \<times> event list"

definition emit :: "event list \<Rightarrow> 'a \<Rightarrow> 's \<Rightarrow> ('s, 'a) effect" where
  "emit es v s = Inr (v, s, es)"

abbreviation ret :: "'a \<Rightarrow> 's \<Rightarrow> ('s, 'a) effect" where
  "ret v s \<equiv> emit [] v s"

abbreviation assert_failed :: "('s, 'a) effect" where
  "assert_failed \<equiv> Inl Assert_Failed"

definition ebind :: "('s, 'a) effect \<Rightarrow> ('a \<Rightarrow> 's \<Rightarrow> ('s, 'b) effect) \<Rightarrow> ('s, 'b) effect" where
  "ebind m f = (case m of Inl e \<Rightarrow> Inl e
     | Inr (v, s, es) \<Rightarrow> (case f v s of Inl e \<Rightarrow> Inl e
         | Inr (v', s', es') \<Rightarrow> Inr (v', s', es @ es')))"

definition rbind :: "fault + 'a \<Rightarrow> ('a \<Rightarrow> fault + 'b) \<Rightarrow> fault + 'b" where
  "rbind m f = (case m of Inl e \<Rightarrow> Inl e | Inr x \<Rightarrow> f x)"

lemma emit_Inr [simp]: "emit es v s = Inr (v', s', es') \<longleftrightarrow> v' = v \<and> s' = s \<and> es' = es"
  by (auto simp: emit_def)

lemma emit_not_Inl [simp]: "emit es v s \<noteq> Inl e" "Inl e \<noteq> emit es v s"
  by (simp_all add: emit_def)

lemma emit_inject [simp]: "emit es v s = emit es' v' s' \<longleftrightarrow> es = es' \<and> v = v' \<and> s = s'"
  by (auto simp: emit_def)

lemma case_emit [simp]: "(case emit es v s of Inl e \<Rightarrow> f e | Inr x \<Rightarrow> g x) = g (v, s, es)"
  by (simp add: emit_def)

lemma ebind_simps [simp]:
  "ebind (Inl e) f = Inl e"
  "ebind (emit [] v s) f = f v s"
  "ebind (emit es v s) (\<lambda>v s. emit es' (g v s) (h v s)) = emit (es @ es') (g v s) (h v s)"
  by (auto simp: ebind_def emit_def split: sum.splits)

lemma ebind_emit:
  "ebind (emit es v s) f =
     (case f v s of Inl e \<Rightarrow> Inl e | Inr (v', s', es') \<Rightarrow> emit (es @ es') v' s')"
  by (auto simp: ebind_def emit_def split: sum.splits)

lemma ebind_Inr:
  "ebind m f = Inr (v', s', es') \<longleftrightarrow>
     (\<exists>v s es1 es2. m = Inr (v, s, es1) \<and> f v s = Inr (v', s', es2) \<and> es' = es1 @ es2)"
  by (auto simp: ebind_def split: sum.splits prod.splits)

lemma ebind_Inl:
  "ebind m f = Inl e \<longleftrightarrow> m = Inl e \<or> (\<exists>v s es. m = Inr (v, s, es) \<and> f v s = Inl e)"
  by (auto simp: ebind_def split: sum.splits prod.splits)

lemma rbind_simps [simp]: "rbind (Inl e) f = Inl e" "rbind (Inr x) f = f x"
  by (simp_all add: rbind_def)

lemma rbind_Inr: "rbind m f = Inr y \<longleftrightarrow> (\<exists>x. m = Inr x \<and> f x = Inr y)"
  by (cases m) simp_all

text \<open>Every state an operation can return in satisfies \<open>P\<close>.\<close>

definition keeps :: "('s \<Rightarrow> bool) \<Rightarrow> ('s, 'a) effect \<Rightarrow> bool" where
  "keeps P m \<longleftrightarrow> (\<forall>v s es. m = Inr (v, s, es) \<longrightarrow> P s)"

lemma keeps_simps [simp]: "keeps P (Inl e)" "keeps P (emit es v s) \<longleftrightarrow> P s"
  by (simp_all add: keeps_def emit_def)

lemma keeps_if:
  "(b \<Longrightarrow> keeps P x) \<Longrightarrow> (\<not> b \<Longrightarrow> keeps P y) \<Longrightarrow> keeps P (if b then x else y)"
  by simp

lemma keeps_ebind: "keeps Q m \<Longrightarrow> (\<And>v s. Q s \<Longrightarrow> keeps P (f v s)) \<Longrightarrow> keeps P (ebind m f)"
  by (fastforce simp: keeps_def ebind_Inr)

lemma keepsI: "(\<And>v s es. m = Inr (v, s, es) \<Longrightarrow> P s) \<Longrightarrow> keeps P m"
  by (simp add: keeps_def)

lemma keepsD: "keeps P m \<Longrightarrow> m = Inr (v, s, es) \<Longrightarrow> P s"
  by (simp add: keeps_def)

subsection \<open>The level of an interrupt line\<close>

text \<open>\<^verbatim>\<open>KVM_IRQ_LINE\<close> sets a level, so the level of a line is the last one set.\<close>

definition irq_level :: "nat \<Rightarrow> bool \<Rightarrow> event list \<Rightarrow> bool" where
  "irq_level n l0 es = fold (\<lambda>e l. case e of Irq_Set m v \<Rightarrow> (if m = n then v \<noteq> 0 else l)
                                         | Put_Char c \<Rightarrow> l) es l0"

lemma irq_level_simps [simp]:
  "irq_level n l [] = l"
  "irq_level n l (Irq_Set m v # es) = irq_level n (if m = n then v \<noteq> 0 else l) es"
  "irq_level n l (Put_Char c # es) = irq_level n l es"
  by (simp_all add: irq_level_def)

lemma irq_level_append [simp]:
  "irq_level n l (es @ es') = irq_level n (irq_level n l es) es'"
  by (simp add: irq_level_def)

subsection \<open>Byte arrays\<close>

text \<open>
  An array of bytes is a list; an index is the C index as an \<open>int\<close>. A read or a write of
  \<open>n\<close> bytes succeeds only inside the array. Words are stored little-endian, as on the
  x86 host.
\<close>

definition in_range :: "uint8 list \<Rightarrow> int \<Rightarrow> nat \<Rightarrow> bool" where
  "in_range m i n \<longleftrightarrow> 0 \<le> i \<and> nat i + n \<le> length m"

definition rd_bytes :: "uint8 list \<Rightarrow> int \<Rightarrow> nat \<Rightarrow> fault + uint8 list" where
  "rd_bytes m i n = (if in_range m i n then Inr (take n (drop (nat i) m)) else Inl Wild_Access)"

definition wr_bytes :: "uint8 list \<Rightarrow> int \<Rightarrow> uint8 list \<Rightarrow> fault + uint8 list" where
  "wr_bytes m i bs = (if in_range m i (length bs)
     then Inr (take (nat i) m @ bs @ drop (nat i + length bs) m) else Inl Wild_Access)"

fun le_word :: "uint8 list \<Rightarrow> 'a::len word" where
  "le_word [] = 0"
| "le_word (b # bs) = ucast b OR push_bit 8 (le_word bs)"

definition le_bytes :: "nat \<Rightarrow> 'a::len word \<Rightarrow> uint8 list" where
  "le_bytes n w = map (\<lambda>k. ucast (drop_bit (8 * k) w)) [0..<n]"

lemma length_le_bytes [simp]: "length (le_bytes n w) = n"
  by (simp add: le_bytes_def)

lemma bit_le_word:
  "bit (le_word bs :: 'a::len word) k \<longleftrightarrow>
     k < LENGTH('a) \<and> k div 8 < length bs \<and> bit (bs ! (k div 8)) (k mod 8)"
proof (induction bs arbitrary: k)
  case Nil
  then show ?case by simp
next
  case (Cons b bs)
  show ?case
  proof (cases "k < 8")
    case True
    then show ?thesis
      by (auto simp: bit_or_iff bit_push_bit_iff bit_ucast_iff)
  next
    case False
    then obtain j where j: "k = j + 8" by (metis add.commute le_Suc_ex not_less)
    have "\<not> bit b (j + 8)" by (rule impossible_bit) simp
    moreover have "(j + 8) div 8 = Suc (j div 8)" by simp
    ultimately
    show ?thesis
      by (auto simp: j bit_or_iff bit_push_bit_iff bit_ucast_iff Cons.IH)
  qed
qed

lemma le_word_le_bytes:
  assumes "8 * n = LENGTH('a)"
  shows "le_word (le_bytes n w) = (w :: 'a::len word)"
proof (rule bit_word_eqI)
  fix k assume k: "k < LENGTH('a)"
  then have "k div 8 < n" using assms by presburger
  then show "bit (le_word (le_bytes n w) :: 'a word) k = bit w k"
    using k by (simp add: bit_le_word le_bytes_def bit_ucast_iff bit_drop_bit_eq)
qed

lemma le_word_le_bytes_sizes [simp]:
  "le_word (le_bytes (Suc 0) (b :: uint8)) = b"
  "le_word (le_bytes 2 (w :: uint16)) = w"
  "le_word (le_bytes 4 (d :: uint32)) = d"
  "le_word (le_bytes 8 (q :: uint64)) = q"
  by (simp_all add: le_word_le_bytes)

lemma le_bytes_1 [simp]: "le_bytes (Suc 0) (b :: uint8) = [b]"
  by (simp add: le_bytes_def)

lemma le_bytes_le_word:
  assumes "8 * length bs = LENGTH('a)"
  shows "le_bytes (length bs) (le_word bs :: 'a::len word) = bs"
proof (rule nth_equalityI)
  fix i assume "i < length (le_bytes (length bs) (le_word bs :: 'a word))"
  then have i: "i < length bs" by simp
  show "le_bytes (length bs) (le_word bs :: 'a word) ! i = bs ! i"
  proof (rule bit_word_eqI)
    fix k assume "k < LENGTH(8)"
    then have k: "k < 8" by simp
    then have "8 * i + k < LENGTH('a)" using i assms by presburger
    moreover have "(8 * i + k) div 8 = i" "(8 * i + k) mod 8 = k"
      using k by simp_all
    ultimately show "bit (le_bytes (length bs) (le_word bs :: 'a word) ! i) k = bit (bs ! i) k"
      using i k by (simp add: le_bytes_def bit_ucast_iff bit_drop_bit_eq bit_le_word)
  qed
qed simp

lemma rd_bytes_length: "rd_bytes m i n = Inr bs \<Longrightarrow> length bs = n"
  by (auto simp: rd_bytes_def in_range_def split: if_splits)

lemma wr_bytes_length: "wr_bytes m i bs = Inr m' \<Longrightarrow> length m' = length m"
  by (auto simp: wr_bytes_def in_range_def split: if_splits)

lemma rd_wr_bytes_same:
  assumes "wr_bytes m i bs = Inr m'"
  shows "rd_bytes m' i (length bs) = Inr bs"
  using assms by (auto simp: wr_bytes_def rd_bytes_def in_range_def split: if_splits)

lemma rd_bytes_ok: "in_range m i n \<Longrightarrow> rd_bytes m i n = Inr (take n (drop (nat i) m))"
  by (simp add: rd_bytes_def)

lemma wr_bytes_ok:
  "in_range m i (length bs) \<Longrightarrow>
     wr_bytes m i bs = Inr (take (nat i) m @ bs @ drop (nat i + length bs) m)"
  by (simp add: wr_bytes_def)

text \<open>Reads that miss the bytes a write touched see the old contents.\<close>

lemma nth_wr_bytes:
  assumes "wr_bytes m i bs = Inr m'" and "k < length m"
  shows "m' ! k = (if nat i \<le> k \<and> k < nat i + length bs then bs ! (k - nat i) else m ! k)"
  using assms
  by (auto simp: wr_bytes_def in_range_def nth_append not_less split: if_splits)

subsection \<open>Regular files\<close>

text \<open>
  The contents of an open regular file is a byte list. \<open>file_read f off n\<close> is what
  \<^verbatim>\<open>read\<close> (or \<^verbatim>\<open>fread\<close>) of \<open>n\<close> bytes at offset \<open>off\<close> delivers: a short read at the end of
  the file. \<open>file_write f off bs\<close> is \<^verbatim>\<open>write\<close> at \<open>off\<close>: bytes between the old end and
  \<open>off\<close> read as zero.
\<close>

definition file_read :: "uint8 list \<Rightarrow> nat \<Rightarrow> nat \<Rightarrow> uint8 list" where
  "file_read f off n = take n (drop off f)"

definition file_write :: "uint8 list \<Rightarrow> nat \<Rightarrow> uint8 list \<Rightarrow> uint8 list" where
  "file_write f off bs =
     take off f @ replicate (off - length f) 0 @ bs @ drop (off + length bs) f"

lemma file_read_write_same [simp]: "file_read (file_write f off bs) off (length bs) = bs"
  by (simp add: file_read_def file_write_def)

lemma length_file_write:
  "length (file_write f off bs) = max (length f) (off + length bs)"
  by (auto simp: file_write_def)

text \<open>A buffer whose first bytes are replaced by a (possibly short) read.\<close>

definition overlay :: "uint8 list \<Rightarrow> uint8 list \<Rightarrow> uint8 list" where
  "overlay buf bs = bs @ drop (length bs) buf"

lemma length_overlay [simp]: "length bs \<le> length buf \<Longrightarrow> length (overlay buf bs) = length buf"
  by (simp add: overlay_def)

lemma take_overlay: "n = length bs \<Longrightarrow> take n (overlay buf bs) = bs"
  by (simp add: overlay_def)

subsection \<open>Testing single bits\<close>

text \<open>The code tests bit \<open>n\<close> as \<^verbatim>\<open>(v >> n) & 1\<close> or as \<^verbatim>\<open>v & (1 << n)\<close>.\<close>

lemma drop_bit_and_1: "drop_bit n v AND 1 = (of_bool (bit v n) :: 'a::len word)"
  by (simp add: and_one_eq bit_iff_odd_drop_bit mod_2_eq_odd)

lemma and_exp_eq: "v AND 2 ^ n = (of_bool (bit v n) * 2 ^ n :: 'a::len word)"
  by (rule bit_word_eqI) (auto simp: bit_and_iff bit_exp_iff)

lemma and_pow_2: "v AND 2 = (of_bool (bit v 1) * 2 :: 'a::len word)"
  using and_exp_eq [of v 1] by simp

lemma and_pow_4: "v AND 4 = (of_bool (bit v 2) * 4 :: 'a::len word)"
  using and_exp_eq [of v 2] by simp

lemma and_pow_1: "v AND 1 = (of_bool (bit v 0) :: 'a::len word)"
  using and_exp_eq [of v 0] by simp

text \<open>Two bit fields put together by shift and OR, as numbers.\<close>

lemma unat_push_or:
  fixes a b :: "'a::len word"
  assumes "unat b < 2 ^ k" and "unat a * 2 ^ k < 2 ^ LENGTH('a)"
  shows "unat (push_bit k a OR b) = unat a * 2 ^ k + unat b"
proof -
  have b: "take_bit k b = b"
    using assms(1) by (simp add: word_unat_eq_iff unsigned_take_bit_eq take_bit_nat_eq_self)
  have "push_bit k a OR b = push_bit k a + b"
    by (rule disjunctive_add [symmetric]) (metis b bit_push_bit_iff bit_take_bit_iff not_le)
  moreover have "unat (push_bit k a) = unat a * 2 ^ k"
    by (subst unsigned_push_bit_eq)
       (use take_bit_nat_eq_self [OF assms(2)] in \<open>simp add: push_bit_eq_mult\<close>)
  moreover have "unat a * 2 ^ k + unat b < 2 ^ LENGTH('a)"
  proof (cases "k \<le> LENGTH('a)")
    case True
    then obtain j where j: "LENGTH('a) = k + j" using le_Suc_ex by blast
    with assms(2) have "unat a < 2 ^ j" by (simp add: power_add mult.commute)
    then have "(unat a + 1) * 2 ^ k \<le> 2 ^ j * 2 ^ k" by (intro mult_right_mono) simp_all
    with assms(1) show ?thesis by (simp add: j power_add mult.commute)
  next
    case False
    then have "(2::nat) ^ LENGTH('a) \<le> 2 ^ k" by simp
    with assms(2) have "unat a = 0" by (cases "unat a") auto
    then show ?thesis by simp
  qed
  ultimately show ?thesis by (simp add: unat_word_ariths)
qed

lemma unat_byte: "unat (b :: uint8) < 256"
  using unsigned_less [of b] by simp

lemma unat_byte_less: "256 \<le> n \<Longrightarrow> unat (b :: uint8) < n"
  using unat_byte [of b] by simp

lemma unat_ucast_8_32: "unat (ucast (b :: uint8) :: uint32) = unat b"
  by (simp add: unsigned_ucast_eq take_bit_nat_eq_self unat_byte_less)

subsection \<open>Address decoding by mask\<close>

text \<open>
  A decoder compares the address under a mask with a base. When the mask clears the
  low \<open>k\<close> bits and the base has them clear, the decoded addresses are an interval.
\<close>

lemma unat_and_not_mask:
  fixes a :: "'a::len word"
  shows "unat (a AND NOT (mask k)) = unat a div 2 ^ k * 2 ^ k"
proof -
  have "a AND NOT (mask k) = push_bit k (drop_bit k a)"
    by (rule bit_word_eqI) (auto simp: bit_and_iff bit_not_iff bit_mask_iff bit_push_bit_iff
        bit_drop_bit_eq)
  moreover have "unat (push_bit k (drop_bit k a)) = push_bit k (drop_bit k (unat a))"
    by (rule bit_eqI)
       (auto simp: bit_unsigned_iff bit_push_bit_iff bit_drop_bit_eq dest: bit_imp_le_length)
  ultimately show ?thesis by (simp add: push_bit_eq_mult drop_bit_eq_div)
qed

lemma decode_interval:
  fixes a b :: "'a::len word"
  assumes "unat b mod 2 ^ k = 0"
  shows "a AND NOT (mask k) = b \<longleftrightarrow> unat b \<le> unat a \<and> unat a < unat b + 2 ^ k"
proof -
  obtain q where q: "unat b = q * 2 ^ k"
    using assms by (metis add_0_right div_mult_mod_eq)
  have "a AND NOT (mask k) = b \<longleftrightarrow> unat a div 2 ^ k * 2 ^ k = q * 2 ^ k"
    by (metis q unat_and_not_mask word_unat_eq_iff)
  also have "\<dots> \<longleftrightarrow> unat a div 2 ^ k = q" by simp
  also have "\<dots> \<longleftrightarrow> q * 2 ^ k \<le> unat a \<and> unat a < q * 2 ^ k + 2 ^ k"
    by (metis add.commute div_nat_eqI dividend_less_times_div less_mult_imp_div_less
        mult.commute mult_Suc zero_less_numeral zero_less_power div_times_less_eq_dividend)
  finally show ?thesis by (simp add: q)
qed

end
