(* ===== verification/Io_Bus.thy ===== *)
theory Io_Bus
  imports Prelude
begin

text \<open>
  The port I/O bus: \<^verbatim>\<open>io.c\<close> and \<^verbatim>\<open>include/io.h\<close>. A handler is the record the devices
  register; its function pointers are options (\<open>None\<close> is NULL) of functions from the
  port offset and the device state. The type of the state is a parameter, so that a
  handler can be written over one device and lifted to the whole machine.
  The locale \<open>port_device\<close> is the contract between a device and the bus: every access
  that returns keeps the device's invariant. What the bus promises on top of it (any
  sequence of accesses keeps the invariants) is proved once, inside \<open>io_bus\<close>.
\<close>

subsection \<open>Handlers\<close>

record 's io_handler =
  base :: uint16
  io_mask :: uint16
  inb :: "(uint16 \<Rightarrow> 's \<Rightarrow> ('s, uint8) effect) option"
  inw :: "(uint16 \<Rightarrow> 's \<Rightarrow> ('s, uint16) effect) option"
  inl :: "(uint16 \<Rightarrow> 's \<Rightarrow> ('s, uint32) effect) option"
  outb :: "(uint16 \<Rightarrow> uint8 \<Rightarrow> 's \<Rightarrow> ('s, unit) effect) option"
  outw :: "(uint16 \<Rightarrow> uint16 \<Rightarrow> 's \<Rightarrow> ('s, unit) effect) option"
  outl :: "(uint16 \<Rightarrow> uint32 \<Rightarrow> 's \<Rightarrow> ('s, unit) effect) option"

definition MAX_HANDLERS :: nat where
  "MAX_HANDLERS = 128"

text \<open>The table \<^verbatim>\<open>iohandler[0..iohandlers-1]\<close>, in registration order.\<close>

type_synonym 's io_table = "'s io_handler list"

definition io_match :: "uint16 \<Rightarrow> 's io_handler \<Rightarrow> bool" where
  "io_match address h \<longleftrightarrow> address AND io_mask h = base h"

fun lookup_handler :: "'s io_table \<Rightarrow> uint16 \<Rightarrow> 's io_handler option" where
  "lookup_handler [] address = None"
| "lookup_handler (h # hs) address =
     (if io_match address h then Some h else lookup_handler hs address)"

text \<open>The handle returned is the slot of the table, \<open>None\<close> for the NULL of a full table.\<close>

definition io_register_handler ::
    "'s io_handler \<Rightarrow> 's io_table \<Rightarrow> nat option \<times> 's io_table" where
  "io_register_handler h tbl =
     (if length tbl < MAX_HANDLERS - 1 then (Some (length tbl), tbl @ [h]) else (None, tbl))"

definition io_remap_handler ::
    "nat option \<Rightarrow> 's io_handler \<Rightarrow> 's io_table \<Rightarrow> fault + 's io_table" where
  "io_remap_handler hdl h tbl =
     (case hdl of None \<Rightarrow> Inl Wild_Access | Some i \<Rightarrow> Inr (tbl[i := h]))"

subsection \<open>Accesses\<close>

text \<open>
  The three output functions \<^verbatim>\<open>ASSERT\<close> that the handler's function exists; the three
  input functions call it unchecked. A port without a handler swallows output and reads
  as \<open>0xFF\<close> for bytes and as \<open>0\<close> for wider accesses.
\<close>

definition io_outb :: "'s io_table \<Rightarrow> uint16 \<Rightarrow> uint8 \<Rightarrow> 's \<Rightarrow> ('s, unit) effect" where
  "io_outb tbl port val s = (case lookup_handler tbl port of
     None \<Rightarrow> ret () s
   | Some h \<Rightarrow> (case outb h of None \<Rightarrow> assert_failed | Some f \<Rightarrow> f (port - base h) val s))"

definition io_outw :: "'s io_table \<Rightarrow> uint16 \<Rightarrow> uint16 \<Rightarrow> 's \<Rightarrow> ('s, unit) effect" where
  "io_outw tbl port val s = (case lookup_handler tbl port of
     None \<Rightarrow> ret () s
   | Some h \<Rightarrow> (case outw h of None \<Rightarrow> assert_failed | Some f \<Rightarrow> f (port - base h) val s))"

definition io_outl :: "'s io_table \<Rightarrow> uint16 \<Rightarrow> uint32 \<Rightarrow> 's \<Rightarrow> ('s, unit) effect" where
  "io_outl tbl port val s = (case lookup_handler tbl port of
     None \<Rightarrow> ret () s
   | Some h \<Rightarrow> (case outl h of None \<Rightarrow> assert_failed | Some f \<Rightarrow> f (port - base h) val s))"

definition io_inb :: "'s io_table \<Rightarrow> uint16 \<Rightarrow> 's \<Rightarrow> ('s, uint8) effect" where
  "io_inb tbl port s = (case lookup_handler tbl port of
     None \<Rightarrow> ret 0xFF s
   | Some h \<Rightarrow> (case inb h of None \<Rightarrow> Inl Null_Call | Some f \<Rightarrow> f (port - base h) s))"

definition io_inw :: "'s io_table \<Rightarrow> uint16 \<Rightarrow> 's \<Rightarrow> ('s, uint16) effect" where
  "io_inw tbl port s = (case lookup_handler tbl port of
     None \<Rightarrow> ret 0 s
   | Some h \<Rightarrow> (case inw h of None \<Rightarrow> Inl Null_Call | Some f \<Rightarrow> f (port - base h) s))"

definition io_inl :: "'s io_table \<Rightarrow> uint16 \<Rightarrow> 's \<Rightarrow> ('s, uint32) effect" where
  "io_inl tbl port s = (case lookup_handler tbl port of
     None \<Rightarrow> ret 0 s
   | Some h \<Rightarrow> (case inl h of None \<Rightarrow> Inl Null_Call | Some f \<Rightarrow> f (port - base h) s))"

subsection \<open>The accesses as data\<close>

text \<open>
  A guest program, as seen by the bus, is a sequence of accesses. The value an access
  delivers is kept at 32 bits, whatever its width.
\<close>

datatype access =
    In8 uint16 | In16 uint16 | In32 uint16
  | Out8 uint16 uint8 | Out16 uint16 uint16 | Out32 uint16 uint32

definition widen :: "('s, 'a::len word) effect \<Rightarrow> ('s, uint32) effect" where
  "widen m = ebind m (\<lambda>v s. ret (ucast v) s)"

definition silent :: "('s, unit) effect \<Rightarrow> ('s, uint32) effect" where
  "silent m = ebind m (\<lambda>_ s. ret 0 s)"

fun handler_access :: "'s io_handler \<Rightarrow> access \<Rightarrow> 's \<Rightarrow> ('s, uint32) effect" where
  "handler_access h (In8 p) s =
     (case inb h of None \<Rightarrow> Inl Null_Call | Some f \<Rightarrow> widen (f (p - base h) s))"
| "handler_access h (In16 p) s =
     (case inw h of None \<Rightarrow> Inl Null_Call | Some f \<Rightarrow> widen (f (p - base h) s))"
| "handler_access h (In32 p) s =
     (case inl h of None \<Rightarrow> Inl Null_Call | Some f \<Rightarrow> widen (f (p - base h) s))"
| "handler_access h (Out8 p v) s =
     (case outb h of None \<Rightarrow> assert_failed | Some f \<Rightarrow> silent (f (p - base h) v s))"
| "handler_access h (Out16 p v) s =
     (case outw h of None \<Rightarrow> assert_failed | Some f \<Rightarrow> silent (f (p - base h) v s))"
| "handler_access h (Out32 p v) s =
     (case outl h of None \<Rightarrow> assert_failed | Some f \<Rightarrow> silent (f (p - base h) v s))"

fun bus_access :: "'s io_table \<Rightarrow> access \<Rightarrow> 's \<Rightarrow> ('s, uint32) effect" where
  "bus_access tbl (In8 p) s = widen (io_inb tbl p s)"
| "bus_access tbl (In16 p) s = widen (io_inw tbl p s)"
| "bus_access tbl (In32 p) s = widen (io_inl tbl p s)"
| "bus_access tbl (Out8 p v) s = silent (io_outb tbl p v s)"
| "bus_access tbl (Out16 p v) s = silent (io_outw tbl p v s)"
| "bus_access tbl (Out32 p v) s = silent (io_outl tbl p v s)"

text \<open>A run delivers the values of its accesses, in order; it stops at the first fault.\<close>

fun run_with :: "(access \<Rightarrow> 's \<Rightarrow> ('s, uint32) effect) \<Rightarrow> access list \<Rightarrow> 's
    \<Rightarrow> ('s, uint32 list) effect" where
  "run_with step [] s = ret [] s"
| "run_with step (a # as) s =
     ebind (step a s) (\<lambda>v s1. ebind (run_with step as s1) (\<lambda>vs s2. ret (v # vs) s2))"

abbreviation bus_run :: "'s io_table \<Rightarrow> access list \<Rightarrow> 's \<Rightarrow> ('s, uint32 list) effect" where
  "bus_run tbl \<equiv> run_with (bus_access tbl)"

abbreviation handler_run ::
    "'s io_handler \<Rightarrow> access list \<Rightarrow> 's \<Rightarrow> ('s, uint32 list) effect" where
  "handler_run h \<equiv> run_with (handler_access h)"

fun access_port :: "access \<Rightarrow> uint16" where
  "access_port (In8 p) = p" | "access_port (In16 p) = p" | "access_port (In32 p) = p"
| "access_port (Out8 p v) = p" | "access_port (Out16 p v) = p" | "access_port (Out32 p v) = p"

lemma widen_Inr: "widen m = Inr (w, s', es) \<longleftrightarrow> (\<exists>v. m = Inr (v, s', es) \<and> w = ucast v)"
  by (auto simp: widen_def ebind_Inr)

lemma silent_Inr: "silent m = Inr (w, s', es) \<longleftrightarrow> m = Inr ((), s', es) \<and> w = 0"
  by (auto simp: silent_def ebind_Inr)

lemma widen_simps [simp]: "widen (emit es v s) = emit es (ucast v) s" "widen (Inl e) = Inl e"
  by (auto simp: widen_def ebind_def emit_def)

lemma silent_simps [simp]: "silent (emit es u s) = emit es 0 s" "silent (Inl e) = Inl e"
  by (auto simp: silent_def ebind_def emit_def)

lemmas io_defs = io_outb_def io_outw_def io_outl_def io_inb_def io_inw_def io_inl_def

text \<open>On a claimed port the bus does what the claiming handler does.\<close>

lemma bus_access_handler:
  assumes "lookup_handler tbl (access_port a) = Some h"
  shows "bus_access tbl a s = handler_access h a s"
  using assms by (cases a) (auto simp: io_defs split: option.splits)

lemma bus_access_none:
  assumes "lookup_handler tbl (access_port a) = None"
  shows "\<exists>v. bus_access tbl a s = emit [] v s"
  using assms by (cases a) (auto simp: io_defs)

lemma lookup_handler_SomeD: "lookup_handler tbl p = Some h \<Longrightarrow> h \<in> set tbl \<and> io_match p h"
  by (induction tbl) (auto split: if_splits)

lemma lookup_handler_append:
  "lookup_handler (xs @ ys) p =
     (case lookup_handler xs p of None \<Rightarrow> lookup_handler ys p | Some h \<Rightarrow> Some h)"
  by (induction xs) auto

lemma ebind_assoc:
  "ebind (ebind m f) g = ebind m (\<lambda>v s. ebind (f v s) g)"
  by (auto simp: ebind_def split: sum.splits prod.splits)

lemma run_with_append:
  "run_with step (as @ bs) s =
     ebind (run_with step as s) (\<lambda>vs s1. ebind (run_with step bs s1) (\<lambda>ws s2. ret (vs @ ws) s2))"
proof (induction as arbitrary: s)
  case Nil
  then show ?case by (auto simp: ebind_def emit_def split: sum.splits)
next
  case (Cons a as)
  then show ?case by (simp add: ebind_assoc)
qed

text \<open>Two runs that return, one after the other.\<close>

lemma run_with_append_emit:
  "run_with step as s = emit es vs s1 \<Longrightarrow> run_with step bs s1 = emit es' ws s2 \<Longrightarrow>
     run_with step (as @ bs) s = emit (es @ es') (vs @ ws) s2"
  by (simp add: run_with_append ebind_def emit_def)

subsection \<open>The contract of a device on the bus\<close>

locale port_device =
  fixes hdl :: "'s io_handler" and inv :: "'s \<Rightarrow> bool"
  assumes inb_inv: "inb hdl = Some f \<Longrightarrow> inv s \<Longrightarrow> f p s = Inr (v, s', es) \<Longrightarrow> inv s'"
    and inw_inv: "inw hdl = Some g \<Longrightarrow> inv s \<Longrightarrow> g p s = Inr (w, s', es) \<Longrightarrow> inv s'"
    and inl_inv: "inl hdl = Some h \<Longrightarrow> inv s \<Longrightarrow> h p s = Inr (l, s', es) \<Longrightarrow> inv s'"
    and outb_inv: "outb hdl = Some f' \<Longrightarrow> inv s \<Longrightarrow> f' p v s = Inr (u, s', es) \<Longrightarrow> inv s'"
    and outw_inv: "outw hdl = Some g' \<Longrightarrow> inv s \<Longrightarrow> g' p w s = Inr (u, s', es) \<Longrightarrow> inv s'"
    and outl_inv: "outl hdl = Some h' \<Longrightarrow> inv s \<Longrightarrow> h' p l s = Inr (u, s', es) \<Longrightarrow> inv s'"
begin

lemma access_inv:
  assumes "inv s" and "handler_access hdl a s = Inr (v, s', es)"
  shows "inv s'"
  using assms
  by (cases a)
     (auto simp: widen_Inr silent_Inr split: option.splits
       dest: inb_inv inw_inv inl_inv outb_inv outw_inv outl_inv)

lemma run_inv: "inv s \<Longrightarrow> handler_run hdl as s = Inr (vs, s', es) \<Longrightarrow> inv s'"
  by (induction as arbitrary: s vs es) (auto simp: ebind_Inr dest: access_inv)

end

locale io_bus =
  fixes tbl :: "'s io_table" and inv :: "'s \<Rightarrow> bool"
  assumes devices: "h \<in> set tbl \<Longrightarrow> port_device h inv"
begin

lemma bus_access_inv:
  assumes inv: "inv s" and acc: "bus_access tbl a s = Inr (v, s', es)"
  shows "inv s'"
proof (cases "lookup_handler tbl (access_port a)")
  case None
  with bus_access_none [OF None] inv acc show ?thesis by (metis emit_Inr)
next
  case (Some h)
  then have dev: "port_device h inv" using devices lookup_handler_SomeD by blast
  from acc have "handler_access h a s = Inr (v, s', es)"
    by (simp add: bus_access_handler [OF Some])
  with inv show ?thesis by (rule port_device.access_inv [OF dev])
qed

lemma bus_run_inv: "inv s \<Longrightarrow> bus_run tbl as s = Inr (vs, s', es) \<Longrightarrow> inv s'"
  by (induction as arbitrary: s vs es) (auto simp: ebind_Inr dest: bus_access_inv)

end

sublocale port_device \<subseteq> single: io_bus "[hdl]" inv
  by (rule io_bus.intro) (use port_device_axioms in simp)

subsection \<open>Lifting a handler to a larger state\<close>

text \<open>
  A device works on its own state; the machine holds one such state per device.
  \<open>lift_handler get put h\<close> is the handler of the device inside the machine.
\<close>

definition lift_effect :: "('m \<Rightarrow> 's) \<Rightarrow> ('s \<Rightarrow> 'm \<Rightarrow> 'm) \<Rightarrow> ('s \<Rightarrow> ('s, 'a) effect)
    \<Rightarrow> 'm \<Rightarrow> ('m, 'a) effect" where
  "lift_effect get put f m =
     (case f (get m) of Inl e \<Rightarrow> Inl e | Inr (v, s, es) \<Rightarrow> Inr (v, put s m, es))"

definition lift_handler :: "('m \<Rightarrow> 's) \<Rightarrow> ('s \<Rightarrow> 'm \<Rightarrow> 'm) \<Rightarrow> 's io_handler \<Rightarrow> 'm io_handler" where
  "lift_handler get put h = \<lparr> base = base h, io_mask = io_mask h,
     inb = map_option (\<lambda>f p. lift_effect get put (f p)) (inb h),
     inw = map_option (\<lambda>f p. lift_effect get put (f p)) (inw h),
     inl = map_option (\<lambda>f p. lift_effect get put (f p)) (inl h),
     outb = map_option (\<lambda>f p v. lift_effect get put (f p v)) (outb h),
     outw = map_option (\<lambda>f p v. lift_effect get put (f p v)) (outw h),
     outl = map_option (\<lambda>f p v. lift_effect get put (f p v)) (outl h) \<rparr>"

lemma lift_effect_Inr:
  "lift_effect get put f m = Inr (v, m', es) \<longleftrightarrow>
     (\<exists>s. f (get m) = Inr (v, s, es) \<and> m' = put s m)"
  by (auto simp: lift_effect_def split: sum.splits prod.splits)

lemma lift_effect_emit [simp]:
  "f (get m) = emit es v s \<Longrightarrow> lift_effect get put f m = emit es v (put s m)"
  by (simp add: lift_effect_def emit_def)

lemma io_match_lift [simp]: "io_match p (lift_handler get put h) \<longleftrightarrow> io_match p h"
  by (simp add: io_match_def lift_handler_def)

lemma handler_access_lift:
  "handler_access (lift_handler get put h) a m = lift_effect get put (handler_access h a) m"
  by (cases a)
     (auto simp: lift_handler_def lift_effect_def widen_def silent_def ebind_def
       split: option.splits sum.splits)

text \<open>
  A device's contract lifts to the machine when writing the device's state back keeps the
  machine's invariant.
\<close>

lemma port_device_lift:
  assumes dev: "port_device h dinv"
    and get: "\<And>m. minv m \<Longrightarrow> dinv (get m)"
    and put: "\<And>m s. minv m \<Longrightarrow> dinv s \<Longrightarrow> minv (put s m)"
  shows "port_device (lift_handler get put h) minv"
  by (unfold_locales;
      clarsimp simp: lift_handler_def lift_effect_Inr;
      rule put, assumption;
      metis get port_device.inb_inv [OF dev] port_device.inw_inv [OF dev]
        port_device.inl_inv [OF dev] port_device.outb_inv [OF dev]
        port_device.outw_inv [OF dev] port_device.outl_inv [OF dev])

end
