(* ===== verification/Simple_Ports.thy ===== *)
theory Simple_Ports
  imports Io_Bus
begin

text \<open>
  The small port devices: the serial and parallel ports (\<^verbatim>\<open>serialport.c\<close>,
  \<^verbatim>\<open>parallelport.c\<close>), the SeaBIOS debug port (\<^verbatim>\<open>bios_debug.c\<close>) and the PS/2 programmable
  option select with its A20 gate (\<^verbatim>\<open>ps2_pos.c\<close>). The first three have no state: they
  work over \<open>unit\<close>.
\<close>

subsection \<open>Serial ports\<close>

definition serport_inb :: "uint16 \<Rightarrow> unit \<Rightarrow> (unit, uint8) effect" where
  "serport_inb port s = ret 0x00 s"

definition serport_inw :: "uint16 \<Rightarrow> unit \<Rightarrow> (unit, uint16) effect" where
  "serport_inw port s = assert_failed"

definition serport_inl :: "uint16 \<Rightarrow> unit \<Rightarrow> (unit, uint32) effect" where
  "serport_inl port s = assert_failed"

definition serport_outb :: "uint16 \<Rightarrow> uint8 \<Rightarrow> unit \<Rightarrow> (unit, unit) effect" where
  "serport_outb port val s = ret () s"

definition serport_outw :: "uint16 \<Rightarrow> uint16 \<Rightarrow> unit \<Rightarrow> (unit, unit) effect" where
  "serport_outw port val s = assert_failed"

definition serport_outl :: "uint16 \<Rightarrow> uint32 \<Rightarrow> unit \<Rightarrow> (unit, unit) effect" where
  "serport_outl port val s = assert_failed"

definition serport_hdl :: "uint16 \<Rightarrow> unit io_handler" where
  "serport_hdl b = \<lparr> base = b, io_mask = 0xFFF8,
     inb = Some serport_inb, inw = Some serport_inw, inl = Some serport_inl,
     outb = Some serport_outb, outw = Some serport_outw, outl = Some serport_outl \<rparr>"

text \<open>The four handlers \<^verbatim>\<open>x86_serialport_init\<close> registers, in its order.\<close>

definition x86_serialport_init :: "unit io_handler list" where
  "x86_serialport_init = map serport_hdl [0x03F8, 0x02F8, 0x03E8, 0x02E8]"

subsection \<open>Parallel ports\<close>

definition parport_inb :: "uint16 \<Rightarrow> unit \<Rightarrow> (unit, uint8) effect" where
  "parport_inb port s = ret 0x00 s"

definition parport_inw :: "uint16 \<Rightarrow> unit \<Rightarrow> (unit, uint16) effect" where
  "parport_inw port s = assert_failed"

definition parport_inl :: "uint16 \<Rightarrow> unit \<Rightarrow> (unit, uint32) effect" where
  "parport_inl port s = assert_failed"

definition parport_outb :: "uint16 \<Rightarrow> uint8 \<Rightarrow> unit \<Rightarrow> (unit, unit) effect" where
  "parport_outb port val s = ret () s"

definition parport_outw :: "uint16 \<Rightarrow> uint16 \<Rightarrow> unit \<Rightarrow> (unit, unit) effect" where
  "parport_outw port val s = assert_failed"

definition parport_outl :: "uint16 \<Rightarrow> uint32 \<Rightarrow> unit \<Rightarrow> (unit, unit) effect" where
  "parport_outl port val s = assert_failed"

definition parport_hdl :: "uint16 \<Rightarrow> unit io_handler" where
  "parport_hdl b = \<lparr> base = b, io_mask = 0xFFFC,
     inb = Some parport_inb, inw = Some parport_inw, inl = Some parport_inl,
     outb = Some parport_outb, outw = Some parport_outw, outl = Some parport_outl \<rparr>"

definition x86_parallelport_init :: "unit io_handler list" where
  "x86_parallelport_init = map parport_hdl [0x0378, 0x0278]"

subsection \<open>SeaBIOS debug port\<close>

definition biosdebug_inb :: "uint16 \<Rightarrow> unit \<Rightarrow> (unit, uint8) effect" where
  "biosdebug_inb port s = assert_failed"

definition biosdebug_outb :: "uint16 \<Rightarrow> uint8 \<Rightarrow> unit \<Rightarrow> (unit, unit) effect" where
  "biosdebug_outb port val s = emit [Put_Char val] () s"

definition biosdebug_hdl :: "unit io_handler" where
  "biosdebug_hdl = \<lparr> base = 0x402, io_mask = 0xFFFF,
     inb = Some biosdebug_inb, inw = None, inl = None,
     outb = Some biosdebug_outb, outw = None, outl = None \<rparr>"

lemmas simple_port_defs [dev_defs] =
  serport_inb_def serport_inw_def serport_inl_def serport_outb_def serport_outw_def
  serport_outl_def parport_inb_def parport_inw_def parport_inl_def parport_outb_def
  parport_outw_def parport_outl_def biosdebug_inb_def biosdebug_outb_def

interpretation serport: port_device "serport_hdl b" "\<lambda>_. True" for b
  by unfold_locales simp_all

interpretation parport: port_device "parport_hdl b" "\<lambda>_. True" for b
  by unfold_locales simp_all

interpretation biosdebug: port_device biosdebug_hdl "\<lambda>_. True"
  by unfold_locales simp_all

subsection \<open>PS/2 programmable option select\<close>

text \<open>\<^verbatim>\<open>A20_en\<close> is a C \<open>int\<close>; the code only stores 0 or 1 in it.\<close>

record ps2pos =
  A20_en :: int

definition ps2pos_inb :: "uint16 \<Rightarrow> ps2pos \<Rightarrow> (ps2pos, uint8) effect" where
  "ps2pos_inb port st =
     (if port = 2 then ret (push_bit 1 (if A20_en st \<noteq> 0 then 1 else 0)) st
      else assert_failed)"

definition ps2pos_outb :: "uint16 \<Rightarrow> uint8 \<Rightarrow> ps2pos \<Rightarrow> (ps2pos, unit) effect" where
  "ps2pos_outb port val st =
     (if port = 2 then ret () (st\<lparr>A20_en := uint (drop_bit 1 val AND 1)\<rparr>)
      else assert_failed)"

definition ps2pos_hdl :: "ps2pos io_handler" where
  "ps2pos_hdl = \<lparr> base = 0x90, io_mask = NOT 0x7,
     inb = Some ps2pos_inb, inw = None, inl = None,
     outb = Some ps2pos_outb, outw = None, outl = None \<rparr>"

definition x86_ps2_POS_init :: ps2pos where
  "x86_ps2_POS_init = \<lparr> A20_en = 0 \<rparr>"

definition ps2pos_wf :: "ps2pos \<Rightarrow> bool" where
  [wf_simps]: "ps2pos_wf st \<longleftrightarrow> A20_en st \<in> {0, 1}"

lemmas ps2pos_defs [dev_defs] = ps2pos_inb_def ps2pos_outb_def

interpretation ps2pos: port_device ps2pos_hdl ps2pos_wf
  by unfold_locales
     (auto simp: ps2pos_hdl_def ps2pos_defs ps2pos_wf_def drop_bit_and_1 split: if_splits)

text \<open>
  What is read back from system control port A is the A20 bit last written, in place;
  every other bit of the written value is dropped.
\<close>

lemma ps2pos_readback:
  "handler_run ps2pos_hdl [Out8 0x92 v, In8 0x92] st =
     emit [] [0, ucast (v AND 2)] (st\<lparr>A20_en := uint (drop_bit 1 v AND 1)\<rparr>)"
  by (cases "bit v 1") (simp_all add: ps2pos_hdl_def ps2pos_defs drop_bit_and_1 and_pow_2)

end
