(* ===== verification/Keyboard.thy ===== *)
theory Keyboard
  imports Io_Bus
begin

text \<open>
  The keyboard controller, \<^verbatim>\<open>i8042.c\<close>: the command port (\<^verbatim>\<open>0x64\<close>), the data port
  (\<^verbatim>\<open>0x60\<close>), the parameters still expected by a controller or a keyboard command, the
  output buffer the guest reads from, and the key presses the viewer injects.
\<close>

record kbd =
  kb_status :: uint8
  command_byte :: uint8
  buf_output :: "uint8 list"
  ndx_output :: int
  cmdparams :: "uint8 list"
  cmdparams_left :: int
  cmdparams_cmd :: uint8
  kbdparams :: "uint8 list"
  kbdparams_left :: int
  kbdparams_cmd :: uint8
  kb_control :: uint8

text \<open>Loads and stores in the eight-byte arrays of the register file.\<close>

definition arr_get :: "uint8 list \<Rightarrow> int \<Rightarrow> fault + uint8" where
  "arr_get xs i = (if 0 \<le> i \<and> i < int (length xs) then Inr (xs ! nat i) else Inl Wild_Access)"

definition arr_set :: "uint8 list \<Rightarrow> int \<Rightarrow> uint8 \<Rightarrow> fault + uint8 list" where
  "arr_set xs i v =
     (if 0 \<le> i \<and> i < int (length xs) then Inr (xs[nat i := v]) else Inl Wild_Access)"

subsection \<open>Injected keys\<close>

definition kbd_inject :: "uint8 \<Rightarrow> bool \<Rightarrow> kbd \<Rightarrow> (kbd, unit) effect" where
  "kbd_inject sc bIsPressed r =
     emit [Irq_Set 1 1] ()
       (r\<lparr>buf_output := (buf_output r)[0 := if bIsPressed then sc else sc OR 0x80],
          ndx_output := 0, kb_status := kb_status r OR 1\<rparr>)"

subsection \<open>Controller commands\<close>

definition handle_command_withparams :: "uint8 \<Rightarrow> uint8 list \<Rightarrow> kbd \<Rightarrow> (kbd, unit) effect" where
  "handle_command_withparams cmd pParams r =
     (if cmd = 0x60 then ret () (r\<lparr>command_byte := pParams ! 0\<rparr>)
      else if cmd = 0xD3 then ret () r
      else if cmd = 0xD4 then ret () r
      else if cmd = 0xD1 then ret () r
      else assert_failed)"

text \<open>One byte put in the output buffer, with the output-buffer-full bit flagged.\<close>

definition reply_byte :: "uint8 \<Rightarrow> kbd \<Rightarrow> kbd" where
  "reply_byte b r = r\<lparr>buf_output := (buf_output r)[0 := b], ndx_output := 0,
     kb_status := kb_status r OR 1\<rparr>"

definition expect_cmdparam :: "uint8 \<Rightarrow> kbd \<Rightarrow> kbd" where
  "expect_cmdparam cmd r = r\<lparr>cmdparams_left := 1, cmdparams_cmd := cmd\<rparr>"

text \<open>
  The \<^verbatim>\<open>case 0x20\<close> of the switch has no \<^verbatim>\<open>break\<close>: it goes on with the body of
  \<^verbatim>\<open>case 0x60\<close>.
\<close>

definition handle_command :: "uint8 \<Rightarrow> kbd \<Rightarrow> (kbd, unit) effect" where
  "handle_command cmd r =
     (if cmd = 0x20 then ret () (expect_cmdparam cmd (reply_byte (command_byte r) r))
      else if cmd = 0x60 then ret () (expect_cmdparam cmd r)
      else if cmd = 0xA9 then ret () (reply_byte 0x01 r)
      else if cmd = 0xAA then ret () (reply_byte 0x55 r)
      else if cmd = 0xAD then ret () r
      else if cmd = 0xAE then ret () r
      else if cmd = 0xAB then ret () (reply_byte 0x00 r)
      else if cmd = 0xD1 then ret () (expect_cmdparam cmd r)
      else if cmd = 0xD3 then ret () (expect_cmdparam cmd r)
      else if cmd = 0xD4 then ret () (expect_cmdparam cmd r)
      else if cmd = 0xFF then ret () r
      else assert_failed)"

subsection \<open>Keyboard commands\<close>

text \<open>The keyboard's acknowledge overwrites the whole status register.\<close>

definition kbd_ack :: "kbd \<Rightarrow> kbd" where
  "kbd_ack r = r\<lparr>buf_output := (buf_output r)[0 := 0xFA], ndx_output := 0, kb_status := 1\<rparr>"

definition handle_kbd_command_withparams ::
    "uint8 \<Rightarrow> uint8 list \<Rightarrow> kbd \<Rightarrow> (kbd, unit) effect" where
  "handle_kbd_command_withparams cmd pParams r =
     (if cmd = 0xED then ret () (kbd_ack r)
      else if cmd = 0xF0 then ret () (kbd_ack r)
      else assert_failed)"

definition handle_kbd_command :: "uint8 \<Rightarrow> kbd \<Rightarrow> (kbd, unit) effect" where
  "handle_kbd_command cmd r =
     (if cmd = 0x05 then ret () r
      else if cmd = 0xED then ret () (r\<lparr>kbdparams_left := 1, kbdparams_cmd := cmd\<rparr>)
      else if cmd = 0xF0 then
        ret () (kbd_ack (r\<lparr>kbdparams_left := 1, kbdparams_cmd := cmd\<rparr>))
      else if cmd = 0xF2 then ret () (kbd_ack r)
      else if cmd = 0xF4 then ret () (kbd_ack r)
      else if cmd = 0xF5 then ret () (kbd_ack r)
      else if cmd = 0xFF then
        ret () (r\<lparr>buf_output := (buf_output r)[0 := 0xAA, 1 := 0xFA], ndx_output := 1,
                  kb_status := 1\<rparr>)
      else assert_failed)"

subsection \<open>Port accesses\<close>

text \<open>The first argument of the port functions is \<^verbatim>\<open>hdl->base\<close>.\<close>

definition kbd_inb :: "uint16 \<Rightarrow> uint16 \<Rightarrow> kbd \<Rightarrow> (kbd, uint8) effect" where
  "kbd_inb hbase port0 r = (let port = port0 + hbase in
     if port = 0x64 then ret (kb_status r) r
     else if port = 0x60 then
       (if ndx_output r < 0 then ret 0x00 r
        else (case arr_get (buf_output r) (ndx_output r) of
            Inl e \<Rightarrow> Inl e
          | Inr v \<Rightarrow>
             (let n = ndx_output r - 1 in
              if n < 0
              then emit [Irq_Set 1 0] v
                     (r\<lparr>ndx_output := n, kb_status := kb_status r AND NOT 1\<rparr>)
              else emit [Irq_Set 1 0, Irq_Set 1 1] v (r\<lparr>ndx_output := n\<rparr>))))
     else assert_failed)"

definition kbd_inw :: "uint16 \<Rightarrow> kbd \<Rightarrow> (kbd, uint16) effect" where
  "kbd_inw port r = assert_failed"

definition kbd_inl :: "uint16 \<Rightarrow> kbd \<Rightarrow> (kbd, uint32) effect" where
  "kbd_inl port r = assert_failed"

definition kbd_outb :: "uint16 \<Rightarrow> uint16 \<Rightarrow> uint8 \<Rightarrow> kbd \<Rightarrow> (kbd, unit) effect" where
  "kbd_outb hbase port0 val r = (let port = port0 + hbase in
     if port = 0x64 then handle_command val r
     else if port = 0x60 \<and> cmdparams_left r > 0 then
       (case arr_set (cmdparams r) (cmdparams_left r - 1) val of
          Inl e \<Rightarrow> Inl e
        | Inr ps \<Rightarrow>
           (let r' = r\<lparr>cmdparams := ps, cmdparams_left := cmdparams_left r - 1\<rparr> in
            if cmdparams_left r' \<le> 0
            then handle_command_withparams (cmdparams_cmd r') (cmdparams r') r'
            else ret () r'))
     else if port = 0x60 \<and> kbdparams_left r > 0 then
       (case arr_set (kbdparams r) (kbdparams_left r - 1) val of
          Inl e \<Rightarrow> Inl e
        | Inr ps \<Rightarrow>
           (let r' = r\<lparr>kbdparams := ps, kbdparams_left := kbdparams_left r - 1\<rparr> in
            if kbdparams_left r' \<le> 0
            then handle_kbd_command_withparams (kbdparams_cmd r') (kbdparams r') r'
            else ret () r'))
     else if port = 0x60 then handle_kbd_command val r
     else assert_failed)"

definition kbd_outw :: "uint16 \<Rightarrow> uint16 \<Rightarrow> kbd \<Rightarrow> (kbd, unit) effect" where
  "kbd_outw port val r = assert_failed"

definition kbd_outl :: "uint16 \<Rightarrow> uint32 \<Rightarrow> kbd \<Rightarrow> (kbd, unit) effect" where
  "kbd_outl port val r = assert_failed"

definition kbd_timer2_set :: "bool \<Rightarrow> kbd \<Rightarrow> kbd" where
  "kbd_timer2_set bState r =
     r\<lparr>kb_control := kb_control r OR push_bit 5 (if bState then 1 else 0)\<rparr>"

definition kbd_hdl :: "kbd io_handler" where
  "kbd_hdl = \<lparr> base = 0x0060, io_mask = 0xFFF8,
     inb = Some (kbd_inb 0x0060), inw = Some kbd_inw, inl = Some kbd_inl,
     outb = Some (kbd_outb 0x0060), outw = Some kbd_outw, outl = Some kbd_outl \<rparr>"

text \<open>
  \<^verbatim>\<open>memset(&regs,0,sizeof(regs))\<close>. \<^verbatim>\<open>x86_keyboard_init\<close> sets the status register to
  \<^verbatim>\<open>0x14\<close> first, and then clears all the registers.
\<close>

definition kbd_zero :: kbd where
  "kbd_zero = \<lparr> kb_status = 0, command_byte = 0, buf_output = replicate 8 0, ndx_output = 0,
     cmdparams = replicate 8 0, cmdparams_left = 0, cmdparams_cmd = 0,
     kbdparams = replicate 8 0, kbdparams_left = 0, kbdparams_cmd = 0, kb_control = 0 \<rparr>"

definition x86_keyboard_init :: "kbd \<Rightarrow> kbd" where
  "x86_keyboard_init r0 = 
     (let r1 = r0\<lparr>kb_status := 0x14\<rparr>; r2 = kbd_zero in r2)"

lemmas kbd_defs [dev_defs] =
  kbd_inject_def handle_command_withparams_def handle_command_def kbd_ack_def
  handle_kbd_command_withparams_def handle_kbd_command_def reply_byte_def expect_cmdparam_def
  kbd_inb_def kbd_inw_def kbd_inl_def kbd_outb_def kbd_outw_def kbd_outl_def Let_def

subsection \<open>The invariant\<close>

text \<open>
  The arrays keep their size, at most one parameter is awaited, and the output index
  stays in the two bytes the code ever fills. A full output buffer flag means there is a
  byte to read; a second byte means the flag is set.
\<close>

definition kbd_wf :: "kbd \<Rightarrow> bool" where
  [wf_simps]: "kbd_wf r \<longleftrightarrow>
     length (buf_output r) = 8 \<and> length (cmdparams r) = 8 \<and> length (kbdparams r) = 8 \<and>
     -1 \<le> ndx_output r \<and> ndx_output r \<le> 1 \<and>
     cmdparams_left r \<in> {0, 1} \<and> kbdparams_left r \<in> {0, 1} \<and>
     (bit (kb_status r) 0 \<longrightarrow> 0 \<le> ndx_output r) \<and>
     (ndx_output r = 1 \<longrightarrow> bit (kb_status r) 0)"

lemma kbd_wf_zero: "kbd_wf kbd_zero"
  by (simp add: kbd_wf_def kbd_zero_def)

lemma kbd_wf_inject: "kbd_wf r \<Longrightarrow> kbd_inject sc b r = Inr (u, r', es) \<Longrightarrow> kbd_wf r'"
  by (auto simp: kbd_wf_def kbd_defs bit_or_iff)

lemma arr_get_Inr: "arr_get xs i = Inr v \<longleftrightarrow> 0 \<le> i \<and> i < int (length xs) \<and> v = xs ! nat i"
  by (auto simp: arr_get_def)

lemma arr_set_Inr:
  "arr_set xs i v = Inr ys \<longleftrightarrow> 0 \<le> i \<and> i < int (length xs) \<and> ys = xs[nat i := v]"
  by (auto simp: arr_set_def)

lemma handle_command_wf:
  "kbd_wf r \<Longrightarrow> handle_command v r = Inr (u, r', es) \<Longrightarrow> kbd_wf r'"
  by (auto simp: kbd_wf_def kbd_defs bit_or_iff split: if_splits)

lemma handle_command_withparams_wf:
  "kbd_wf r \<Longrightarrow> handle_command_withparams c ps r = Inr (u, r', es) \<Longrightarrow> kbd_wf r'"
  by (auto simp: kbd_wf_def kbd_defs split: if_splits)

lemma handle_kbd_command_wf:
  "kbd_wf r \<Longrightarrow> handle_kbd_command v r = Inr (u, r', es) \<Longrightarrow> kbd_wf r'"
  by (auto simp: kbd_wf_def kbd_defs split: if_splits)

lemma handle_kbd_command_withparams_wf:
  "kbd_wf r \<Longrightarrow> handle_kbd_command_withparams c ps r = Inr (u, r', es) \<Longrightarrow> kbd_wf r'"
  by (auto simp: kbd_wf_def kbd_defs split: if_splits)

lemma kbd_inb_wf: "kbd_wf r \<Longrightarrow> kbd_inb b p r = Inr (v, r', es) \<Longrightarrow> kbd_wf r'"
  by (auto simp: kbd_wf_def kbd_inb_def Let_def bit_and_iff bit_not_iff arr_get_Inr
      split: if_splits sum.splits)

lemma kbd_outb_wf: "kbd_wf r \<Longrightarrow> kbd_outb b p v r = Inr (u, r', es) \<Longrightarrow> kbd_wf r'"
  unfolding kbd_outb_def Let_def
  by (auto simp: arr_set_Inr split: if_splits sum.splits
      dest!: handle_command_wf [rotated] handle_kbd_command_wf [rotated]
        handle_command_withparams_wf [rotated] handle_kbd_command_withparams_wf [rotated])
     (auto simp: kbd_wf_def)

interpretation kbd: port_device kbd_hdl kbd_wf
  by unfold_locales
     (auto simp: kbd_hdl_def kbd_inw_def kbd_inl_def kbd_outw_def kbd_outl_def
       dest: kbd_inb_wf kbd_outb_wf)

subsection \<open>Reachable states\<close>

text \<open>
  The states of the controller after initialisation, any accesses of the guest that
  return, and any key presses of the viewer, with the interrupt requests made so far.
\<close>

inductive kbd_reach :: "kbd \<Rightarrow> event list \<Rightarrow> bool" where
  kbd_start: "kbd_reach (x86_keyboard_init r0) []"
| kbd_access: "kbd_reach r es \<Longrightarrow> handler_access kbd_hdl a r = Inr (v, r', es') \<Longrightarrow>
     kbd_reach r' (es @ es')"
| kbd_key: "kbd_reach r es \<Longrightarrow> kbd_inject sc b r = Inr (u, r', es') \<Longrightarrow>
     kbd_reach r' (es @ es')"

lemma kbd_reach_wf: "kbd_reach r es \<Longrightarrow> kbd_wf r"
  by (induction rule: kbd_reach.induct)
     (auto simp: x86_keyboard_init_def kbd_wf_zero intro: kbd.access_inv kbd_wf_inject)

text \<open>One access keeps the agreement of the interrupt line with the status register.\<close>

lemma kbd_access_line:
  assumes wf: "kbd_wf r" and line: "l \<Longrightarrow> bit (kb_status r) 0"
    and acc: "handler_access kbd_hdl a r = Inr (v, r', es)" and l': "irq_level 1 l es"
  shows "bit (kb_status r') 0"
proof (cases a)
  case (In8 p)
  with acc l' wf line show ?thesis
    by (auto simp: kbd_hdl_def widen_Inr kbd_inb_def Let_def kbd_wf_def arr_get_Inr
        split: if_splits sum.splits)
next
  case (Out8 p w)
  with acc have out: "kbd_outb 0x60 (p - 0x60) w r = Inr ((), r', es)"
    by (simp add: kbd_hdl_def silent_Inr)
  then have "es = []"
    by (auto simp: kbd_defs split: if_splits sum.splits)
  with l' line have "bit (kb_status r) 0" by simp
  with out show ?thesis
    by (auto simp: kbd_defs bit_or_iff split: if_splits sum.splits)
qed (use acc in \<open>auto simp: kbd_hdl_def kbd_defs\<close>)

text \<open>
  The interrupt line follows the output buffer. In every reachable state in which the
  keyboard interrupt (line 1) is asserted, the output-buffer-full bit of the status
  register is set, and in every reachable state in which that bit is set there is a byte
  to read.
\<close>

lemma kbd_irq_implies_output:
  assumes "kbd_reach r es"
  shows "(irq_level 1 False es \<longrightarrow> bit (kb_status r) 0) \<and>
         (bit (kb_status r) 0 \<longrightarrow> 0 \<le> ndx_output r)"
  using assms
proof (induction rule: kbd_reach.induct)
  case (kbd_start r0)
  then show ?case by (simp add: x86_keyboard_init_def kbd_zero_def)
next
  case (kbd_access r es a v r' es')
  have "kbd_wf r'" using kbd_reach_wf kbd.access_inv kbd_access.hyps by blast
  with kbd_access show ?case
    using kbd_access_line [OF kbd_reach_wf [OF kbd_access.hyps(1)] _ kbd_access.hyps(2)]
    by (auto simp: kbd_wf_def)
next
  case (kbd_key r es sc b u r' es')
  then show ?case by (auto simp: kbd_inject_def bit_or_iff)
qed

subsection \<open>What the guest sees\<close>

text \<open>
  C27: a key injected by the viewer is what the guest reads next from the data port (with
  the release bit when it was released), whatever was in the output buffer before. The
  press raises the interrupt line; the read lowers it, empties the buffer and clears the
  output-buffer-full bit.
\<close>

theorem kbd_inject_then_read:
  assumes "kbd_wf r"
  shows "ebind (kbd_inject sc pressed r) (\<lambda>_ r1. handler_run kbd_hdl [In8 0x64, In8 0x60, In8 0x64] r1)
    = emit [Irq_Set 1 1, Irq_Set 1 0]
        [ucast (kb_status r OR 1), ucast (if pressed then sc else sc OR 0x80),
         ucast (kb_status r AND NOT 1)]
        (r\<lparr>buf_output := (buf_output r)[0 := if pressed then sc else sc OR 0x80],
           ndx_output := -1, kb_status := kb_status r AND NOT 1\<rparr>)"
proof -
  have "(kb_status r OR 1) AND NOT 1 = kb_status r AND NOT 1"
    by (rule bit_word_eqI) (auto simp: bit_or_iff bit_and_iff bit_not_iff bit_1_iff)
  then have st: "(kb_status r OR 1) AND - 2 = kb_status r AND - 2" by simp
  from assms show ?thesis
    by (simp add: kbd_inject_def ebind_emit kbd_hdl_def kbd_inb_def Let_def arr_get_def
        kbd_wf_def st)
qed

theorem kbd_inject_then_read_witness:
  "\<exists>r'. ebind (kbd_inject 0x1E False kbd_zero)
      (\<lambda>_ r1. handler_run kbd_hdl [In8 0x64, In8 0x60, In8 0x64] r1)
    = emit [Irq_Set 1 1, Irq_Set 1 0] [1, 0x9E, 0] r'"
  using kbd_inject_then_read [OF kbd_wf_zero, of "0x1E" False] by (simp add: kbd_zero_def)

text \<open>
  The command byte written with controller command \<open>0x60\<close> is the byte that command
  \<open>0x20\<close> delivers, and it is kept.
\<close>

theorem kbd_command_byte_roundtrip:
  assumes "kbd_wf r"
  shows "\<exists>r' es. handler_run kbd_hdl
      [Out8 0x64 0x60, Out8 0x60 v, Out8 0x64 0x20, In8 0x60] r
        = emit es [0, 0, 0, ucast v] r' \<and> command_byte r' = v"
  using assms
  by (auto simp: kbd_hdl_def kbd_defs ebind_emit arr_get_def arr_set_def kbd_wf_def)

theorem kbd_command_byte_roundtrip_witness:
  "\<exists>r' es. handler_run kbd_hdl [Out8 0x64 0x60, Out8 0x60 0x45, Out8 0x64 0x20, In8 0x60] kbd_zero
     = emit es [0, 0, 0, 0x45] r' \<and> command_byte r' = 0x45"
  using kbd_command_byte_roundtrip [OF kbd_wf_zero, of "0x45"] by simp

text \<open>
  After command \<open>0x20\<close> (read command byte) the controller takes the next byte written
  to the data port, whatever it is, for a parameter of that command, and the emulator
  aborts on it: the \<^verbatim>\<open>case 0x20\<close> of the switch falls into \<^verbatim>\<open>case 0x60\<close>.
\<close>

theorem kbd_read_command_byte_trap:
  assumes "kbd_wf r"
  shows "handler_run kbd_hdl [Out8 0x64 0x20, In8 0x60, Out8 0x60 v] r = Inl Assert_Failed"
  using assms
  by (auto simp: kbd_hdl_def kbd_defs ebind_emit arr_get_def arr_set_def kbd_wf_def)

theorem kbd_read_command_byte_trap_witness:
  "handler_run kbd_hdl [Out8 0x64 0x20, In8 0x60, Out8 0x60 0xFF] kbd_zero = Inl Assert_Failed"
  using kbd_read_command_byte_trap [OF kbd_wf_zero, of "0xFF"] by simp

text \<open>
  The keyboard reset command, sent while no parameter is awaited, is answered by
  exactly two bytes, acknowledge then self-test passed, with the output-buffer-full bit
  set until the second one is read, and the interrupt line raised once between the two.
\<close>

theorem kbd_reset_sequence:
  assumes "kbd_wf r" and "cmdparams_left r = 0" and "kbdparams_left r = 0"
  shows "\<exists>r'. handler_run kbd_hdl
      [Out8 0x60 0xFF, In8 0x64, In8 0x60, In8 0x64, In8 0x60, In8 0x64] r
        = emit [Irq_Set 1 0, Irq_Set 1 1, Irq_Set 1 0] [0, 1, 0xFA, 1, 0xAA, 0] r'
      \<and> ndx_output r' = -1"
  using assms
  by (auto simp: kbd_hdl_def kbd_defs ebind_emit arr_get_def arr_set_def kbd_wf_def)

theorem kbd_reset_sequence_witness:
  "\<exists>r'. handler_run kbd_hdl [Out8 0x60 0xFF, In8 0x64, In8 0x60, In8 0x64, In8 0x60, In8 0x64] kbd_zero
     = emit [Irq_Set 1 0, Irq_Set 1 1, Irq_Set 1 0] [0, 1, 0xFA, 1, 0xAA, 0] r' \<and> ndx_output r' = -1"
  using kbd_reset_sequence [OF kbd_wf_zero] by (simp add: kbd_zero_def)

end
