(* ===== verification/Cmos.thy ===== *)
theory Cmos
  imports Io_Bus
begin

text \<open>
  The CMOS memory and real-time clock, \<^verbatim>\<open>cmos.c\<close>. The host's \<^verbatim>\<open>localtime()\<close> is outside the
  program: the broken-down time it would return is a field of the state
  (\<open>wall\<close>) that only the environment changes. The size of the guest's memory is
  \<^verbatim>\<open>pSystemCtx->ramsize\<close>.
\<close>

record tm =
  tm_sec :: int
  tm_min :: int
  tm_hour :: int
  tm_mday :: int
  tm_mon :: int
  tm_year :: int

record cmos =
  indexreg :: uint8
  resetcode :: uint8
  rtc_divider :: int
  rtc_rate :: int
  statusB :: uint8
  statusC :: uint8
  statusD :: uint8
  ramsize :: uint64
  wall :: tm

definition DEC2BCD :: "uint8 \<Rightarrow> uint8" where
  "DEC2BCD x = push_bit 4 (x div 10) OR (x mod 10)"

definition BS_STATUSB_BCDBIN :: nat where "BS_STATUSB_BCDBIN = 2"
definition BS_STATUSB_24H :: nat where "BS_STATUSB_24H = 1"

definition bin2bcd :: "cmos \<Rightarrow> uint8 \<Rightarrow> uint8" where
  "bin2bcd c val = (if bit (statusB c) BS_STATUSB_BCDBIN then val else DEC2BCD val)"

text \<open>Assigning a C \<open>int\<close> to the \<^verbatim>\<open>uint8\<close> variable \<^verbatim>\<open>ret\<close> keeps the low byte.\<close>

definition rtc_hours :: "cmos \<Rightarrow> uint8" where
  "rtc_hours c = (let r = word_of_int (tm_hour (wall c)) in
     if \<not> bit (statusB c) BS_STATUSB_24H \<and> r > 12
     then 0x80 OR bin2bcd c (r - 12) else bin2bcd c r)"

definition rtc_year :: "cmos \<Rightarrow> uint8" where
  "rtc_year c = (let r = word_of_int (tm_year (wall c)) :: uint8 in
     bin2bcd c (if r \<ge> 100 then r - 100 else r))"

definition rtc_century :: "cmos \<Rightarrow> uint8" where
  "rtc_century c = (let r = word_of_int (tm_year (wall c)) :: uint8 in
     bin2bcd c (if r \<ge> 100 then 1 else 0))"

text \<open>The two sizes computed from \<^verbatim>\<open>ramsize\<close>, in the code's 64-bit arithmetic.\<close>

definition ext_mem :: "cmos \<Rightarrow> uint64" where
  "ext_mem c = (if ramsize c > 0xE0000000 then 0xE0000000 else ramsize c) - 1024 * 1024 * 16"

definition high_mem :: "cmos \<Rightarrow> uint64" where
  "high_mem c =
     (if ramsize c \<le> 0xE0000000 then 0 else ramsize c - 0xE0000000 - 0x100000)"

definition low_byte :: "uint64 \<Rightarrow> uint8" where
  "low_byte x = ucast x"

definition cmos_inb :: "uint16 \<Rightarrow> cmos \<Rightarrow> (cmos, uint8) effect" where
  "cmos_inb port c =
     (let i = indexreg c; t = wall c in
      if port = 0x70 then ret (indexreg c) c
      else if i = 0x00 then ret (bin2bcd c (word_of_int (tm_sec t))) c
      else if i = 0x01 then ret 0xFF c
      else if i = 0x03 then ret 0xFF c
      else if i = 0x05 then ret 0xFF c
      else if i = 0x02 then ret (bin2bcd c (word_of_int (tm_min t))) c
      else if i = 0x04 then ret (rtc_hours c) c
      else if i = 0x07 then ret (bin2bcd c (word_of_int (tm_mday t))) c
      else if i = 0x08 then ret (bin2bcd c (word_of_int (tm_mon t + 1))) c
      else if i = 0x09 then ret (rtc_year c) c
      else if i = 0x0A then
        ret (6 OR push_bit 5 1) (c\<lparr>rtc_divider := 32768, rtc_rate := 1024\<rparr>)
      else if i = 0x0B then ret (statusB c) c
      else if i = 0x0C then ret (statusC c) c
      else if i = 0x0D then ret (statusD c) c
      else if i = 0x0F then ret (resetcode c) c
      else if i = 0x10 then ret (push_bit 4 4) c
      else if i = 0x12 then ret 0xF0 c
      else if i = 0x13 then ret 0x00 c
      else if i = 0x17 then ret 0xFF c
      else if i = 0x18 then ret 0xFF c
      else if i = 0x32 then ret (rtc_century c) c
      else if i = 0x30 then ret (low_byte (drop_bit 10 (ext_mem c))) c
      else if i = 0x31 then ret (low_byte (drop_bit 18 (ext_mem c))) c
      else if i = 0x34 then ret (low_byte (drop_bit 16 (ext_mem c) AND 0xFF)) c
      else if i = 0x35 then ret (low_byte (drop_bit 24 (ext_mem c) AND 0xFF)) c
      else if i = 0x38 then ret 1 c
      else if i = 0x39 then ret 1 c
      else if i = 0x3D then ret 2 c
      else if i = 0x5B then ret (low_byte (drop_bit 16 (high_mem c) AND 0xFF)) c
      else if i = 0x5C then ret (low_byte (drop_bit 24 (high_mem c) AND 0xFF)) c
      else if i = 0x5D then ret (low_byte (drop_bit 32 (high_mem c) AND 0xFF)) c
      else if i = 0x5F then ret 0 c
      else assert_failed)"

definition cmos_outb :: "uint16 \<Rightarrow> uint8 \<Rightarrow> cmos \<Rightarrow> (cmos, unit) effect" where
  "cmos_outb port val c =
     (if port = 0x00 then ret () (c\<lparr>indexreg := val AND NOT 0x80\<rparr>)
      else if indexreg c = 0x0A then
        (if val AND 0x0F = 0x06 then
           (if val AND 0x70 = 0x20 then ret () (c\<lparr>rtc_rate := 1024, rtc_divider := 32768\<rparr>)
            else assert_failed)
         else assert_failed)
      else if indexreg c = 0x0B then ret () (c\<lparr>statusC := val\<rparr>)
      else if indexreg c = 0x0F then ret () (c\<lparr>resetcode := val\<rparr>)
      else if indexreg c \<in> {0x00, 0x02, 0x04, 0x07, 0x08, 0x09, 0x17, 0x32} then ret () c
      else assert_failed)"

definition cmos_hdl :: "cmos io_handler" where
  "cmos_hdl = \<lparr> base = 0x70, io_mask = 0xFE,
     inb = Some cmos_inb, inw = None, inl = None,
     outb = Some cmos_outb, outw = None, outl = None \<rparr>"

text \<open>
  The state \<^verbatim>\<open>x86_cmos_init\<close> sets up, for a system with \<open>ram\<close> bytes of memory and a host
  clock at \<open>t\<close>. The handler it registers is then mapped onto itself
  (\<^verbatim>\<open>io_remap_handler(h,&hdl)\<close>), which would fault on the NULL of a full table.
\<close>

definition cmos_start :: "uint64 \<Rightarrow> tm \<Rightarrow> cmos" where
  "cmos_start ram t = \<lparr> indexreg = 0, resetcode = 0, rtc_divider = 32768, rtc_rate = 1024,
     statusB = 0, statusC = 0, statusD = push_bit 7 1, ramsize = ram, wall = t \<rparr>"

definition x86_cmos_init :: "'s io_handler \<Rightarrow> 's io_table \<Rightarrow> fault + 's io_table" where
  "x86_cmos_init hdl tbl =
     (let (h, tbl') = io_register_handler hdl tbl in io_remap_handler h hdl tbl')"

lemmas cmos_defs [dev_defs] = cmos_inb_def cmos_outb_def Let_def

lemma x86_cmos_init_eq:
  assumes "length tbl < MAX_HANDLERS - 1"
  shows "x86_cmos_init hdl tbl = Inr (tbl @ [hdl])"
  using assms by (simp add: x86_cmos_init_def io_register_handler_def io_remap_handler_def)

subsection \<open>The invariant\<close>

text \<open>
  The index register never holds the NMI bit; the clock stays in the only divider and
  rate supported; status B keeps its reset value, since no access writes it.
\<close>

definition cmos_wf :: "uint64 \<Rightarrow> cmos \<Rightarrow> bool" where
  [wf_simps]: "cmos_wf ram c \<longleftrightarrow>
     \<not> bit (indexreg c) 7 \<and> rtc_divider c = 32768 \<and> rtc_rate c = 1024 \<and>
     statusB c = 0 \<and> statusD c = 0x80 \<and> ramsize c = ram"

lemma cmos_wf_start: "cmos_wf ram (cmos_start ram t)"
  by (simp add: cmos_wf_def cmos_start_def)

lemma cmos_inb_wf: "cmos_wf ram c \<Longrightarrow> cmos_inb p c = Inr (v, c', es) \<Longrightarrow> cmos_wf ram c'"
  by (auto simp: cmos_inb_def cmos_wf_def Let_def split: if_splits)

lemma not_bit_7_mask: "\<not> bit (v AND NOT 0x80 :: uint8) 7"
  by (simp add: bit_and_iff bit_not_iff)

lemma cmos_outb_wf: "cmos_wf ram c \<Longrightarrow> cmos_outb p v c = Inr (u, c', es) \<Longrightarrow> cmos_wf ram c'"
  using not_bit_7_mask [of v]
  by (auto simp: cmos_outb_def cmos_wf_def split: if_splits)

interpretation cmos: port_device cmos_hdl "cmos_wf ram" for ram
  by unfold_locales (auto simp: cmos_hdl_def dest: cmos_inb_wf cmos_outb_wf)

subsection \<open>The time of day as the guest reads it\<close>

text \<open>The number a byte stands for in binary-coded decimal.\<close>

definition bcd_value :: "uint32 \<Rightarrow> nat" where
  "bcd_value b = 10 * (unat b div 16) + unat b mod 16"

text \<open>Times \<^verbatim>\<open>localtime()\<close> delivers between 1900 and 2099 (with a leap second).\<close>

definition tm_ok :: "tm \<Rightarrow> bool" where
  "tm_ok t \<longleftrightarrow> 0 \<le> tm_sec t \<and> tm_sec t \<le> 60 \<and> 0 \<le> tm_min t \<and> tm_min t \<le> 59 \<and>
     0 \<le> tm_hour t \<and> tm_hour t \<le> 23 \<and> 1 \<le> tm_mday t \<and> tm_mday t \<le> 31 \<and>
     0 \<le> tm_mon t \<and> tm_mon t \<le> 11 \<and> 0 \<le> tm_year t \<and> tm_year t \<le> 199"

text \<open>What each clock register means: the abstract clock the registers present.\<close>

definition rtc_field :: "uint8 \<Rightarrow> tm \<Rightarrow> int option" where
  "rtc_field i t =
     (if i = 0x00 then Some (tm_sec t) else if i = 0x02 then Some (tm_min t)
      else if i = 0x07 then Some (tm_mday t) else if i = 0x08 then Some (tm_mon t + 1)
      else if i = 0x09 then Some (tm_year t mod 100)
      else if i = 0x32 then Some (tm_year t div 100) else None)"

lemma unat_DEC2BCD:
  assumes "n < 100"
  shows "unat (DEC2BCD (of_nat n)) = 16 * (n div 10) + n mod 10"
proof -
  have n: "unat (of_nat n :: uint8) = n"
    using assms by (simp add: unat_of_nat take_bit_nat_eq_self)
  have "n div 10 < 10" "n mod 10 < 10" using assms by auto
  then show ?thesis
    unfolding DEC2BCD_def by (subst unat_push_or) (simp_all add: unat_div unat_mod n)
qed

lemma bcd_value_DEC2BCD: 
  assumes "n < 100" shows "bcd_value (ucast (DEC2BCD (of_nat n))) = n"
proof -
  have "n div 10 < 10" "n mod 10 < 16" using assms by auto
  moreover from this have "16 * (n div 10) + n mod 10 < 2 ^ 32" by simp
  then have "unat (ucast (DEC2BCD (of_nat n)) :: uint32) = 16 * (n div 10) + n mod 10"
    using unat_DEC2BCD [OF assms] by (simp add: unsigned_ucast_eq take_bit_nat_eq_self)
  ultimately show ?thesis by (simp add: bcd_value_def)
qed

lemma bcd_value_int:
  assumes "0 \<le> k" and "k < 100"
  shows "int (bcd_value (ucast (DEC2BCD (word_of_int k)))) = k"
proof -
  obtain n where k: "k = int n" using assms(1) nonneg_int_cases by blast
  with assms(2) bcd_value_DEC2BCD [of n] show ?thesis by simp
qed

lemma rtc_year_century:
  assumes "0 \<le> y" and "y \<le> 199"
  shows "(if (word_of_int y :: uint8) \<ge> 100 then word_of_int y - 100 else word_of_int y)
           = (word_of_int (y mod 100) :: uint8)"
    and "(if (word_of_int y :: uint8) \<ge> 100 then 1 else 0) = (word_of_int (y div 100) :: uint8)"
proof -
  have le: "(word_of_int y :: uint8) \<ge> 100 \<longleftrightarrow> 100 \<le> y"
    using assms by (simp add: word_le_def uint_word_of_int)
  have "y mod 100 = y - 100 \<and> y div 100 = 1" if "100 \<le> y"
    using that assms by presburger
  moreover have "\<not> 100 \<le> y \<Longrightarrow> y mod 100 = y \<and> y div 100 = 0"
    using assms by auto
  ultimately show
    "(if (word_of_int y :: uint8) \<ge> 100 then word_of_int y - 100 else word_of_int y)
       = (word_of_int (y mod 100) :: uint8)"
    "(if (word_of_int y :: uint8) \<ge> 100 then 1 else 0) = (word_of_int (y div 100) :: uint8)"
    by (auto simp: le)
qed

lemma cmos_index_then_read:
  assumes "\<not> bit i 7"
  shows "handler_run cmos_hdl [Out8 0x70 i, In8 0x71] c =
    ebind (widen (cmos_inb 1 (c\<lparr>indexreg := i\<rparr>))) (\<lambda>v s. ret [0, v] s)"
proof -
  have "i AND NOT 0x80 = i"
  proof (rule bit_word_eqI)
    fix n assume "n < LENGTH(8)"
    moreover from this have "bit (0x80 :: uint8) n \<longleftrightarrow> n = 7"
      using bit_exp_iff [of 7 n, where 'a = "8 word"] by auto
    ultimately show "bit (i AND NOT 0x80) n = bit i n"
      using assms unfolding bit_and_iff bit_not_iff by auto
  qed
  then show ?thesis
    by (simp add: cmos_hdl_def cmos_outb_def) (simp add: ebind_def emit_def split: sum.splits)
qed

text \<open>The registers other than the hours.\<close>

lemma rtc_field_read:
  assumes "cmos_wf ram c" and "tm_ok (wall c)" and "rtc_field i (wall c) = Some n"
  shows "\<exists>b c'. handler_run cmos_hdl [Out8 0x70 i, In8 0x71] c = emit [] [0, b] c'
    \<and> int (bcd_value b) = n"
proof -
  from assms(3) have i: "i \<in> {0x00, 0x02, 0x07, 0x08, 0x09, 0x32}"
    by (auto simp: rtc_field_def split: if_splits)
  then have "\<not> bit i 7" by auto
  note run = cmos_index_then_read [OF this, of c]
  have y: "0 \<le> tm_year (wall c) div 100 \<and> tm_year (wall c) div 100 \<le> 1"
    using assms(2) by (auto simp: tm_ok_def)
  have m: "int (bcd_value (ucast (DEC2BCD (word_of_int (tm_mon (wall c)) + 1)))) = tm_mon (wall c) + 1"
    using assms(2) bcd_value_int [of "tm_mon (wall c) + 1"] by (simp add: tm_ok_def)
  from i consider "i = 0x00" | "i = 0x02" | "i = 0x07" | "i = 0x08" | "i = 0x09" | "i = 0x32"
    by blast
  then show ?thesis
    unfolding run
    by cases
       (use assms m y in \<open>simp_all add: cmos_inb_def Let_def rtc_field_def bin2bcd_def
          cmos_wf_def tm_ok_def rtc_year_def rtc_century_def rtc_year_century bcd_value_int\<close>)
qed

definition example_tm :: tm where
  "example_tm = \<lparr> tm_sec = 42, tm_min = 7, tm_hour = 12, tm_mday = 31, tm_mon = 11, tm_year = 124 \<rparr>"

text \<open>
  The hours register is always in twelve-hour form, and the form is wrong at noon and at
  midnight: hours 1 to 11 read as their number, 13 to 23 with the PM bit, but hour 12 reads
  as \<open>0x12\<close> without the PM bit (which stands for midnight) and hour 0 as \<open>0x00\<close>.
\<close>

theorem cmos_hours_twelve_hour_form:
  assumes "cmos_wf ram c" and "tm_hour (wall c) = int h" and "h < 24"
  shows "\<exists>b c'. handler_run cmos_hdl [Out8 0x70 0x04, In8 0x71] c = emit [] [0, b] c'
    \<and> (bit b 7 \<longleftrightarrow> 12 < h) \<and> bcd_value (b AND 0x7F) = (if 12 < h then h - 12 else h)"
proof -
  have table: "list_all (\<lambda>h. let r = of_nat h :: uint8;
      b = ucast (if r > 12 then 0x80 OR DEC2BCD (r - 12) else DEC2BCD r) :: uint32 in
      (bit b 7 \<longleftrightarrow> 12 < h) \<and> bcd_value (b AND 0x7F) = (if 12 < h then h - 12 else h)) [0..<24]"
    by code_simp
  have h: "(bit (ucast b :: uint32) 7 \<longleftrightarrow> 12 < h) \<and>
      bcd_value (ucast b AND 0x7F) = (if 12 < h then h - 12 else h)"
    if "b = (if (of_nat h :: uint8) > 12 then 0x80 OR DEC2BCD (of_nat h - 12) else DEC2BCD (of_nat h))"
    for b
    using table assms(3) that by (auto simp: list_all_iff Let_def)
  have "\<not> bit (0x04 :: uint8) 7" by simp
  note run = cmos_index_then_read [OF this, of c]
  show ?thesis
    unfolding run
    using assms(1,2) h
    by (auto simp: cmos_inb_def rtc_hours_def Let_def bin2bcd_def cmos_wf_def split: if_splits)
qed

theorem cmos_hours_twelve_hour_form_witness:
  "\<exists>b c'. handler_run cmos_hdl [Out8 0x70 0x04, In8 0x71] (cmos_start 0x200000000 example_tm)
     = emit [] [0, b] c' \<and> \<not> bit b 7 \<and> bcd_value (b AND 0x7F) = 12"
  using cmos_hours_twelve_hour_form [OF cmos_wf_start, of "0x200000000" example_tm 12]
  by (simp add: cmos_start_def example_tm_def)



text \<open>
  A write to status register B is lost: it lands in status register C. After writing
  any \<open>v\<close> to register \<open>0x0B\<close>, that register still reads as 0 and register \<open>0x0C\<close> reads as
  \<open>v\<close>, so a guest can select neither binary nor 24-hour mode.
\<close>

theorem cmos_status_b_write_lost:
  assumes "cmos_wf ram c"
  shows "\<exists>c'. handler_run cmos_hdl
      [Out8 0x70 0x0B, Out8 0x71 v, In8 0x71, Out8 0x70 0x0C, In8 0x71] c
        = emit [] [0, 0, 0, 0, ucast v] c'"
  using assms by (simp add: cmos_hdl_def cmos_defs cmos_wf_def)

theorem cmos_status_b_write_lost_witness:
  "\<exists>c'. handler_run cmos_hdl [Out8 0x70 0x0B, Out8 0x71 6, In8 0x71, Out8 0x70 0x0C, In8 0x71]
     (cmos_start 0x200000000 example_tm) = emit [] [0, 0, 0, 0, 6] c'"
  using cmos_status_b_write_lost [OF cmos_wf_start [of "0x200000000" example_tm], of 6] by simp

end
