(* ===== verification/Guest_Memory.thy ===== *)
theory Guest_Memory
  imports Prelude
begin

text \<open>
  The guest's memory as \<^verbatim>\<open>system.c\<close> sets it up: the slots requested from KVM
  (\<^verbatim>\<open>sys_map\<close>, \<^verbatim>\<open>load_bios\<close>, \<^verbatim>\<open>load_bios_vga\<close>, \<^verbatim>\<open>map_ram\<close>), and the two low-memory
  blocks the devices can reach by guest address (\<^verbatim>\<open>sys_getLowMem\<close>). The host addresses
  that \<^verbatim>\<open>mmap\<close> and \<^verbatim>\<open>posix_memalign\<close> return are named by the allocation they come from.
  Both are taken to succeed. The result of the \<^verbatim>\<open>ioctl\<close> in \<^verbatim>\<open>sys_map\<close> is ignored by
  every caller; the model records the requests, in order.
\<close>

subsection \<open>Memory slots\<close>

datatype host_block = Low_640K | Low_ROM | Ram_Below_4G | Ram_Above_4G | Bios_Image | Vga_Image

record mem_region =
  slot :: int
  guest_phys_addr :: uint64
  memory_size :: uint64
  userspace :: host_block

record sysmem =
  currmemslot :: int
  regions :: "mem_region list"
  sys_ramsize :: uint64

definition sysmem_zero :: sysmem where
  "sysmem_zero = \<lparr> currmemslot = 0, regions = [], sys_ramsize = 0 \<rparr>"

definition sys_map :: "uint64 \<Rightarrow> host_block \<Rightarrow> uint64 \<Rightarrow> sysmem \<Rightarrow> sysmem" where
  "sys_map daddr saddr sz m =
     (let k = currmemslot m + 1 in
      m\<lparr>currmemslot := k,
        regions := regions m @ [\<lparr> slot = k, guest_phys_addr = daddr, memory_size = sz,
                                  userspace = saddr \<rparr>]\<rparr>)"

text \<open>\<^verbatim>\<open>ram_end = (uint64)uNumMegsRAM * 1024LL * 1024LL\<close>\<close>

definition ram_end_of :: "uint32 \<Rightarrow> uint64" where
  "ram_end_of uNumMegsRAM = ucast uNumMegsRAM * 1024 * 1024"

definition map_ram :: "uint32 \<Rightarrow> sysmem \<Rightarrow> sysmem" where
  "map_ram uNumMegsRAM m0 =
     (let ram_end = ram_end_of uNumMegsRAM;
          m1 = sys_map 0x0 Low_640K 0xA0000 m0;
          m2 = sys_map 0xC0000 Low_ROM 0x20000 m1;
          m3 = (if ram_end \<le> 0xE0000000
                then sys_map 0x100000 Ram_Below_4G (ram_end - 0x100000) m2
                else sys_map 0x100000000 Ram_Above_4G (ram_end - 0xE0100000)
                       (sys_map 0x100000 Ram_Below_4G (0xE0000000 - 0x100000) m2))
      in m3\<lparr>sys_ramsize := ram_end\<rparr>)"

text \<open>The length of a file rounded up to whole pages.\<close>

definition page_round :: "nat \<Rightarrow> nat" where
  "page_round flen = (if flen mod 0x1000 \<noteq> 0 then flen div 0x1000 * 0x1000 + 0x1000 else flen)"

text \<open>A ROM file that cannot be opened is \<open>None\<close>.\<close>

definition load_bios_vga :: "uint8 list option \<Rightarrow> sysmem \<Rightarrow> fault + int \<times> sysmem" where
  "load_bios_vga rom m = (case rom of None \<Rightarrow> Inr (-1, m)
     | Some f \<Rightarrow> (if page_round (length f) \<le> 0x20000
         then Inr (0, sys_map 0xC0000 Vga_Image 0x20000 m) else Inl Assert_Failed))"

definition load_bios ::
    "uint8 list option \<Rightarrow> uint8 list option \<Rightarrow> sysmem \<Rightarrow> fault + int \<times> sysmem" where
  "load_bios seabios vgabios m = (case seabios of None \<Rightarrow> Inr (-1, m)
     | Some f \<Rightarrow> (if page_round (length f) \<le> 0x20000
         then rbind (load_bios_vga vgabios
                (sys_map 0xfffe0000 Bios_Image 0x20000 (sys_map 0xe0000 Bios_Image 0x20000 m)))
              (\<lambda>(r, m'). Inr (0, m'))
         else Inl Assert_Failed))"

text \<open>The memory part of \<^verbatim>\<open>sys_create\<close>: the BIOS images, then the RAM.\<close>

definition create_memory :: "uint8 list option \<Rightarrow> uint8 list option \<Rightarrow> uint32
    \<Rightarrow> fault + sysmem option" where
  "create_memory seabios vgabios megs =
     rbind (load_bios seabios vgabios sysmem_zero)
       (\<lambda>(r, m). Inr (if r \<noteq> 0 then None else Some (map_ram megs m)))"

subsection \<open>Guest-physical layout\<close>

definition region_start :: "mem_region \<Rightarrow> nat" where
  "region_start r = unat (guest_phys_addr r)"

definition region_end :: "mem_region \<Rightarrow> nat" where
  "region_end r = unat (guest_phys_addr r) + unat (memory_size r)"

definition guest_intervals :: "sysmem \<Rightarrow> (nat \<times> nat) list" where
  "guest_intervals m = map (\<lambda>r. (region_start r, region_end r)) (regions m)"

text \<open>The pairs of positions, first before second, whose guest-physical ranges meet.\<close>

definition overlapping_pairs :: "(nat \<times> nat) list \<Rightarrow> (nat \<times> nat) list" where
  "overlapping_pairs rs =
     [(i, j). i \<leftarrow> [0..<length rs], j \<leftarrow> [Suc i..<length rs],
        fst (rs ! i) < snd (rs ! j) \<and> fst (rs ! j) < snd (rs ! i)]"

lemma unat_ram_end: "unat (ram_end_of megs) = unat megs * 1048576"
proof -
  have m: "unat megs < 2 ^ 32" using unsigned_less [of megs] by simp
  have "ram_end_of megs = of_nat (unat megs * 1048576)"
    by (simp add: ram_end_of_def)
  moreover have "unat (of_nat (unat megs * 1048576) :: uint64) = unat megs * 1048576"
    unfolding unat_of_nat by (rule mod_less) (use m in simp)
  ultimately show ?thesis by (simp only:)
qed

lemma ram_end_sub:
  assumes "unat k \<le> unat megs * 1048576"
  shows "unat (ram_end_of megs - k) = unat megs * 1048576 - unat k"
  using assms by (subst unat_sub) (simp_all add: word_le_nat_alt unat_ram_end)

lemma ram_end_le: "ram_end_of megs \<le> 0xE0000000 \<longleftrightarrow> unat megs \<le> 3584"
  by (simp add: word_le_nat_alt unat_ram_end)

text \<open>The sizes of the two RAM slots, as the program of \<^verbatim>\<open>main.c\<close> and any other size give them.\<close>

definition ram_slots :: "uint32 \<Rightarrow> (nat \<times> nat) list" where
  "ram_slots megs =
     (if unat megs \<le> 3584 then [(0x100000, unat megs * 1048576)]
      else [(0x100000, 0xE0000000), (0x100000000, 0x100000000 + (unat megs - 3585) * 1048576)])"

lemma page_round_le: "n \<le> 0x20000 \<Longrightarrow> page_round n \<le> 0x20000"
proof -
  assume n: "n \<le> 0x20000"
  show ?thesis
  proof (cases "n mod 0x1000 = 0")
    case False
    then have "n < 32 * 0x1000" using n by (cases "n = 0x20000") auto
    then have "n div 0x1000 < 32" by (rule less_mult_imp_div_less)
    then have "n div 0x1000 * 0x1000 \<le> 31 * 0x1000" by (intro mult_right_mono) simp_all
    then show ?thesis using n by (simp add: page_round_def)
  qed (use n in \<open>simp add: page_round_def\<close>)
qed

lemma create_memory_layout:
  assumes "length f \<le> 0x20000" and "length g \<le> 0x20000" and "1 \<le> unat megs"
  shows "\<exists>m. create_memory (Some f) (Some g) megs = Inr (Some m) \<and>
     guest_intervals m =
       [(0xE0000, 0x100000), (0xFFFE0000, 0x100000000), (0xC0000, 0xE0000),
        (0, 0xA0000), (0xC0000, 0xE0000)] @ ram_slots megs \<and>
     map slot (regions m) = [1..int (length (regions m))] \<and>
     sys_ramsize m = ram_end_of megs"
proof -
  have pr: "page_round (length f) \<le> 0x20000" "page_round (length g) \<le> 0x20000"
    using assms(1,2) by (simp_all add: page_round_le)
  have iv: "[1..(6::int)] = [1,2,3,4,5,6]" "[1..(7::int)] = [1,2,3,4,5,6,7]"
    by (simp_all add: upto_rec1)
  show ?thesis
  proof (cases "unat megs \<le> 3584")
    case True
    then have "unat (ram_end_of megs - 0x100000) = unat megs * 1048576 - 0x100000"
      using assms(3) by (subst ram_end_sub) simp_all
    with True assms(3) show ?thesis
      by (simp add: create_memory_def load_bios_def load_bios_vga_def pr map_ram_def ram_end_le
          sys_map_def Let_def sysmem_zero_def region_start_def region_end_def ram_slots_def iv guest_intervals_def)
  next
    case False
    then have "unat (ram_end_of megs - 0xE0100000) = unat megs * 1048576 - 0xE0100000"
      by (subst ram_end_sub) simp_all
    with False show ?thesis
      by (simp add: create_memory_def load_bios_def load_bios_vga_def pr map_ram_def ram_end_le
          sys_map_def Let_def sysmem_zero_def region_start_def region_end_def ram_slots_def iv guest_intervals_def)
  qed
qed

subsection \<open>Low memory by guest address\<close>

text \<open>
  The contents of the two blocks behind \<^verbatim>\<open>phys_lowmem[0]\<close> and \<^verbatim>\<open>phys_lowmem[1]\<close>. A host
  pointer into them is the block and an offset, which may lie outside the block: it is
  the access through it that faults.
\<close>

record lowmem =
  low0 :: "uint8 list"
  low1 :: "uint8 list"

datatype low_ptr = Low0 nat | Low1 nat

definition lowmem_wf :: "lowmem \<Rightarrow> bool" where
  [wf_simps]: "lowmem_wf m \<longleftrightarrow> length (low0 m) = 0xA0000 \<and> length (low1 m) = 0x20000"

definition sys_getLowMem :: "uint32 \<Rightarrow> fault + low_ptr" where
  "sys_getLowMem addr =
     (if addr < 0xA0000 then Inr (Low0 (unat addr))
      else if addr \<le> 0xFFFFF then Inr (Low1 (unat (addr - 0xC0000)))
      else Inl Assert_Failed)"

fun low_store :: "low_ptr \<Rightarrow> uint8 list \<Rightarrow> lowmem \<Rightarrow> fault + lowmem" where
  "low_store (Low0 off) bs m =
     rbind (wr_bytes (low0 m) (int off) bs) (\<lambda>xs. Inr (m\<lparr>low0 := xs\<rparr>))"
| "low_store (Low1 off) bs m =
     rbind (wr_bytes (low1 m) (int off) bs) (\<lambda>xs. Inr (m\<lparr>low1 := xs\<rparr>))"

lemma low_store_wf: "lowmem_wf m \<Longrightarrow> low_store p bs m = Inr m' \<Longrightarrow> lowmem_wf m'"
  by (cases p) (auto simp: lowmem_wf_def rbind_Inr dest: wr_bytes_length)

definition ptr_valid :: "low_ptr \<Rightarrow> bool" where
  "ptr_valid p = (case p of Low0 off \<Rightarrow> off < 0xA0000 | Low1 off \<Rightarrow> off < 0x20000)"

lemma getLowMem_cases:
  "sys_getLowMem a = (if unat a < 0xA0000 then Inr (Low0 (unat a))
     else if unat a \<le> 0xFFFFF then
       Inr (Low1 (if 0xC0000 \<le> unat a then unat a - 0xC0000 else unat a + 0x100000000 - 0xC0000))
     else Inl Assert_Failed)"
proof -
  have "unat (a - 0xC0000) =
      (if 0xC0000 \<le> unat a then unat a - 0xC0000 else unat a + 0x100000000 - 0xC0000)"
    by (simp add: unat_sub_if_size word_size)
  then show ?thesis
    by (simp add: sys_getLowMem_def word_less_nat_alt word_le_nat_alt)
qed

text \<open>
  The memory slots requested at start-up overlap in exactly one place: with both ROM
  images present and any amount of RAM from 1 MB up, the slot of the VGA BIOS image and the
  slot backing \<open>phys_lowmem[1]\<close> both claim guest addresses \<open>0xC0000\<close> to \<open>0xDFFFF\<close>; all other
  pairs of slots are disjoint. The slots are numbered from 1 in request order, and the RAM
  slots cover what \<open>ram_slots\<close> says.
\<close>

theorem memory_slots_overlap_once:
  assumes "length f \<le> 0x20000" and "length g \<le> 0x20000" and "1 \<le> unat megs"
  shows "\<exists>m. create_memory (Some f) (Some g) megs = Inr (Some m) \<and>
     map slot (regions m) = [1..int (length (regions m))] \<and>
     drop 5 (guest_intervals m) = ram_slots megs \<and>
     overlapping_pairs (guest_intervals m) = [(2, 4)]"
proof -
  obtain m where m: "create_memory (Some f) (Some g) megs = Inr (Some m)"
    "guest_intervals m = [(0xE0000, 0x100000), (0xFFFE0000, 0x100000000), (0xC0000, 0xE0000),
        (0, 0xA0000), (0xC0000, 0xE0000)] @ ram_slots megs"
    "map slot (regions m) = [1..int (length (regions m))]"
    using create_memory_layout [OF assms] by blast
  have "overlapping_pairs (guest_intervals m) = [(2, 4)]"
    unfolding m(2)
    by (cases "unat megs \<le> 3584")
       (simp_all add: ram_slots_def overlapping_pairs_def upt_rec)
  with m show ?thesis by simp
qed

theorem memory_slots_overlap_once_witness:
  "\<exists>m. create_memory (Some []) (Some []) 8192 = Inr (Some m) \<and>
     overlapping_pairs (guest_intervals m) = [(2, 4)]"
  using memory_slots_overlap_once [of "[]" "[]" 8192] by auto

text \<open>
  C24: the pointer \<open>sys_getLowMem\<close> returns lies inside its block exactly for the first 640 KB
  and for \<open>0xC0000\<close> to \<open>0xDFFFF\<close>. It aborts exactly from 1 MB up; for the VGA window
  (\<open>0xA0000\<close> to \<open>0xBFFFF\<close>) and the system BIOS (\<open>0xE0000\<close> to \<open>0xFFFFF\<close>) it returns a pointer
  outside the block it points into.
\<close>

theorem getLowMem_valid_iff:
  "((\<exists>p. sys_getLowMem a = Inr p \<and> ptr_valid p) \<longleftrightarrow>
      unat a \<in> {0..<0xA0000} \<union> {0xC0000..<0xE0000}) \<and>
   (sys_getLowMem a = Inl Assert_Failed \<longleftrightarrow> unat a \<ge> 0x100000) \<and>
   ((\<exists>p. sys_getLowMem a = Inr p \<and> \<not> ptr_valid p) \<longleftrightarrow>
      unat a \<in> {0xA0000..<0xC0000} \<union> {0xE0000..<0x100000})"
  by (auto simp: getLowMem_cases ptr_valid_def)

end
