(* ===== verification/Dma.thy ===== *)
theory Dma
  imports Io_Bus Guest_Memory
begin

text \<open>
  The two 8237 DMA controllers with their page registers, \<^verbatim>\<open>i8237-dma.c\<close>, and the transfer
  from a device to guest memory that the floppy controller asks for.
\<close>

definition WR_START_ADDR_26 :: nat where "WR_START_ADDR_26 = 4"
definition WR_COUNT_26 :: nat where "WR_COUNT_26 = 5"

text \<open>
  \<^verbatim>\<open>regs[7][2]\<close>, \<^verbatim>\<open>flipflop[7]\<close> (C \<open>int\<close>, 32 bits, only ever incremented and cleared).
\<close>

record dma_ctl =
  dm_regs :: "uint8 list list"
  flipflop :: "uint32 list"
  dm_mode :: uint8
  dm_mask :: uint8

record dma =
  ctl :: "dma_ctl list"
  page_reg :: "uint8 list"

definition dma_ctl_zero :: dma_ctl where
  "dma_ctl_zero = \<lparr> dm_regs = replicate 7 [0, 0], flipflop = replicate 7 0,
     dm_mode = 0, dm_mask = 0 \<rparr>"

text \<open>The static variable \<^verbatim>\<open>dma\<close> starts zeroed; no initialisation clears it.\<close>

definition dma_zero :: dma where
  "dma_zero = \<lparr> ctl = replicate 2 dma_ctl_zero, page_reg = replicate 0xF 0 \<rparr>"

text \<open>
  The address decode shared by the two port functions: on the second controller every
  register takes two port addresses.
\<close>

definition i8237_decode :: "uint16 \<Rightarrow> uint16 \<Rightarrow> uint16 \<times> nat" where
  "i8237_decode hbase port = (if hbase \<noteq> 0x00 then (drop_bit 1 port, 1) else (port, 0))"

definition ff_index :: "dma_ctl \<Rightarrow> nat \<Rightarrow> nat" where
  "ff_index c k = (if bit (flipflop c ! k) 0 then 1 else 0)"

definition set_ctl :: "nat \<Rightarrow> dma_ctl \<Rightarrow> dma \<Rightarrow> dma" where
  "set_ctl n c d = d\<lparr>ctl := (ctl d)[n := c]\<rparr>"

text \<open>\<^verbatim>\<open>regs[7]\<close> does not exist: ports up to 7 are accepted, the array has seven rows.\<close>

definition i8237_inb :: "uint16 \<Rightarrow> uint16 \<Rightarrow> dma \<Rightarrow> (dma, uint8) effect" where
  "i8237_inb hbase port0 d =
     (let (port, n) = i8237_decode hbase port0; c = ctl d ! n; k = unat port in
      if port \<le> 7 then
        (if k < 7 then
           ret (dm_regs c ! k ! ff_index c k)
               (set_ctl n (c\<lparr>flipflop := (flipflop c)[k := flipflop c ! k + 1]\<rparr>) d)
         else Inl Wild_Access)
      else if port = 8 then ret (push_bit 2 1) d
      else if port = 0x10 then ret 0 d
      else assert_failed)"

text \<open>
  \<^verbatim>\<open>memset(flipflop,0,7)\<close> clears seven bytes of an array of seven \<open>int\<close>s: the first
  element and the three low bytes of the second.
\<close>

definition clear_7_bytes :: "uint32 list \<Rightarrow> uint32 list" where
  "clear_7_bytes ff = ff[0 := 0, 1 := ff ! 1 AND 0xFF000000]"

definition i8237_outb :: "uint16 \<Rightarrow> uint16 \<Rightarrow> uint8 \<Rightarrow> dma \<Rightarrow> (dma, unit) effect" where
  "i8237_outb hbase port0 val d =
     (let (port, n) = i8237_decode hbase port0; c = ctl d ! n; k = unat port in
      if port \<le> 7 then
        (if k < 7 then
           ret () (set_ctl n (c\<lparr>dm_regs := (dm_regs c)[k := (dm_regs c ! k)[ff_index c k := val]],
                               flipflop := (flipflop c)[k := flipflop c ! k + 1]\<rparr>) d)
         else Inl Wild_Access)
      else if port = 0xD then ret () (set_ctl n dma_ctl_zero d)
      else if port = 0xB then ret () (set_ctl n (c\<lparr>dm_mode := val\<rparr>) d)
      else if port = 0xA then ret () (set_ctl n (c\<lparr>dm_mask := 0xF0 OR (val AND 0xF)\<rparr>) d)
      else if port = 0xC then
        (if val > 0 then
           (if val = 0xFF then ret () (set_ctl n (c\<lparr>flipflop := clear_7_bytes (flipflop c)\<rparr>) d)
            else assert_failed)
         else ret () d)
      else assert_failed)"

definition i8237_page_outb :: "uint16 \<Rightarrow> uint8 \<Rightarrow> dma \<Rightarrow> (dma, unit) effect" where
  "i8237_page_outb port val d =
     (if unat port < length (page_reg d)
      then ret () (d\<lparr>page_reg := (page_reg d)[unat port := val]\<rparr>)
      else Inl Wild_Access)"

definition i8237_page_inb :: "uint16 \<Rightarrow> dma \<Rightarrow> (dma, uint8) effect" where
  "i8237_page_inb port d = assert_failed"

definition dma_hdl :: "uint16 \<Rightarrow> uint16 \<Rightarrow> dma io_handler" where
  "dma_hdl b m = \<lparr> base = b, io_mask = m,
     inb = Some (i8237_inb b), inw = None, inl = None,
     outb = Some (i8237_outb b), outw = None, outl = None \<rparr>"

definition dma_page_hdl :: "dma io_handler" where
  "dma_page_hdl = \<lparr> base = 0x80, io_mask = NOT 0x0F,
     inb = Some i8237_page_inb, inw = None, inl = None,
     outb = Some i8237_page_outb, outw = None, outl = None \<rparr>"

text \<open>The handlers in registration order; the argument of the C function is not used.\<close>

definition x86_i8237_dma_init :: "dma io_handler list" where
  "x86_i8237_dma_init = [dma_hdl 0x00 (NOT 0x0F), dma_hdl 0xC0 (NOT 0x1F), dma_page_hdl]"

subsection \<open>Transfers\<close>

definition dma_dest :: "dma \<Rightarrow> uint32" where
  "dma_dest d = (let c = ctl d ! 0 in
     push_bit 16 (ucast (page_reg d ! 1)) OR
     push_bit 8 (ucast (dm_regs c ! WR_START_ADDR_26 ! 1)) OR
     ucast (dm_regs c ! WR_START_ADDR_26 ! 0))"

definition dma_count :: "dma \<Rightarrow> uint32" where
  "dma_count d = (let c = ctl d ! 0 in
     push_bit 8 (ucast (dm_regs c ! WR_COUNT_26 ! 1)) OR ucast (dm_regs c ! WR_COUNT_26 ! 0))"

text \<open>
  \<^verbatim>\<open>memcpy(pDest,pData,count + 1)\<close>: the length comes from the count register alone, not
  from \<^verbatim>\<open>uDatalen\<close>.
\<close>

definition dma_transfer_from_device ::
    "int \<Rightarrow> uint8 list \<Rightarrow> uint32 \<Rightarrow> dma \<Rightarrow> lowmem \<Rightarrow> fault + lowmem" where
  "dma_transfer_from_device ch pData uDatalen d m =
     (if ch = 2 then
        rbind (sys_getLowMem (dma_dest d)) (\<lambda>pDest.
        rbind (rd_bytes pData 0 (unat (dma_count d) + 1)) (\<lambda>bs. low_store pDest bs m))
      else Inl Assert_Failed)"

lemmas dma_defs [dev_defs] =
  i8237_inb_def i8237_outb_def i8237_page_outb_def i8237_page_inb_def i8237_decode_def

subsection \<open>The invariant\<close>

definition dma_ctl_wf :: "dma_ctl \<Rightarrow> bool" where
  "dma_ctl_wf c \<longleftrightarrow> length (dm_regs c) = 7 \<and> (\<forall>k < 7. length (dm_regs c ! k) = 2) \<and>
     length (flipflop c) = 7"

definition dma_wf :: "dma \<Rightarrow> bool" where
  [wf_simps]: "dma_wf d \<longleftrightarrow> length (ctl d) = 2 \<and> dma_ctl_wf (ctl d ! 0) \<and>
     dma_ctl_wf (ctl d ! 1) \<and> length (page_reg d) = 0xF"

lemma dma_wf_zero: "dma_wf dma_zero"
  by (simp add: dma_wf_def dma_ctl_wf_def dma_zero_def dma_ctl_zero_def nth_Cons' numeral_eq_Suc)

lemma set_ctl_wf: "dma_wf d \<Longrightarrow> n < 2 \<Longrightarrow> dma_ctl_wf c \<Longrightarrow> dma_wf (set_ctl n c d)"
  by (auto simp: dma_wf_def set_ctl_def nth_list_update less_2_cases_iff)

lemma dma_wf_ctl: "dma_wf d \<Longrightarrow> n < 2 \<Longrightarrow> dma_ctl_wf (ctl d ! n)"
  by (auto simp: dma_wf_def less_2_cases_iff)

lemma dma_ctl_wf_upd:
  "dma_ctl_wf c \<Longrightarrow> dma_ctl_wf (c\<lparr>flipflop := (flipflop c)[k := x]\<rparr>)"
  "dma_ctl_wf c \<Longrightarrow> dma_ctl_wf (c\<lparr>flipflop := clear_7_bytes (flipflop c)\<rparr>)"
  "dma_ctl_wf c \<Longrightarrow> dma_ctl_wf (c\<lparr>dm_mode := v\<rparr>)"
  "dma_ctl_wf c \<Longrightarrow> dma_ctl_wf (c\<lparr>dm_mask := v\<rparr>)"
  "dma_ctl_wf dma_ctl_zero"
  "dma_ctl_wf c \<Longrightarrow> dma_ctl_wf (c\<lparr>dm_regs := (dm_regs c)[k := (dm_regs c ! k)[j := v]],
     flipflop := (flipflop c)[k := x]\<rparr>)"
  by (auto simp: dma_ctl_wf_def clear_7_bytes_def dma_ctl_zero_def)
     (metis length_list_update nth_list_update_eq nth_list_update_neq)

lemma i8237_decode_less: "i8237_decode b p = (q, n) \<Longrightarrow> n < 2"
  by (auto simp: i8237_decode_def split: if_splits)

lemma i8237_inb_wf: "dma_wf d \<Longrightarrow> i8237_inb b p d = Inr (v, d', es) \<Longrightarrow> dma_wf d'"
  by (auto simp: i8237_inb_def Let_def split: if_splits prod.splits
      intro!: set_ctl_wf dma_ctl_wf_upd dma_wf_ctl dest: i8237_decode_less)

lemma i8237_outb_wf: "dma_wf d \<Longrightarrow> i8237_outb b p v d = Inr (u, d', es) \<Longrightarrow> dma_wf d'"
  by (auto simp: i8237_outb_def Let_def split: if_splits prod.splits
      intro!: set_ctl_wf dma_ctl_wf_upd dma_wf_ctl dest: i8237_decode_less)

lemma i8237_page_outb_wf: "dma_wf d \<Longrightarrow> i8237_page_outb p v d = Inr (u, d', es) \<Longrightarrow> dma_wf d'"
  by (auto simp: i8237_page_outb_def dma_wf_def split: if_splits)

interpretation dma_ctrl: port_device "dma_hdl b m" dma_wf for b m
  by unfold_locales (auto simp: dma_hdl_def dest: i8237_inb_wf i8237_outb_wf)

interpretation dma_page: port_device dma_page_hdl dma_wf
  by unfold_locales (auto simp: dma_page_hdl_def i8237_page_inb_def dest: i8237_page_outb_wf)

subsection \<open>Programming a channel\<close>

text \<open>
  Two writes to a register of the first controller, from an even flip-flop, set its low
  and then its high byte and leave the flip-flop even; two reads deliver them.
\<close>

lemma i8237_outb_reg:
  assumes "unat p < 7"
  shows "i8237_outb 0 p v d = ret () (set_ctl 0 ((ctl d ! 0)
     \<lparr>dm_regs := (dm_regs (ctl d ! 0))[unat p :=
        (dm_regs (ctl d ! 0) ! unat p)[ff_index (ctl d ! 0) (unat p) := v]],
      flipflop := (flipflop (ctl d ! 0))[unat p := flipflop (ctl d ! 0) ! unat p + 1]\<rparr>) d)"
  using assms by (simp add: i8237_outb_def i8237_decode_def Let_def word_le_nat_alt)

lemma i8237_inb_reg:
  assumes "unat p < 7"
  shows "i8237_inb 0 p d =
     ret (dm_regs (ctl d ! 0) ! unat p ! ff_index (ctl d ! 0) (unat p))
       (set_ctl 0 ((ctl d ! 0)\<lparr>flipflop :=
          (flipflop (ctl d ! 0))[unat p := flipflop (ctl d ! 0) ! unat p + 1]\<rparr>) d)"
  using assms by (simp add: i8237_inb_def i8237_decode_def Let_def word_le_nat_alt)

lemma bit_0_plus_1: "bit (x + 1 :: 'a::len word) 0 \<longleftrightarrow> \<not> bit x 0"
  by (simp add: bit_0)

lemma list_len_2: "length xs = 2 \<Longrightarrow> \<exists>a b. xs = [a, b]"
  by (auto simp: numeral_eq_Suc length_Suc_conv)

lemma set_ctl_0 [simp]:
  "dma_wf d \<Longrightarrow> ctl (set_ctl 0 c d) ! 0 = c"
  "set_ctl 0 c' (set_ctl 0 c d) = set_ctl 0 c' d"
  "page_reg (set_ctl n c d) = page_reg d"
  by (auto simp: dma_wf_def set_ctl_def)

text \<open>
  The same for either controller: at \<open>b\<close>, register \<open>k\<close>, at a port relative to the handler.
\<close>

lemma i8237_reg_access:
  assumes "i8237_decode b q = (of_nat k, n)" and "k < 7"
  shows "i8237_outb b q v d = ret () (set_ctl n ((ctl d ! n)
     \<lparr>dm_regs := (dm_regs (ctl d ! n))[k := (dm_regs (ctl d ! n) ! k)[ff_index (ctl d ! n) k := v]],
      flipflop := (flipflop (ctl d ! n))[k := flipflop (ctl d ! n) ! k + 1]\<rparr>) d)"
    and "i8237_inb b q d = ret (dm_regs (ctl d ! n) ! k ! ff_index (ctl d ! n) k)
       (set_ctl n ((ctl d ! n)\<lparr>flipflop := (flipflop (ctl d ! n))[k := flipflop (ctl d ! n) ! k + 1]\<rparr>) d)"
proof -
  have k: "unat (of_nat k :: uint16) = k" using assms(2) by (simp add: unat_of_nat)
  with assms show "i8237_outb b q v d = ret () (set_ctl n ((ctl d ! n)
     \<lparr>dm_regs := (dm_regs (ctl d ! n))[k := (dm_regs (ctl d ! n) ! k)[ff_index (ctl d ! n) k := v]],
      flipflop := (flipflop (ctl d ! n))[k := flipflop (ctl d ! n) ! k + 1]\<rparr>) d)"
    "i8237_inb b q d = ret (dm_regs (ctl d ! n) ! k ! ff_index (ctl d ! n) k)
       (set_ctl n ((ctl d ! n)\<lparr>flipflop := (flipflop (ctl d ! n))[k := flipflop (ctl d ! n) ! k + 1]\<rparr>) d)"
    by (simp_all add: i8237_outb_def i8237_inb_def Let_def word_le_nat_alt)
qed

lemma set_ctl_n [simp]:
  "n < length (ctl d) \<Longrightarrow> ctl (set_ctl n c d) ! n = c" "n \<noteq> m \<Longrightarrow> ctl (set_ctl n c d) ! m = ctl d ! m"
  "set_ctl n c' (set_ctl n c d) = set_ctl n c' d" "length (ctl (set_ctl n c d)) = length (ctl d)"
  by (simp_all add: set_ctl_def)

text \<open>Where the handlers at 0 and at \<open>0xC0\<close> have register \<open>k\<close>: the second takes two ports for each.\<close>

definition dma_reg_ports :: "nat \<Rightarrow> nat \<Rightarrow> uint16 set" where
  "dma_reg_ports n k = (if n = 0 then {of_nat k} else {0xC0 + 2 * of_nat k, 0xC0 + 2 * of_nat k + 1})"

lemma dma_reg_decode:
  assumes "n < 2" and "k \<le> 7" and "p \<in> dma_reg_ports n k"
  shows "i8237_decode ([0x00, 0xC0] ! n) (p - [0x00, 0xC0] ! n) = (of_nat k, n)"
proof -
  have k: "k \<in> set [0..<8]" using assms(2) by simp
  consider "n = 0" | "n = 1" using assms(1) by linarith
  then show ?thesis
  proof cases
    case 1
    with assms(3) show ?thesis by (simp add: i8237_decode_def dma_reg_ports_def)
  next
    case 2
    with assms(3) k show ?thesis
      by (simp add: i8237_decode_def dma_reg_ports_def upt_rec, elim disjE; simp)
  qed
qed

text \<open>
  C35: programming a register of a DMA controller. On either of the two controllers and through any
  port of the register, from an even flip-flop, two byte writes to one of the registers 0 to 6 store
  the low and then the high byte, and two reads deliver the same two bytes in that order; the
  flip-flop is even again, and no other register and nothing of the other controller changes.
  Register 7, the count of the last channel, lies past the end of the array: the access faults.
\<close>

theorem dma_register_roundtrip:
  assumes wf: "dma_wf d" and n: "n < 2" and k: "k \<le> 7"
    and ports: "p \<in> dma_reg_ports n k" "q \<in> dma_reg_ports n k"
    and even: "k < 7 \<longrightarrow> \<not> bit (flipflop (ctl d ! n) ! k) 0"
  shows "if k = 7 then handler_run (x86_i8237_dma_init ! n) [Out8 p lo] d = Inl Wild_Access \<and>
      handler_run (x86_i8237_dma_init ! n) [In8 q] d = Inl Wild_Access
    else \<exists>d'. handler_run (x86_i8237_dma_init ! n) [Out8 p lo, Out8 p hi, In8 q, In8 q] d
        = emit [] [0, 0, ucast lo, ucast hi] d' \<and>
      dm_regs (ctl d' ! n) = (dm_regs (ctl d ! n))[k := [lo, hi]] \<and>
      \<not> bit (flipflop (ctl d' ! n) ! k) 0 \<and> ctl d' ! (1 - n) = ctl d ! (1 - n) \<and> page_reg d' = page_reg d"
proof -
  let ?b = "[0x00, 0xC0] ! n :: uint16"
  obtain msk where h: "x86_i8237_dma_init ! n = dma_hdl ?b msk"
    using n by (cases "n = 0") (auto simp: x86_i8237_dma_init_def less_2_cases_iff)
  note dec = dma_reg_decode [OF n k ports(1)] dma_reg_decode [OF n k ports(2)]
  show ?thesis
  proof (cases "k = 7")
    case True
    with dec have "i8237_outb ?b (p - ?b) lo d = Inl Wild_Access" "i8237_inb ?b (q - ?b) d = Inl Wild_Access"
      by (simp_all add: i8237_outb_def i8237_inb_def Let_def)
    with True show ?thesis by (simp add: h dma_hdl_def)
  next
    case False
    then have k7: "k < 7" using k by simp
    let ?c = "ctl d ! n"
    have c: "length (dm_regs ?c) = 7" "length (flipflop ?c) = 7" "length (dm_regs ?c ! k) = 2" "n < length (ctl d)"
      using dma_wf_ctl [OF wf n] wf n k7 by (auto simp: dma_wf_def dma_ctl_wf_def)
    then obtain a b where ab: "dm_regs ?c ! k = [a, b]" using list_len_2 by blast
    have e: "\<not> bit (flipflop ?c ! k) 0" using even k7 by simp
    then have e1: "bit (flipflop ?c ! k + 1) 0"
      and e2: "\<not> bit (flipflop ?c ! k + 1 + 1) 0"
      and e3: "bit (flipflop ?c ! k + 1 + 1 + 1) 0"
      and e4: "\<not> bit (flipflop ?c ! k + 1 + 1 + 1 + 1) 0"
      by (simp_all only: bit_0_plus_1 not_not simp_thms)
    have m: "n \<noteq> 1 - n" using n by presburger
    show ?thesis
      using False k7 c e e1 e2 e3 e4 m
      by (simp add: h dma_hdl_def i8237_reg_access [OF dec(1) k7] i8237_reg_access [OF dec(2) k7]
          ff_index_def ab add.assoc)
  qed
qed

lemma dma_zero_nth: "k < 7 \<Longrightarrow> n < 2 \<Longrightarrow> flipflop (ctl dma_zero ! n) ! k = 0"
  by (simp add: dma_zero_def dma_ctl_zero_def)

text \<open>Register 4 of the second controller, written at one of its ports and read at the other.\<close>

theorem dma_register_roundtrip_witness:
  "\<exists>d'. handler_run (x86_i8237_dma_init ! 1) [Out8 0xC8 0x34, Out8 0xC8 0x12, In8 0xC9, In8 0xC9] dma_zero
     = emit [] [0, 0, 0x34, 0x12] d' \<and> dm_regs (ctl d' ! 1) ! 4 = [0x34, 0x12]"
proof -
  have "length (dm_regs (ctl dma_zero ! 1)) = 7" using dma_wf_zero by (simp add: dma_wf_def dma_ctl_wf_def)
  then show ?thesis
    using dma_register_roundtrip [OF dma_wf_zero, of 1 4 "0xC8" "0xC9" "0x34" "0x12"]
    by (auto simp: dma_zero_nth dma_reg_ports_def)
qed

text \<open>
  The flip-flop reset does not resynchronise channel 2. A stray byte written to the
  address register of the floppy channel, a flip-flop reset, and then the low and the high
  byte of an address leave the register with the two bytes swapped: the reset clears
  seven bytes of an array of seven integers.
\<close>

theorem dma_reset_keeps_channel_2_flipflop:
  assumes wf: "dma_wf d" and even: "\<not> bit (flipflop (ctl d ! 0) ! 4) 0"
  shows "\<exists>d'. handler_run (dma_hdl 0 msk) [Out8 4 x, Out8 0xC 0xFF, Out8 4 lo, Out8 4 hi] d
      = emit [] [0, 0, 0, 0] d' \<and> dm_regs (ctl d' ! 0) ! WR_START_ADDR_26 = [hi, lo]"
proof -
  let ?c = "ctl d ! 0"
  have c: "length (dm_regs ?c) = 7" "length (flipflop ?c) = 7" "length (dm_regs ?c ! 4) = 2"
    using wf by (auto simp: dma_wf_def dma_ctl_wf_def)
  then obtain a b where ab: "dm_regs ?c ! 4 = [a, b]" using list_len_2 by blast
  have reset: "i8237_outb 0 0xC 0xFF e =
      ret () (set_ctl 0 ((ctl e ! 0)\<lparr>flipflop := clear_7_bytes (flipflop (ctl e ! 0))\<rparr>) e)" for e
    by (simp add: i8237_outb_def i8237_decode_def Let_def)
  have e1: "bit (flipflop ?c ! 4 + 1) 0" and e2: "\<not> bit (flipflop ?c ! 4 + 1 + 1) 0"
    using even by (simp_all only: bit_0_plus_1 not_not simp_thms)
  show ?thesis
    using wf c even e1 e2
    by (simp add: dma_hdl_def i8237_outb_reg reset ff_index_def ab add.assoc clear_7_bytes_def
        WR_START_ADDR_26_def)
qed

theorem dma_reset_keeps_channel_2_flipflop_witness:
  "\<exists>d'. handler_run (dma_hdl 0 0xFFF0) [Out8 4 0, Out8 0xC 0xFF, Out8 4 0x34, Out8 4 0x12] dma_zero
     = emit [] [0, 0, 0, 0] d' \<and> dm_regs (ctl d' ! 0) ! WR_START_ADDR_26 = [0x12, 0x34]"
  using dma_reset_keeps_channel_2_flipflop [OF dma_wf_zero, of "0xFFF0" 0 "0x34" "0x12"]
  by (auto simp: dma_zero_nth)

text \<open>
  One guest access leaves the register arrays. Port 7 of the first controller (a write
  or a read) and port \<open>0x8F\<close> of the page registers index one past the end of their array.
\<close>

theorem dma_out_of_bounds_ports:
  assumes "dma_wf d"
  shows "handler_access (dma_hdl 0 msk) (Out8 7 v) d = Inl Wild_Access \<and>
    handler_access (dma_hdl 0 msk) (In8 7) d = Inl Wild_Access \<and>
    handler_access dma_page_hdl (Out8 0x8F v) d = Inl Wild_Access"
  using assms
  by (simp_all add: dma_hdl_def dma_page_hdl_def dma_defs Let_def dma_wf_def)

theorem dma_out_of_bounds_ports_witness:
  "handler_access (dma_hdl 0 0xFFF0) (Out8 7 1) dma_zero = Inl Wild_Access"
  using dma_out_of_bounds_ports [OF dma_wf_zero] by blast

subsection \<open>A transfer to guest memory\<close>

definition dma_dest_nat :: "dma \<Rightarrow> nat" where
  "dma_dest_nat d = unat (page_reg d ! 1) * 65536 + unat (dm_regs (ctl d ! 0) ! 4 ! 1) * 256 +
     unat (dm_regs (ctl d ! 0) ! 4 ! 0)"

definition dma_count_nat :: "dma \<Rightarrow> nat" where
  "dma_count_nat d = unat (dm_regs (ctl d ! 0) ! 5 ! 1) * 256 + unat (dm_regs (ctl d ! 0) ! 5 ! 0)"

lemma unat_dma_count: "unat (dma_count d) = dma_count_nat d"
  unfolding dma_count_def dma_count_nat_def Let_def WR_COUNT_26_def
  by (subst unat_push_or) (simp_all add: unat_ucast_8_32 unat_byte_less)

lemma unat_dma_dest: "unat (dma_dest d) = dma_dest_nat d"
proof -
  let ?l = "dm_regs (ctl d ! 0) ! 4 ! 0" and ?h = "dm_regs (ctl d ! 0) ! 4 ! 1"
  have lo: "unat (push_bit 8 (ucast ?h) OR ucast ?l :: uint32) = unat ?h * 256 + unat ?l"
    by (subst unat_push_or) (simp_all add: unat_ucast_8_32 unat_byte_less)
  have "unat ?h * 256 + unat ?l < 65536" "unat (page_reg d ! 1) * 65536 < 2 ^ 32"
    using unat_byte [of ?h] unat_byte [of ?l] unat_byte [of "page_reg d ! 1"] by auto
  then show ?thesis
    unfolding dma_dest_def dma_dest_nat_def Let_def WR_START_ADDR_26_def or.assoc
    using lo by (subst unat_push_or) (simp_all add: unat_ucast_8_32)
qed

lemma dma_transfer_guest:
  assumes "dma_wf d" and "lowmem_wf m" and "length buf = 65536"
    and "dma_dest_nat d + dma_count_nat d + 1 \<le> 0xA0000"
  shows "dma_transfer_from_device 2 buf n d m = Inr (m\<lparr>low0 :=
      take (dma_dest_nat d) (low0 m) @ take (dma_count_nat d + 1) buf @
      drop (dma_dest_nat d + dma_count_nat d + 1) (low0 m)\<rparr>)"
proof -
  have "dma_count_nat d < 65536"
    using unat_byte [of "dm_regs (ctl d ! 0) ! 5 ! 1"] unat_byte [of "dm_regs (ctl d ! 0) ! 5 ! 0"]
    by (simp add: dma_count_nat_def)
  then have rd: "rd_bytes buf 0 (unat (dma_count d) + 1) = Inr (take (dma_count_nat d + 1) buf)"
    using assms(3) by (simp add: rd_bytes_def in_range_def unat_dma_count)
  have "sys_getLowMem (dma_dest d) = Inr (Low0 (dma_dest_nat d))"
    using assms(4) by (simp add: getLowMem_cases unat_dma_dest)
  with rd assms(2-4) \<open>dma_count_nat d < 65536\<close> show ?thesis
    by (simp add: dma_transfer_from_device_def wr_bytes_def in_range_def lowmem_wf_def
        min_absorb2 add.assoc)
qed

text \<open>A controller with channel 2 programmed for address \<open>a\<close> and count register \<open>k\<close>.\<close>

definition dma_at :: "nat \<Rightarrow> nat \<Rightarrow> dma" where
  "dma_at a k = (set_ctl 0 (dma_ctl_zero\<lparr>dm_regs := (dm_regs dma_ctl_zero)
     [4 := [of_nat a, of_nat (a div 256)], 5 := [of_nat k, of_nat (k div 256)]]\<rparr>) dma_zero)
     \<lparr>page_reg := (page_reg dma_zero)[1 := of_nat (a div 65536)]\<rparr>"

lemma dma_at_wf: "dma_wf (dma_at a k)"
  by (auto simp: dma_at_def dma_wf_def dma_ctl_wf_def dma_zero_def dma_ctl_zero_def set_ctl_def
      nth_list_update)

lemma dma_at_nat:
  "a < 0x1000000 \<Longrightarrow> dma_dest_nat (dma_at a k) = a"
  "k < 0x10000 \<Longrightarrow> dma_count_nat (dma_at a k) = k"
proof -
  have d: "a div 65536 = a div 256 div 256" by (simp add: div_mult2_eq [symmetric])
  have "a div 65536 * 65536 + a div 256 mod 256 * 256 + a mod 256 = a"
    unfolding d using div_mult_mod_eq [of a 256] div_mult_mod_eq [of "a div 256" 256] by linarith
  then show "a < 0x1000000 \<Longrightarrow> dma_dest_nat (dma_at a k) = a"
    by (simp add: dma_at_def dma_dest_nat_def dma_zero_def dma_ctl_zero_def set_ctl_def unat_of_nat)
  show "k < 0x10000 \<Longrightarrow> dma_count_nat (dma_at a k) = k"
    by (simp add: dma_at_def dma_count_nat_def dma_zero_def dma_ctl_zero_def set_ctl_def unat_of_nat)
qed

text \<open>
  A transfer on channel 2 to the first 640 KB. With the destination given by the page
  register and the two address bytes, and the length by the two count bytes plus one, the
  transfer writes exactly that many bytes from the start of the device's buffer to that
  guest address, and changes nothing else. The length the device passed has no influence.
\<close>

theorem dma_transfer_writes_guest_memory:
  assumes "dma_wf d" and "lowmem_wf m" and "length buf = 65536"
    and "dma_dest_nat d + dma_count_nat d + 1 \<le> 0xA0000"
  shows "dma_transfer_from_device 2 buf n d m = Inr (m\<lparr>low0 :=
      take (dma_dest_nat d) (low0 m) @ take (dma_count_nat d + 1) buf @
      drop (dma_dest_nat d + dma_count_nat d + 1) (low0 m)\<rparr>)"
  using assms by (rule dma_transfer_guest)

definition lowmem_zero :: lowmem where
  "lowmem_zero = \<lparr> low0 = replicate 0xA0000 0, low1 = replicate 0x20000 0 \<rparr>"

lemma lowmem_wf_zero: "lowmem_wf lowmem_zero"
  unfolding lowmem_wf_def lowmem_zero_def by simp

theorem dma_transfer_writes_guest_memory_witness:
  "dma_transfer_from_device 2 (replicate 65536 7) 512 dma_zero lowmem_zero =
     Inr (lowmem_zero\<lparr>low0 := take 0 (low0 lowmem_zero) @ take 1 (replicate 65536 7) @
       drop 1 (low0 lowmem_zero)\<rparr>)"
proof -
  have z: "dma_dest_nat dma_zero = 0" "dma_count_nat dma_zero = 0"
    by (simp_all add: dma_dest_nat_def dma_count_nat_def dma_zero_def dma_ctl_zero_def)
  show ?thesis
    using dma_transfer_writes_guest_memory [OF dma_wf_zero lowmem_wf_zero, of "replicate 65536 7" 512]
    by (simp only: z length_replicate add_0 simp_thms)
qed

end
