(* ===== verification/Floppy.thy ===== *)
theory Floppy
  imports Dma
begin

text \<open>
  The floppy controller with its one drive, \<^verbatim>\<open>floppy.c\<close>. Besides its own registers the
  controller works on the DMA controller and, through it, on low guest memory, so the
  state its port functions run over holds all three. The disk image is the contents of
  the file \<^verbatim>\<open>floppy.img\<close> (\<open>None\<close> if it could not be opened); \<^verbatim>\<open>malloc\<close>'s buffer has
  arbitrary contents.
\<close>

definition DOR_NRESET :: uint8 where "DOR_NRESET = 4"
definition MSR_RQM :: uint8 where "MSR_RQM = 0x80"
definition MSR_DIO :: uint8 where "MSR_DIO = 0x40"
definition MSR_CB :: uint8 where "MSR_CB = 0x10"

record fdc =
  sra :: uint8
  srb :: uint8
  msr :: uint8
  dor :: uint8
  ccr :: uint8
  dsr :: uint8
  st :: "uint8 list"
  fifo :: "uint8 list"
  fifondx :: int
  fifolen :: int
  pos_cyl :: uint8
  pos_head :: uint8
  pos_sect :: uint8
  fdc_in :: "uint8 list option"
  pDMABuffer :: "uint8 list"

record fsys =
  the_fdc :: fdc
  the_dma :: dma
  the_mem :: lowmem

definition on_fdc :: "(fdc \<Rightarrow> fdc) \<Rightarrow> fsys \<Rightarrow> fsys" where
  "on_fdc f s = s\<lparr>the_fdc := f (the_fdc s)\<rparr>"

definition fdc_doReset :: "fdc \<Rightarrow> fdc" where
  "fdc_doReset f = f\<lparr>sra := 0, srb := 0, msr := MSR_RQM, dor := 0, ccr := 0, dsr := 0,
     fifondx := 0, fifolen := 0\<rparr>"

text \<open>The arguments are C \<open>int\<close>s, the result is an \<^verbatim>\<open>unsigned int\<close>.\<close>

definition chs_to_lba :: "int \<Rightarrow> int \<Rightarrow> int \<Rightarrow> uint32" where
  "chs_to_lba c h s =
     word_of_int (18 * 2 * c) + word_of_int (h * 18) + word_of_int (s - 1)"

definition fifo_store :: "uint8 list \<Rightarrow> fdc \<Rightarrow> fdc" where
  "fifo_store bs f = f\<lparr>fifo := bs @ drop (length bs) (fifo f)\<rparr>"

text \<open>The seven result bytes of the read commands.\<close>

definition fdc_result :: "fdc \<Rightarrow> uint8 list" where
  "fdc_result f = [st f ! 0, st f ! 1, st f ! 2, pos_cyl f, pos_head f, pos_sect f, 2]"

definition fdc_read_data :: "fsys \<Rightarrow> (fsys, unit) effect" where
  "fdc_read_data s =
     (let f = the_fdc s; n = unat (fifo f ! 6) in
      if n \<le> 128 then
        (let f1 = f\<lparr>pos_cyl := fifo f ! 2, pos_head := fifo f ! 3\<rparr>;
             lba = chs_to_lba (uint (pos_cyl f1)) (uint (pos_head f1)) (uint (fifo f ! 4)) in
         case fdc_in f of
           None \<Rightarrow> Inl Wild_Access
         | Some img \<Rightarrow>
            (let got = file_read img (unat (lba * 512)) (512 * n);
                 f2 = f1\<lparr>pDMABuffer := overlay (pDMABuffer f1) got\<rparr> in
             case dma_transfer_from_device 2 (pDMABuffer f2) (of_nat (512 * n)) (the_dma s) (the_mem s) of
               Inl e \<Rightarrow> Inl e
             | Inr m' \<Rightarrow>
                (let f3 = f2\<lparr>msr := MSR_RQM OR MSR_DIO, fifolen := 7, fifondx := 0\<rparr> in
                 emit [Irq_Set 6 1] ()
                   (s\<lparr>the_fdc := fifo_store (fdc_result f3) f3, the_mem := m'\<rparr>))))
      else assert_failed)"

definition doExecuteCommand :: "fsys \<Rightarrow> (fsys, unit) effect" where
  "doExecuteCommand s =
     (let f = the_fdc s; c = fifo f ! 0 AND 0xF in
      if c = 0x6 then fdc_read_data s
      else if c = 0x7 then
        emit [Irq_Set 6 0, Irq_Set 6 1] ()
          (on_fdc (\<lambda>f. f\<lparr>pos_cyl := 0, msr := MSR_RQM, fifolen := 1, fifondx := 0\<rparr>) s)
      else if c = 0x8 then
        emit [Irq_Set 6 0] ()
          (on_fdc (\<lambda>f. fifo_store [st f ! 0, pos_cyl f]
             (f\<lparr>msr := MSR_RQM OR MSR_DIO, fifolen := 2, fifondx := 0\<rparr>)) s)
      else if c = 0xA then
        emit [Irq_Set 6 1] ()
          (on_fdc (\<lambda>f. fifo_store (fdc_result f)
             (f\<lparr>msr := MSR_RQM OR MSR_DIO, fifolen := 7, fifondx := 0\<rparr>)) s)
      else if c = 0xF then
        emit [Irq_Set 6 1] ()
          (on_fdc (\<lambda>f. f\<lparr>pos_head := drop_bit 2 (fifo f ! 1), pos_cyl := fifo f ! 2,
             fifolen := 0, fifondx := 0, msr := 0xA0\<rparr>) s)
      else ret () s)"

text \<open>The number of bytes the first byte of a command announces.\<close>

definition fdc_cmd_len :: "uint8 \<Rightarrow> int option" where
  "fdc_cmd_len val = (let c = val AND 0xF in
     if c = 0x6 then Some 9 else if c = 0x7 then Some 2 else if c = 0x8 then Some 1
     else if c = 0xA then Some 2 else if c = 0xF then Some 3 else None)"

definition fifo_put :: "uint8 \<Rightarrow> fsys \<Rightarrow> (fsys, unit) effect" where
  "fifo_put val s =
     (let f = the_fdc s in
      if in_range (fifo f) (fifondx f) 1 then
        (let f' = f\<lparr>fifo := (fifo f)[nat (fifondx f) := val], fifondx := fifondx f + 1\<rparr>;
             s' = s\<lparr>the_fdc := f'\<rparr> in
         if fifondx f' \<ge> fifolen f' then doExecuteCommand s' else ret () s')
      else Inl Wild_Access)"

definition fifo_write :: "uint8 \<Rightarrow> fsys \<Rightarrow> (fsys, unit) effect" where
  "fifo_write val s =
     (if fifondx (the_fdc s) = 0 then
        (case fdc_cmd_len val of
           None \<Rightarrow> assert_failed
         | Some n \<Rightarrow> fifo_put val
             (on_fdc (\<lambda>f. f\<lparr>fifolen := n, msr := msr f OR MSR_CB\<rparr>) s))
      else fifo_put val s)"

definition floppy_outb :: "uint16 \<Rightarrow> uint16 \<Rightarrow> uint8 \<Rightarrow> fsys \<Rightarrow> (fsys, unit) effect" where
  "floppy_outb hbase port0 val s =
     (let port = port0 + hbase in
      if port = 0x3F2 then
        (if val AND DOR_NRESET = 0
         then emit [Irq_Set 6 1] ()
                (on_fdc (\<lambda>f. (fdc_doReset f)\<lparr>dor := val AND NOT DOR_NRESET\<rparr>) s)
         else ret () (on_fdc (\<lambda>f. f\<lparr>dor := val AND NOT DOR_NRESET\<rparr>) s))
      else if port = 0x3F5 then fifo_write val s
      else if port = 0x3F7 then
        ret () (on_fdc (\<lambda>f. f\<lparr>ccr := val, dsr := (dsr f AND 0xFC) OR (val AND 3)\<rparr>) s)
      else assert_failed)"

definition fifo_get :: "fsys \<Rightarrow> (fsys, uint8) effect" where
  "fifo_get s =
     (let f = the_fdc s in
      if in_range (fifo f) (fifondx f) 1 then
        (let r = fifo f ! nat (fifondx f); n = fifondx f + 1 in
         if n \<ge> fifolen f
         then emit [Irq_Set 6 0] r (on_fdc (\<lambda>f. f\<lparr>msr := 0xA0, fifondx := 0\<rparr>) s)
         else ret r (on_fdc (\<lambda>f. f\<lparr>fifondx := n\<rparr>) s))
      else Inl Wild_Access)"

definition floppy_inb :: "uint16 \<Rightarrow> uint16 \<Rightarrow> fsys \<Rightarrow> (fsys, uint8) effect" where
  "floppy_inb hbase port0 s =
     (let port = port0 + hbase in
      if port = 0x3F4 then ret (msr (the_fdc s)) s
      else if port = 0x3F2 then ret (dor (the_fdc s)) s
      else if port = 0x3F5 then fifo_get s
      else assert_failed)"

definition floppy_hdl :: "fsys io_handler" where
  "floppy_hdl = \<lparr> base = 0x3F0, io_mask = 0xFFF8,
     inb = Some (floppy_inb 0x3F0), inw = None, inl = None,
     outb = Some (floppy_outb 0x3F0), outw = None, outl = None \<rparr>"

text \<open>The controller \<^verbatim>\<open>x86_floppy_init\<close> leaves, for an image and a fresh buffer.\<close>

definition fdc_zero :: fdc where
  "fdc_zero = \<lparr> sra = 0, srb = 0, msr = 0, dor = 0, ccr = 0, dsr = 0, st = replicate 3 0,
     fifo = replicate (512 + 10) 0, fifondx = 0, fifolen = 0, pos_cyl = 0, pos_head = 0,
     pos_sect = 0, fdc_in = None, pDMABuffer = [] \<rparr>"

definition x86_floppy_init :: "uint8 list option \<Rightarrow> uint8 list \<Rightarrow> fdc" where
  "x86_floppy_init img buf =
     (fdc_doReset fdc_zero)\<lparr>fdc_in := img, pos_sect := 1, pDMABuffer := buf\<rparr>"

subsection \<open>The invariant\<close>

text \<open>
  The arrays keep their size, the status bytes stay 0 (nothing writes them), the
  digital output register never shows the reset bit, and the FIFO index stays between 0
  and the size of the FIFO, \<open>522\<close> included: a store at index 522 is the one that faults.
\<close>

definition fdc_wf :: "fdc \<Rightarrow> bool" where
  "fdc_wf f \<longleftrightarrow> length (fifo f) = 522 \<and> st f = [0, 0, 0] \<and> length (pDMABuffer f) = 65536 \<and>
     0 \<le> fifondx f \<and> fifondx f \<le> 522 \<and> \<not> bit (dor f) 2"

definition fsys_wf :: "fsys \<Rightarrow> bool" where
  [wf_simps]: "fsys_wf s \<longleftrightarrow> fdc_wf (the_fdc s) \<and> dma_wf (the_dma s) \<and> lowmem_wf (the_mem s)"

lemma fdc_wf_init: "length buf = 65536 \<Longrightarrow> fdc_wf (x86_floppy_init img buf)"
  by (simp add: fdc_wf_def x86_floppy_init_def fdc_doReset_def fdc_zero_def numeral_3_eq_3)

lemma length_file_read: "length (file_read f off n) \<le> n"
  by (simp add: file_read_def)

lemma dma_transfer_wf:
  "lowmem_wf m \<Longrightarrow> dma_transfer_from_device ch buf n d m = Inr m' \<Longrightarrow> lowmem_wf m'"
  by (auto simp: dma_transfer_from_device_def rbind_Inr intro: low_store_wf split: if_splits)

lemma fdc_read_data_wf:
  assumes "fsys_wf s" and "fdc_read_data s = Inr (u, s', es)"
  shows "fsys_wf s'"
proof -
  have "n \<le> 128 \<Longrightarrow> length (file_read g off (512 * n)) \<le> 65536" for g off n
    using length_file_read [of g off "512 * n"] by linarith
  with assms show ?thesis
    by (auto simp: fdc_read_data_def Let_def fsys_wf_def fdc_wf_def fifo_store_def fdc_result_def
        dest: dma_transfer_wf split: if_splits option.splits sum.splits)
qed

lemma on_fdc_wf:
  assumes "fsys_wf s" and "\<And>f. fdc_wf f \<Longrightarrow> fdc_wf (g f)"
  shows "fsys_wf (on_fdc g s)"
  using assms by (simp add: fsys_wf_def on_fdc_def)

lemma fdc_wf_upd:
  assumes "fdc_wf f"
  shows "fdc_wf (f\<lparr>pos_cyl := c, msr := m, fifolen := l, fifondx := 0\<rparr>)"
    and "fdc_wf (fifo_store [st f ! 0, c] (f\<lparr>msr := m, fifolen := l, fifondx := 0\<rparr>))"
    and "fdc_wf (fifo_store (fdc_result f) (f\<lparr>msr := m, fifolen := l, fifondx := 0\<rparr>))"
    and "fdc_wf (f\<lparr>pos_head := h, pos_cyl := c, fifolen := l, fifondx := 0, msr := m\<rparr>)"
    and "fdc_wf (f\<lparr>fifolen := l, msr := m\<rparr>)"
  using assms by (simp_all add: fdc_wf_def fifo_store_def fdc_result_def)

lemma doExecuteCommand_wf:
  assumes wf: "fsys_wf s" and ex: "doExecuteCommand s = Inr (u, s', es)"
  shows "fsys_wf s'"
  using ex wf fdc_read_data_wf [OF wf, of u s' es] on_fdc_wf [OF wf] fdc_wf_upd
  unfolding doExecuteCommand_def Let_def
  by (simp split: if_split_asm)

lemma fifo_put_wf:
  assumes wf: "fsys_wf s" and put: "fifo_put v s = Inr (u, s', es)"
  shows "fsys_wf s'"
proof -
  let ?f = "(the_fdc s)\<lparr>fifo := (fifo (the_fdc s))[nat (fifondx (the_fdc s)) := v],
    fifondx := fifondx (the_fdc s) + 1\<rparr>"
  from put have r: "in_range (fifo (the_fdc s)) (fifondx (the_fdc s)) 1"
    by (simp add: fifo_put_def Let_def split: if_split_asm)
  then have "fsys_wf (s\<lparr>the_fdc := ?f\<rparr>)"
    using wf by (auto simp: fsys_wf_def fdc_wf_def in_range_def)
  then show ?thesis
    using put r doExecuteCommand_wf
    by (simp add: fifo_put_def Let_def split: if_split_asm)
qed

lemma fifo_write_wf:
  assumes wf: "fsys_wf s" and wr: "fifo_write v s = Inr (u, s', es)"
  shows "fsys_wf s'"
  using wr fifo_put_wf [OF wf] fifo_put_wf [OF on_fdc_wf [OF wf fdc_wf_upd(5)]]
  by (auto simp: fifo_write_def split: if_split_asm option.splits)

lemma dor_mask_bit: "\<not> bit (v AND NOT DOR_NRESET) 2"
  by (simp add: DOR_NRESET_def bit_and_iff)

lemma floppy_outb_wf: "fsys_wf s \<Longrightarrow> floppy_outb b p v s = Inr (u, s', es) \<Longrightarrow> fsys_wf s'"
  using dor_mask_bit [of v]
  by (auto simp: floppy_outb_def Let_def dest: fifo_write_wf split: if_splits)
     (auto simp: fsys_wf_def fdc_wf_def on_fdc_def fdc_doReset_def)

lemma floppy_inb_wf: "fsys_wf s \<Longrightarrow> floppy_inb b p s = Inr (v, s', es) \<Longrightarrow> fsys_wf s'"
  by (auto simp: floppy_inb_def fifo_get_def Let_def fsys_wf_def fdc_wf_def on_fdc_def in_range_def
      split: if_splits)

interpretation floppy: port_device floppy_hdl fsys_wf
  by unfold_locales (auto simp: floppy_hdl_def dest: floppy_inb_wf floppy_outb_wf)

subsection \<open>The command phase\<close>

text \<open>
  The controller after the bytes \<open>b # bs\<close> of a command have been collected, just before it
  executes the command.
\<close>

definition fdc_load :: "uint8 list \<Rightarrow> fdc \<Rightarrow> fdc" where
  "fdc_load cmd f = f\<lparr>fifolen := int (length cmd), msr := msr f OR MSR_CB,
     fifo := cmd @ drop (length cmd) (fifo f), fifondx := int (length cmd)\<rparr>"

abbreviation fifo_writes :: "uint8 list \<Rightarrow> access list" where
  "fifo_writes bs \<equiv> map (Out8 0x3F5) bs"

lemma floppy_hdl_simps [simp]:
  "base floppy_hdl = 0x3F0" "inb floppy_hdl = Some (floppy_inb 0x3F0)"
  "outb floppy_hdl = Some (floppy_outb 0x3F0)"
  by (simp_all add: floppy_hdl_def)

lemma floppy_ports [simp]:
  "floppy_outb 0x3F0 5 v s = fifo_write v s"
  "floppy_inb 0x3F0 5 s = fifo_get s"
  "floppy_inb 0x3F0 4 s = ret (msr (the_fdc s)) s"
  "floppy_inb 0x3F0 2 s = ret (dor (the_fdc s)) s"
  by (simp_all add: floppy_outb_def floppy_inb_def)

lemma silent_then: "ebind (silent m) f = ebind m (\<lambda>_ s. f 0 s)"
  by (auto simp: silent_def ebind_def emit_def split: sum.splits)

lemma ebind_ret_Cons:
  "ebind (ebind m (\<lambda>_ s. ret vs s)) (\<lambda>ws s. ret (v # ws) s) = ebind m (\<lambda>_ s. ret (v # vs) s)"
  by (auto simp: ebind_def emit_def split: sum.splits)

text \<open>Parameters collected from position \<open>i\<close> on, up to the last one.\<close>

lemma fifo_params:
  assumes "length (fifo (the_fdc s)) = 522" and "fifondx (the_fdc s) = int i" and "0 < i"
    and "bs \<noteq> []" and "fifolen (the_fdc s) = int (i + length bs)" and "i + length bs \<le> 522"
  shows "handler_run floppy_hdl (fifo_writes bs) s =
    ebind (doExecuteCommand (on_fdc (\<lambda>f. f\<lparr>fifo := take i (fifo f) @ bs @ drop (i + length bs) (fifo f),
        fifondx := int (i + length bs)\<rparr>) s))
      (\<lambda>_ s'. ret (replicate (length bs) 0) s')"
  using assms
proof (induction bs arbitrary: s i)
  case Nil
  then show ?case by simp
next
  case (Cons b bs)
  let ?f = "the_fdc s"
  let ?s = "s\<lparr>the_fdc := ?f\<lparr>fifo := (fifo ?f)[i := b], fifondx := int i + 1\<rparr>\<rparr>"
  have upd: "(fifo ?f)[i := b] = take i (fifo ?f) @ b # drop (Suc i) (fifo ?f)"
    using Cons.prems by (simp add: upd_conv_take_nth_drop)
  show ?case
  proof (cases "bs = []")
    case True
    with Cons.prems show ?thesis
      by (simp add: fifo_write_def fifo_put_def in_range_def Let_def silent_then on_fdc_def upd
          add.commute)
  next
    case False
    then have len: "0 < length bs" by simp
    have "handler_run floppy_hdl (fifo_writes (b # bs)) s =
        ebind (handler_run floppy_hdl (fifo_writes bs) ?s) (\<lambda>ws s. ret (0 # ws) s)"
      using Cons.prems len by (simp add: fifo_write_def fifo_put_def in_range_def Let_def)
    also have "handler_run floppy_hdl (fifo_writes bs) ?s =
      ebind (doExecuteCommand (on_fdc (\<lambda>f. f\<lparr>fifo := take (Suc i) (fifo f) @ bs @
          drop (Suc i + length bs) (fifo f), fifondx := int (Suc i + length bs)\<rparr>) ?s))
        (\<lambda>_ s'. ret (replicate (length bs) 0) s')"
      by (rule Cons.IH) (use Cons.prems False in auto)
    also have "on_fdc (\<lambda>f. f\<lparr>fifo := take (Suc i) (fifo f) @ bs @
          drop (Suc i + length bs) (fifo f), fifondx := int (Suc i + length bs)\<rparr>) ?s =
        on_fdc (\<lambda>f. f\<lparr>fifo := take i (fifo f) @ (b # bs) @ drop (i + length (b # bs)) (fifo f),
          fifondx := int (i + length (b # bs))\<rparr>) s"
      using Cons.prems by (simp add: on_fdc_def upd add.commute)
    finally show ?thesis by (simp only: ebind_ret_Cons length_Cons replicate_Suc)
  qed
qed

lemma fdc_framing:
  assumes "fsys_wf s" and "fifondx (the_fdc s) = 0"
    and "fdc_cmd_len b = Some (int (Suc (length bs)))"
  shows "handler_run floppy_hdl (fifo_writes (b # bs)) s =
    ebind (doExecuteCommand (on_fdc (fdc_load (b # bs)) s))
      (\<lambda>_ s'. ret (replicate (Suc (length bs)) 0) s')"
proof -
  let ?f = "the_fdc s"
  have len: "length (fifo ?f) = 522" using assms(1) by (simp add: fsys_wf_def fdc_wf_def)
  have bs: "length bs \<le> 8"
    using assms(3) by (auto simp: fdc_cmd_len_def Let_def split: if_splits)
  obtain x xs where x: "fifo ?f = x # xs" using len by (cases "fifo ?f") auto
  let ?s = "on_fdc (\<lambda>f. f\<lparr>fifolen := int (Suc (length bs)), msr := msr f OR MSR_CB,
      fifo := b # xs, fifondx := 1\<rparr>) s"
  show ?thesis
  proof (cases "bs = []")
    case True
    with assms len x show ?thesis
      by (simp add: fifo_write_def fifo_put_def in_range_def Let_def silent_then on_fdc_def fdc_load_def)
  next
    case False
    have "handler_run floppy_hdl (fifo_writes (b # bs)) s =
        ebind (handler_run floppy_hdl (fifo_writes bs) ?s) (\<lambda>ws s. ret (0 # ws) s)"
      using assms False len x
      by (simp add: fifo_write_def fifo_put_def in_range_def Let_def on_fdc_def)
    also have "handler_run floppy_hdl (fifo_writes bs) ?s =
      ebind (doExecuteCommand (on_fdc (\<lambda>f. f\<lparr>fifo := take 1 (fifo f) @ bs @
          drop (1 + length bs) (fifo f), fifondx := int (1 + length bs)\<rparr>) ?s))
        (\<lambda>_ s'. ret (replicate (length bs) 0) s')"
      by (rule fifo_params) (use False bs len x in \<open>auto simp: on_fdc_def\<close>)
    also have "on_fdc (\<lambda>f. f\<lparr>fifo := take 1 (fifo f) @ bs @
          drop (1 + length bs) (fifo f), fifondx := int (1 + length bs)\<rparr>) ?s =
        on_fdc (fdc_load (b # bs)) s"
      by (simp add: on_fdc_def fdc_load_def x)
    finally show ?thesis by (simp only: ebind_ret_Cons replicate_Suc)
  qed
qed

text \<open>
  C26: framing of commands. In the idle state, the first byte of a command announces how
  many bytes it has; after exactly that many bytes have been written to the data port
  the command is executed once, with the bytes in the FIFO in the order they were written.
\<close>

theorem fdc_command_framing:
  assumes "fsys_wf s" and "fifondx (the_fdc s) = 0"
    and "fdc_cmd_len b = Some (int (Suc (length bs)))"
  shows "handler_run floppy_hdl (fifo_writes (b # bs)) s =
    ebind (doExecuteCommand (on_fdc (fdc_load (b # bs)) s))
      (\<lambda>_ s'. ret (replicate (Suc (length bs)) 0) s')"
  using assms by (rule fdc_framing)

text \<open>Reading result bytes: the last one lowers the interrupt and leaves the result phase.\<close>

abbreviation fifo_reads :: "nat \<Rightarrow> access list" where
  "fifo_reads k \<equiv> replicate k (In8 0x3F5)"

abbreviation fdc_idle :: "fdc \<Rightarrow> fdc" where
  "fdc_idle f \<equiv> f\<lparr>msr := 0xA0, fifondx := 0\<rparr>"

lemma fifo_reads_run:
  assumes "length (fifo (the_fdc s)) = 522" and "fifondx (the_fdc s) = int i" and "0 < k"
    and "fifolen (the_fdc s) = int (i + k)" and "i + k \<le> 522"
  shows "handler_run floppy_hdl (fifo_reads k) s =
    emit [Irq_Set 6 0] (map ucast (take k (drop i (fifo (the_fdc s))))) (on_fdc fdc_idle s)"
  using assms
proof (induction k arbitrary: s i)
  case 0
  then show ?case by simp
next
  case (Suc k)
  let ?f = "the_fdc s"
  have d: "drop i (fifo ?f) = fifo ?f ! i # drop (Suc i) (fifo ?f)"
    using Suc.prems by (simp add: Cons_nth_drop_Suc)
  show ?case
  proof (cases "k = 0")
    case True
    with Suc.prems show ?thesis
      by (simp add: fifo_get_def in_range_def Let_def d)
  next
    case False
    let ?s = "on_fdc (\<lambda>f. f\<lparr>fifondx := int (Suc i)\<rparr>) s"
    have "handler_run floppy_hdl (fifo_reads k) ?s =
        emit [Irq_Set 6 0] (map ucast (take k (drop (Suc i) (fifo (the_fdc ?s))))) (on_fdc fdc_idle ?s)"
      by (rule Suc.IH) (use Suc.prems False in \<open>auto simp: on_fdc_def\<close>)
    with Suc.prems False show ?thesis
      by (simp add: fifo_get_def in_range_def Let_def d on_fdc_def add.commute)
  qed
qed

text \<open>A controller with an image and a fresh buffer, before the guest's first access.\<close>

definition floppy_boot :: "uint8 list \<Rightarrow> fsys" where
  "floppy_boot img = \<lparr> the_fdc = x86_floppy_init (Some img) (replicate 65536 0),
     the_dma = dma_zero, the_mem = lowmem_zero \<rparr>"

lemma floppy_boot_wf: "fsys_wf (floppy_boot img)"
  by (simp add: fsys_wf_def floppy_boot_def fdc_wf_init dma_wf_zero lowmem_wf_zero)

lemma floppy_boot_simps [simp]:
  "fifondx (the_fdc (floppy_boot img)) = 0" "fdc_in (the_fdc (floppy_boot img)) = Some img"
  "the_dma (floppy_boot img) = dma_zero" "the_mem (floppy_boot img) = lowmem_zero"
  by (simp_all add: floppy_boot_def x86_floppy_init_def fdc_doReset_def)

theorem fdc_command_framing_witness:
  "handler_run floppy_hdl (fifo_writes [0x0F, 0, 5]) (floppy_boot []) =
    ebind (doExecuteCommand (on_fdc (fdc_load [0x0F, 0, 5]) (floppy_boot [])))
      (\<lambda>_ s'. ret [0, 0, 0] s')"
  using fdc_command_framing [OF floppy_boot_wf, of "[]" "0x0F" "[0, 5]"]
  by (simp add: fdc_cmd_len_def)

subsection \<open>Seeking\<close>

lemma fsys_wf_fdc: "fsys_wf s \<Longrightarrow> length (fifo (the_fdc s)) = 522 \<and> st (the_fdc s) = [0, 0, 0]"
  by (simp add: fsys_wf_def fdc_wf_def)

lemma fdc_load_len: "fsys_wf s \<Longrightarrow> length cmd \<le> 522 \<Longrightarrow> length (fifo (fdc_load cmd (the_fdc s))) = 522"
  by (simp add: fsys_wf_def fdc_wf_def fdc_load_def)

lemma sense_run:
  assumes "fsys_wf s" and "fifondx (the_fdc s) = 0"
  shows "\<exists>s'. handler_run floppy_hdl (fifo_writes [0x08] @ fifo_reads 2) s =
      emit [Irq_Set 6 0, Irq_Set 6 0] [0, 0, ucast (pos_cyl (the_fdc s))] s' \<and>
    fifondx (the_fdc s') = 0 \<and> pos_cyl (the_fdc s') = pos_cyl (the_fdc s) \<and>
    pos_head (the_fdc s') = pos_head (the_fdc s)"
proof -
  let ?l = "fdc_load [0x08] (the_fdc s)"
  let ?f = "fifo_store [0, pos_cyl (the_fdc s)]
      (?l\<lparr>msr := MSR_RQM OR MSR_DIO, fifolen := 2, fifondx := 0\<rparr>)"
  let ?s = "s\<lparr>the_fdc := ?f\<rparr>"
  have len: "fdc_cmd_len 0x08 = Some (int (Suc (length ([] :: uint8 list))))"
    by (simp add: fdc_cmd_len_def)
  have w: "handler_run floppy_hdl (fifo_writes [0x08]) s = emit [Irq_Set 6 0] [0] ?s"
    unfolding fdc_framing [OF assms len]
    using assms(1)
    by (simp add: doExecuteCommand_def on_fdc_def fdc_load_def fsys_wf_def fdc_wf_def)
  have fifo: "length (fifo ?f) = 522" "take 2 (fifo ?f) = [0, pos_cyl (the_fdc s)]"
    using assms(1) by (simp_all add: fsys_wf_def fdc_wf_def fdc_load_def fifo_store_def)
  have "handler_run floppy_hdl (fifo_reads 2) ?s =
      emit [Irq_Set 6 0] (map ucast (take 2 (drop 0 (fifo (the_fdc ?s))))) (on_fdc fdc_idle ?s)"
    by (rule fifo_reads_run) (use fifo in \<open>simp_all add: fifo_store_def\<close>)
  then have "handler_run floppy_hdl (fifo_reads 2) ?s =
      emit [Irq_Set 6 0] [0, ucast (pos_cyl (the_fdc s))] (on_fdc fdc_idle ?s)"
    using fifo by simp
  from run_with_append_emit [OF w this] show ?thesis
    by (auto simp: on_fdc_def fifo_store_def fdc_load_def)
qed

text \<open>
  C34: seek and sense interrupt. Seeking to a cylinder raises the drive's interrupt; the
  sense-interrupt command that follows lowers it and reports status 0 and the cylinder the
  heads are on, after which the controller is idle again, with the interrupt line low.
\<close>

theorem fdc_seek_then_sense:
  assumes "fsys_wf s" and "fifondx (the_fdc s) = 0"
  shows "\<exists>s'. handler_run floppy_hdl
      (fifo_writes [0x0F, hd_us, c] @ fifo_writes [0x08] @ fifo_reads 2) s
        = emit [Irq_Set 6 1, Irq_Set 6 0, Irq_Set 6 0] [0, 0, 0, 0, 0, ucast c] s' \<and>
      fifondx (the_fdc s') = 0 \<and> pos_cyl (the_fdc s') = c \<and>
      pos_head (the_fdc s') = drop_bit 2 hd_us"
proof -
  let ?s1 = "on_fdc (\<lambda>f. f\<lparr>pos_head := drop_bit 2 hd_us, pos_cyl := c, fifolen := 0, fifondx := 0,
      msr := 0xA0\<rparr>) (on_fdc (fdc_load [0x0F, hd_us, c]) s)"
  have len: "fdc_cmd_len 0x0F = Some (int (Suc (length [hd_us, c])))"
    by (simp add: fdc_cmd_len_def)
  have seek: "handler_run floppy_hdl (fifo_writes [0x0F, hd_us, c]) s =
      emit [Irq_Set 6 1] [0, 0, 0] ?s1"
    unfolding fdc_framing [OF assms len]
    by (simp add: doExecuteCommand_def on_fdc_def fdc_load_def)
  have wf1: "fsys_wf ?s1"
    using floppy.run_inv [OF assms(1) seek [unfolded emit_def]] .
  obtain s' where s': "handler_run floppy_hdl (fifo_writes [0x08] @ fifo_reads 2) ?s1 =
      emit [Irq_Set 6 0, Irq_Set 6 0] [0, 0, ucast (pos_cyl (the_fdc ?s1))] s'"
    "fifondx (the_fdc s') = 0" "pos_cyl (the_fdc s') = pos_cyl (the_fdc ?s1)"
    "pos_head (the_fdc s') = pos_head (the_fdc ?s1)"
    using sense_run [OF wf1] by (auto simp: on_fdc_def)
  from run_with_append_emit [OF seek s'(1)] s'(2-4) show ?thesis
    by (intro exI [of _ s']) (simp add: on_fdc_def)
qed

theorem fdc_seek_then_sense_witness:
  "\<exists>s'. handler_run floppy_hdl
      (fifo_writes [0x0F, 0, 39] @ fifo_writes [0x08] @ fifo_reads 2) (floppy_boot [])
        = emit [Irq_Set 6 1, Irq_Set 6 0, Irq_Set 6 0] [0, 0, 0, 0, 0, 39] s' \<and>
      pos_cyl (the_fdc s') = 39"
proof -
  have "ucast (39 :: uint8) = (39 :: uint32)" by simp
  with fdc_seek_then_sense [OF floppy_boot_wf floppy_boot_simps(1), where hd_us = 0 and c = 39]
  show ?thesis by metis
qed

subsection \<open>Sector numbers\<close>

lemma unat_chs_to_lba:
  assumes "1 \<le> k" and "c < 256" and "h < 256" and "k < 256"
  shows "unat (chs_to_lba (int c) (int h) (int k)) = c * 36 + h * 18 + (k - 1)"
proof -
  have e: "chs_to_lba (int c) (int h) (int k) = of_nat (c * 36 + h * 18 + (k - 1))"
    using assms(1) by (simp add: chs_to_lba_def of_nat_diff)
  show ?thesis
    unfolding e unat_of_nat by (rule mod_less) (use assms in simp)
qed

lemma chs_split:
  assumes "z < 18"
  shows "h < 2 \<Longrightarrow> (c * 36 + h * 18 + z) mod 36 div 18 = (h :: nat)"
    and "(c * 36 + h * 18 + z) mod 18 = z"
    and "h < 2 \<Longrightarrow> (c * 36 + h * 18 + z) div 36 = c"
proof -
  have e: "c * 36 + h * 18 + z = (h * 18 + z) + c * 36" by simp
  show "(c * 36 + h * 18 + z) mod 18 = z"
  proof -
    have "c * 36 + h * 18 + z = z + (c * 2 + h) * 18" by simp
    then show ?thesis using assms by (simp only: mod_mult_self1 mod_less)
  qed
  assume h: "h < 2"
  then have l: "h * 18 + z < 36" using assms by simp
  have d: "(h * 18 + z) div 18 = h" using assms by simp
  show "(c * 36 + h * 18 + z) mod 36 div 18 = h"
    unfolding e using l d by (simp only: mod_mult_self1 mod_less)
  show "(c * 36 + h * 18 + z) div 36 = c"
    unfolding e using l by simp
qed

text \<open>
  C31: sector numbering. On the geometry of the disk (80 cylinders, 2 heads, 18 sectors,
  counted from 1) the translation from cylinder, head and sector to a sector number is a
  bijection onto the 2880 sectors of the image.
\<close>

theorem chs_to_lba_bijection:
  "bij_betw (\<lambda>(c, h, k). unat (chs_to_lba (int c) (int h) (int k)))
     ({0..<80} \<times> {0..<2} \<times> {1..18}) {0..<2880}"
proof (rule bij_betw_byWitness [where f' = "\<lambda>n. (n div 36, n mod 36 div 18, n mod 18 + 1)"])
  show "\<forall>x \<in> {0..<80} \<times> {0..<2} \<times> {1..18}. (\<lambda>n. (n div 36, n mod 36 div 18, n mod 18 + 1))
      ((\<lambda>(c, h, k). unat (chs_to_lba (int c) (int h) (int k))) x) = x"
    by (auto simp only: atLeastLessThan_iff atLeastAtMost_iff mem_Times_iff fst_conv snd_conv
        split_paired_all prod.case unat_chs_to_lba chs_split)
  show "\<forall>n \<in> {0..<2880}. (\<lambda>(c, h, k). unat (chs_to_lba (int c) (int h) (int k)))
      (n div 36, n mod 36 div 18, n mod 18 + 1) = n"
  proof
    fix n :: nat assume n: "n \<in> {0..<2880}"
    have "n mod 36 < 36" "n mod 18 < 18" by simp_all
    then have "n mod 36 div 18 < 256" "n mod 18 + 1 < 256" "n div 36 < 256" using n by auto
    then have "unat (chs_to_lba (int (n div 36)) (int (n mod 36 div 18)) (int (n mod 18 + 1))) =
        n div 36 * 36 + n mod 36 div 18 * 18 + (n mod 18 + 1 - 1)"
      by (intro unat_chs_to_lba) simp_all
    also have "\<dots> = n div 36 * 36 + (n mod 36 div 18 * 18 + n mod 36 mod 18)"
      by (simp add: mod_mod_cancel)
    also have "\<dots> = n" by (simp only: div_mult_mod_eq)
    finally show "(\<lambda>(c, h, k). unat (chs_to_lba (int c) (int h) (int k)))
      (n div 36, n mod 36 div 18, n mod 18 + 1) = n" by simp
  qed
  show "(\<lambda>(c, h, k). unat (chs_to_lba (int c) (int h) (int k))) `
      ({0..<80} \<times> {0..<2} \<times> {1..18}) \<subseteq> {0..<2880}"
    by (auto simp: unat_chs_to_lba)
  show "(\<lambda>n. (n div 36, n mod 36 div 18, n mod 18 + 1)) ` {0..<2880}
      \<subseteq> {0..<80} \<times> {0..<2} \<times> {1..(18::nat)}"
    by (auto simp: less_mult_imp_div_less)
qed

subsection \<open>Reading sectors\<close>

text \<open>What the read command itself does, before its result is fetched.\<close>

lemma unat_chs_offset:
  assumes "1 \<le> unat (sec :: uint8)"
  shows "unat (chs_to_lba (uint (c :: uint8)) (uint (h :: uint8)) (uint sec) * 512) =
    512 * (unat c * 36 + unat h * 18 + (unat sec - 1))"
proof -
  have "unat (chs_to_lba (uint c) (uint h) (uint sec)) = unat c * 36 + unat h * 18 + (unat sec - 1)"
    using unat_chs_to_lba [of "unat sec" "unat c" "unat h"] assms unat_byte by simp
  moreover have "unat c * 36 + unat h * 18 + (unat sec - 1) < 15000"
    using unat_byte [of c] unat_byte [of h] unat_byte [of sec] by linarith
  ultimately show ?thesis by (simp add: unat_word_ariths)
qed

lemma dma_transfer_buffer:
  assumes "dma_wf d" and "lowmem_wf m" and "length buf = 65536" and "length got = dma_count_nat d + 1"
    and "dma_dest_nat d + length got \<le> 0xA0000" and "length got \<le> 65536"
  shows "dma_transfer_from_device 2 (overlay buf got) l d m =
    Inr (m\<lparr>low0 := take (dma_dest_nat d) (low0 m) @ got @ drop (dma_dest_nat d + length got) (low0 m)\<rparr>)"
proof -
  have "dma_transfer_from_device 2 (overlay buf got) l d m =
    Inr (m\<lparr>low0 := take (dma_dest_nat d) (low0 m) @ take (dma_count_nat d + 1) (overlay buf got) @
      drop (dma_dest_nat d + dma_count_nat d + 1) (low0 m)\<rparr>)"
    by (rule dma_transfer_guest) (use assms in \<open>simp_all add: overlay_def\<close>)
  moreover have "take (dma_count_nat d + 1) (overlay buf got) = got"
    by (rule take_overlay) (rule assms(4) [symmetric])
  ultimately show ?thesis using assms(4) by simp
qed

text \<open>
  Reading sectors into guest memory. In the idle state, with an image and a channel
  programmed for \<open>n\<close> sectors and a destination below 640 KB, the nine bytes of a read
  command followed by the seven reads of its result copy exactly the \<open>n\<close> sectors from the
  sector addressed by cylinder, head and sector number to the destination, change nothing
  else in guest memory, raise the interrupt and lower it with the last result byte, and
  leave the controller idle.
\<close>

theorem fdc_read_sectors:
  assumes wf: "fsys_wf s" and idle: "fifondx (the_fdc s) = 0"
    and img: "fdc_in (the_fdc s) = Some img"
    and cmd: "cmd AND 0xF = 6" and n: "0 < n" "n \<le> 128"
    and cnt: "dma_count_nat (the_dma s) + 1 = 512 * n"
    and dst: "dma_dest_nat (the_dma s) + 512 * n \<le> 0xA0000"
    and sec: "1 \<le> unat sec"
    and inside: "512 * (unat c * 36 + unat h * 18 + (unat sec - 1)) + 512 * n \<le> length img"
  shows "\<exists>s'. handler_run floppy_hdl
      (fifo_writes [cmd, us, c, h, sec, sz, of_nat n, gap, dtl] @ fifo_reads 7) s
        = emit [Irq_Set 6 1, Irq_Set 6 0]
            (replicate 9 0 @ [0, 0, 0, ucast c, ucast h, ucast (pos_sect (the_fdc s)), 2]) s' \<and>
      low0 (the_mem s') = take (dma_dest_nat (the_dma s)) (low0 (the_mem s)) @
         file_read img (512 * (unat c * 36 + unat h * 18 + (unat sec - 1))) (512 * n) @
         drop (dma_dest_nat (the_dma s) + 512 * n) (low0 (the_mem s)) \<and>
      low1 (the_mem s') = low1 (the_mem s) \<and>
      msr (the_fdc s') = 0xA0 \<and> fifondx (the_fdc s') = 0"
proof -
  let ?cmd = "[cmd, us, c, h, sec, sz, of_nat n, gap, dtl]"
  let ?lba = "unat c * 36 + unat h * 18 + (unat sec - 1)"
  let ?l = "fdc_load ?cmd (the_fdc s)"
  let ?got = "file_read img (512 * ?lba) (512 * n)"
  let ?dst = "dma_dest_nat (the_dma s)"
  let ?buf = "overlay (pDMABuffer (the_fdc s)) ?got"
  let ?m = "(the_mem s)\<lparr>low0 := take ?dst (low0 (the_mem s)) @ ?got @
      drop (?dst + 512 * n) (low0 (the_mem s))\<rparr>"
  let ?f3 = "?l\<lparr>pos_cyl := c, pos_head := h, pDMABuffer := ?buf,
      msr := MSR_RQM OR MSR_DIO, fifolen := 7, fifondx := 0\<rparr>"
  let ?f = "fifo_store (fdc_result ?f3) ?f3"
  have nn: "unat (of_nat n :: uint8) = n"
    unfolding unat_of_nat by (rule mod_less) (use n in simp)
  have got: "length ?got = 512 * n" using inside by (simp add: file_read_def)
  have fifo: "length (fifo (the_fdc s)) = 522" "st (the_fdc s) = [0, 0, 0]"
    "length (pDMABuffer (the_fdc s)) = 65536" using wf by (simp_all add: fsys_wf_def fdc_wf_def)
  have tr: "dma_transfer_from_device 2 ?buf (of_nat (512 * n)) (the_dma s) (the_mem s) = Inr ?m"
    by (rule dma_transfer_buffer [of "the_dma s" "the_mem s" "pDMABuffer (the_fdc s)" ?got, unfolded got])
       (use wf dst cnt n fifo(3) in \<open>simp_all add: fsys_wf_def\<close>)
  have len: "fdc_cmd_len cmd = Some (int (Suc (length [us, c, h, sec, sz, of_nat n, gap, dtl])))"
    using cmd by (simp add: fdc_cmd_len_def)
  have ex: "doExecuteCommand (on_fdc (fdc_load ?cmd) s) =
      emit [Irq_Set 6 1] () (s\<lparr>the_fdc := ?f, the_mem := ?m\<rparr>)"
    using tr cmd n
    by (simp add: doExecuteCommand_def fdc_read_data_def on_fdc_def Let_def fdc_load_def img nn
        unat_chs_offset [OF sec])
  have w: "handler_run floppy_hdl (fifo_writes ?cmd) s =
      emit [Irq_Set 6 1] (replicate 9 0) (s\<lparr>the_fdc := ?f, the_mem := ?m\<rparr>)"
    unfolding fdc_framing [OF wf idle len] ex by (simp add: eval_nat_numeral)
  have res: "length (fifo ?f) = 522"
    "take 7 (fifo ?f) = [0, 0, 0, c, h, pos_sect (the_fdc s), 2]"
    using fifo by (simp_all add: fdc_load_def fifo_store_def fdc_result_def)
  have r: "handler_run floppy_hdl (fifo_reads 7) (s\<lparr>the_fdc := ?f, the_mem := ?m\<rparr>) =
      emit [Irq_Set 6 0] (map ucast (take 7 (drop 0 (fifo (the_fdc (s\<lparr>the_fdc := ?f, the_mem := ?m\<rparr>))))))
        (on_fdc fdc_idle (s\<lparr>the_fdc := ?f, the_mem := ?m\<rparr>))"
    by (rule fifo_reads_run) (use res in \<open>simp_all add: fifo_store_def\<close>)
  show ?thesis
    using run_with_append_emit [OF w r] res by (simp add: on_fdc_def)
qed

theorem fdc_read_sectors_witness:
  "\<exists>s'. handler_run floppy_hdl
      (fifo_writes [0xE6, 0, 0, 0, 1, 2, 1, 27, 255] @ fifo_reads 7)
      ((floppy_boot (replicate 1024 0x55))\<lparr>the_dma := dma_at 0x7C00 511\<rparr>)
    = emit [Irq_Set 6 1, Irq_Set 6 0] (replicate 9 0 @ [0, 0, 0, 0, 0, 1, 2]) s' \<and>
    low1 (the_mem s') = low1 lowmem_zero"
proof -
  let ?s = "(floppy_boot (replicate 1024 0x55))\<lparr>the_dma := dma_at 0x7C00 511\<rparr>"
  have wf: "fsys_wf ?s"
    using floppy_boot_wf [of "replicate 1024 0x55"] by (simp add: fsys_wf_def dma_at_wf)
  have "dma_count_nat (dma_at 0x7C00 511) = 511" "dma_dest_nat (dma_at 0x7C00 511) = 0x7C00"
    by (simp_all add: dma_at_nat)
  moreover have "pos_sect (the_fdc ?s) = 1"
    by (simp add: floppy_boot_def x86_floppy_init_def fdc_doReset_def)
  ultimately show ?thesis
    using fdc_read_sectors [OF wf, of "replicate 1024 0x55" "0xE6" 1 1 0 0 0 2 27 255]
    by simp metis
qed

subsection \<open>Running off the FIFO\<close>

text \<open>
  Bytes written while a result is half read are stored behind it; each of them executes
  the byte at index 0 again, which is then status 0, no command.
\<close>

lemma doExecuteCommand_none:
  assumes "fifo (the_fdc s) ! 0 = 0"
  shows "doExecuteCommand s = ret () s"
proof -
  have "(0 :: uint8) \<noteq> 6" "(0 :: uint8) \<noteq> 7" "(0 :: uint8) \<noteq> 8" "(0 :: uint8) \<noteq> 0xA"
    "(0 :: uint8) \<noteq> 0xF" by simp_all
  moreover have "(0 :: uint8) AND 0xF = 0" by simp
  ultimately show ?thesis using assms by (simp only: doExecuteCommand_def Let_def if_False)
qed

lemma fifo_stray:
  assumes "length (fifo (the_fdc s)) = 522" and "fifondx (the_fdc s) = int i" and "0 < i"
    and "fifolen (the_fdc s) \<le> int i + 1" and "fifo (the_fdc s) ! 0 = 0"
    and "i + length bs \<le> 522"
  shows "\<exists>s'. handler_run floppy_hdl (fifo_writes bs) s = emit [] (replicate (length bs) 0) s' \<and>
    length (fifo (the_fdc s')) = 522 \<and> fifondx (the_fdc s') = int (i + length bs)"
  using assms
proof (induction bs arbitrary: s i)
  case Nil
  then show ?case by simp
next
  case (Cons b bs)
  let ?f = "the_fdc s"
  let ?s = "s\<lparr>the_fdc := ?f\<lparr>fifo := (fifo ?f)[i := b], fifondx := int (Suc i)\<rparr>\<rparr>"
  have "fifo_write b s = ret () ?s"
    using Cons.prems
    by (simp add: fifo_write_def fifo_put_def in_range_def Let_def doExecuteCommand_none add.commute)
  moreover have "\<exists>s'. handler_run floppy_hdl (fifo_writes bs) ?s =
      emit [] (replicate (length bs) 0) s' \<and>
      length (fifo (the_fdc s')) = 522 \<and> fifondx (the_fdc s') = int (Suc i + length bs)"
    by (rule Cons.IH) (use Cons.prems in auto)
  ultimately show ?case by auto
qed

text \<open>
  C28: the guest can write past the end of the FIFO. After a sense-interrupt command of
  which only one of the two result bytes is read, every further byte written to the data
  port is stored at the next index without ever being refused: 521 bytes fill the array
  of 522, and the byte after them is written outside it.
\<close>

theorem fdc_fifo_overflow:
  assumes "fsys_wf s" and "fifondx (the_fdc s) = 0" and "length bs = 521"
  shows "\<exists>s'. handler_run floppy_hdl ([Out8 0x3F5 8, In8 0x3F5] @ fifo_writes bs) s =
      emit [Irq_Set 6 0] (replicate 523 0) s' \<and>
    handler_access floppy_hdl (Out8 0x3F5 b) s' = Inl Wild_Access"
proof -
  have f: "length (fifo (the_fdc s)) = 522" "st (the_fdc s) = [0, 0, 0]"
    using assms(1) by (simp_all add: fsys_wf_def fdc_wf_def)
  then obtain x xs where x: "fifo (the_fdc s) = x # xs" by (cases "fifo (the_fdc s)") auto
  have "\<exists>s1. handler_run floppy_hdl [Out8 0x3F5 8, In8 0x3F5] s = emit [Irq_Set 6 0] [0, 0] s1 \<and>
      length (fifo (the_fdc s1)) = 522 \<and> fifondx (the_fdc s1) = int 1 \<and>
      fifolen (the_fdc s1) \<le> int 1 + 1 \<and> fifo (the_fdc s1) ! 0 = 0"
    using assms(2) f x
    by (simp add: fifo_write_def fifo_put_def fifo_get_def fdc_cmd_len_def in_range_def Let_def
        doExecuteCommand_def on_fdc_def fifo_store_def ebind_emit)
  then obtain s1 where s1: "handler_run floppy_hdl [Out8 0x3F5 8, In8 0x3F5] s =
      emit [Irq_Set 6 0] [0, 0] s1"
    "length (fifo (the_fdc s1)) = 522" "fifondx (the_fdc s1) = int 1"
    "fifolen (the_fdc s1) \<le> int 1 + 1" "fifo (the_fdc s1) ! 0 = 0" by blast
  obtain s' where s': "handler_run floppy_hdl (fifo_writes bs) s1 = emit [] (replicate 521 0) s'"
    "length (fifo (the_fdc s')) = 522" "fifondx (the_fdc s') = int 522"
    using fifo_stray [OF s1(2,3) _ s1(4,5), of bs] assms(3) by auto
  have "replicate 523 (0 :: uint32) = [0, 0] @ replicate 521 0"
    by (rule nth_equalityI) (auto simp: nth_append nth_Cons')
  with run_with_append_emit [OF s1(1) s'(1)] s'(2,3) show ?thesis
    by (intro exI [of _ s']) (simp add: fifo_write_def fifo_put_def in_range_def Let_def)
qed

theorem fdc_fifo_overflow_witness:
  "\<exists>s'. handler_run floppy_hdl ([Out8 0x3F5 8, In8 0x3F5] @ fifo_writes (replicate 521 0))
      (floppy_boot []) = emit [Irq_Set 6 0] (replicate 523 0) s' \<and>
    handler_access floppy_hdl (Out8 0x3F5 1) s' = Inl Wild_Access"
  by (rule fdc_fifo_overflow [OF floppy_boot_wf floppy_boot_simps(1)]) simp

end
