(* ===== verification/Pci.thy ===== *)
theory Pci
  imports Io_Bus
begin

text \<open>
  The PCI host bridge, \<^verbatim>\<open>pci.c\<close> and \<^verbatim>\<open>include/pci.h\<close>: configuration mechanism 1 on ports
  \<open>0xCF8\<close> to \<open>0xCFF\<close> over a table of registered functions. A registered function is a
  pointer to a record outside this file (type \<open>'p\<close>); the bridge writes its bus address into
  that record and calls the six configuration accessors in it. The state is the bridge's
  own together with the state the accessors work on.
  The locale \<open>pci_function\<close> is the contract of a function's accessors: they keep the
  owner's invariant, and reads of its configuration space return and change nothing.
\<close>

subsection \<open>Functions\<close>

record 's pci_ops =
  cfg_readb :: "(int \<Rightarrow> 's \<Rightarrow> ('s, uint8) effect) option"
  cfg_readw :: "(int \<Rightarrow> 's \<Rightarrow> ('s, uint16) effect) option"
  cfg_readl :: "(int \<Rightarrow> 's \<Rightarrow> ('s, uint32) effect) option"
  cfg_writeb :: "(int \<Rightarrow> uint8 \<Rightarrow> 's \<Rightarrow> ('s, unit) effect) option"
  cfg_writew :: "(int \<Rightarrow> uint16 \<Rightarrow> 's \<Rightarrow> ('s, unit) effect) option"
  cfg_writel :: "(int \<Rightarrow> uint32 \<Rightarrow> 's \<Rightarrow> ('s, unit) effect) option"

text \<open>
  \<^verbatim>\<open>pcidev_config_t\<close> is packed; the devices access it by byte offset and by field name, so
  the model keeps its bytes: 64 of the header and 240 of padding.
\<close>

definition pci_conf_size :: nat where
  "pci_conf_size = 64 + 4 * 60"

definition PCI_CFG_REG_BAR0 :: int where "PCI_CFG_REG_BAR0 = 0x10"
definition PCI_CFG_REG_EXPROM :: int where "PCI_CFG_REG_EXPROM = 0x30"

definition pcidev_config :: "uint16 \<Rightarrow> uint16 \<Rightarrow> uint16 \<Rightarrow> uint16 \<Rightarrow> uint32 \<Rightarrow> uint32 \<Rightarrow> uint8 list" where
  "pcidev_config vendorid deviceid commandreg statusreg classandrev expansionrom =
     le_bytes 2 vendorid @ le_bytes 2 deviceid @ le_bytes 2 commandreg @ le_bytes 2 statusreg @
     le_bytes 4 classandrev @ replicate 36 0 @ le_bytes 4 expansionrom @ replicate (12 + 240) 0"

lemma length_pcidev_config [simp]: "length (pcidev_config v d c t k x) = pci_conf_size"
  by (simp add: pcidev_config_def pci_conf_size_def)

definition conf_read :: "nat \<Rightarrow> int \<Rightarrow> uint8 list \<Rightarrow> fault + 'a::len word" where
  "conf_read n reg conf = rbind (rd_bytes conf reg n) (\<lambda>bs. Inr (le_word bs))"

definition conf_write :: "nat \<Rightarrow> int \<Rightarrow> 'a::len word \<Rightarrow> uint8 list \<Rightarrow> fault + uint8 list" where
  "conf_write n reg v conf = wr_bytes conf reg (le_bytes n v)"

lemma conf_read_ok:
  "length conf = pci_conf_size \<Longrightarrow> 0 \<le> reg \<Longrightarrow> reg \<le> 262 \<Longrightarrow> n \<le> 4 \<Longrightarrow>
     conf_read n reg conf = Inr (le_word (take n (drop (nat reg) conf)))"
  by (simp add: conf_read_def rd_bytes_def in_range_def pci_conf_size_def)

lemma conf_write_length: "conf_write n reg v conf = Inr conf' \<Longrightarrow> length conf' = length conf"
  by (auto simp: conf_write_def dest: wr_bytes_length)

text \<open>A double word written to the configuration space is read back from the same place.\<close>

lemma conf_read_write_4:
  "conf_write 4 reg (v :: uint32) conf = Inr conf' \<Longrightarrow> conf_read 4 reg conf' = Inr v"
  using rd_wr_bytes_same [of conf reg "le_bytes 4 v" conf']
  by (simp add: conf_read_def conf_write_def)

locale pci_function =
  fixes ops :: "'s pci_ops" and inv :: "'s \<Rightarrow> bool"
  assumes cfg_readb_pure: "cfg_readb ops = Some f1 \<Longrightarrow> inv s \<Longrightarrow> 0 \<le> reg \<Longrightarrow> reg \<le> 258 \<Longrightarrow>
      \<exists>v. f1 reg s = ret v s"
    and cfg_readw_pure: "cfg_readw ops = Some f2 \<Longrightarrow> inv s \<Longrightarrow> 0 \<le> reg \<Longrightarrow> reg \<le> 258 \<Longrightarrow>
      \<exists>v. f2 reg s = ret v s"
    and cfg_readl_pure: "cfg_readl ops = Some f3 \<Longrightarrow> inv s \<Longrightarrow> 0 \<le> reg \<Longrightarrow> reg \<le> 258 \<Longrightarrow>
      \<exists>v. f3 reg s = ret v s"
    and cfg_read_inv:
      "cfg_readb ops = Some f1 \<Longrightarrow> inv s \<Longrightarrow> f1 reg s = Inr (v1, s', es) \<Longrightarrow> inv s'"
      "cfg_readw ops = Some f2 \<Longrightarrow> inv s \<Longrightarrow> f2 reg s = Inr (v2, s', es) \<Longrightarrow> inv s'"
      "cfg_readl ops = Some f3 \<Longrightarrow> inv s \<Longrightarrow> f3 reg s = Inr (v3, s', es) \<Longrightarrow> inv s'"
    and cfg_write_inv:
      "cfg_writeb ops = Some g1 \<Longrightarrow> inv s \<Longrightarrow> g1 reg v1 s = Inr (u, s', es) \<Longrightarrow> inv s'"
      "cfg_writew ops = Some g2 \<Longrightarrow> inv s \<Longrightarrow> g2 reg v2 s = Inr (u, s', es) \<Longrightarrow> inv s'"
      "cfg_writel ops = Some g3 \<Longrightarrow> inv s \<Longrightarrow> g3 reg v3 s = Inr (u, s', es) \<Longrightarrow> inv s'"
    and cfg_reads_exist: "cfg_readb ops \<noteq> None" "cfg_readw ops \<noteq> None" "cfg_readl ops \<noteq> None"

subsection \<open>The bridge\<close>

definition MAX_FPB :: nat where "MAX_FPB = 8 * 32"

text \<open>
  \<open>slots\<close> is the array of pointers, \<open>devs\<close> the counter that numbers the devices, and
  \<open>pci_addr p\<close> the bus, device and function numbers in the record \<open>p\<close> points to.
\<close>

record 'p pci_bus =
  configspace :: uint32
  pbus :: uint8
  pdev :: uint8
  pfn :: uint8
  pindex :: uint8
  devs :: int
  slots :: "'p option list"
  pci_addr :: "'p \<Rightarrow> uint8 \<times> uint8 \<times> uint8"

type_synonym ('p, 's) pci_sys = "'p pci_bus \<times> 's"

fun find_function :: "('p \<Rightarrow> bool) \<Rightarrow> 'p option list \<Rightarrow> 'p option" where
  "find_function P [] = None"
| "find_function P (None # xs) = find_function P xs"
| "find_function P (Some p # xs) = (if P p then Some p else find_function P xs)"

definition pci_getDevice :: "'p pci_bus \<Rightarrow> 'p option" where
  "pci_getDevice b = find_function (\<lambda>p. pci_addr b p = (pbus b, pdev b, pfn b)) (slots b)"

definition pci_bus_init :: "('p \<Rightarrow> uint8 \<times> uint8 \<times> uint8) \<Rightarrow> 'p pci_bus" where
  "pci_bus_init a = \<lparr> configspace = 0, pbus = 0, pdev = 0, pfn = 0, pindex = 0, devs = 0,
     slots = replicate MAX_FPB None, pci_addr = a \<rparr>"

definition pci_register_dev :: "int \<Rightarrow> 'p \<Rightarrow> 'p pci_bus \<Rightarrow> fault + int \<times> 'p pci_bus" where
  "pci_register_dev bus p b =
     (if bus = -1 then
        (case List.find (\<lambda>i. slots b ! i = None) [0..<MAX_FPB] of
           Some i \<Rightarrow> Inr (0, b\<lparr>slots := (slots b)[i := Some p],
              pci_addr := (pci_addr b)(p := (0, word_of_int (devs b), 0)), devs := devs b + 1\<rparr>)
         | None \<Rightarrow> Inr (-1, b))
      else Inl Assert_Failed)"

text \<open>The register an access to data port \<open>port\<close> addresses, an \<^verbatim>\<open>int\<close>.\<close>

definition cfg_reg :: "'p pci_bus \<Rightarrow> uint16 \<Rightarrow> int" where
  "cfg_reg b port = uint (pindex b) + uint port - 4"

definition pci_call :: "(int \<Rightarrow> 's \<Rightarrow> ('s, 'a) effect) option \<Rightarrow> uint16 \<Rightarrow> ('p, 's) pci_sys
    \<Rightarrow> (('p, 's) pci_sys, 'a) effect" where
  "pci_call fo port m = (case fo of None \<Rightarrow> Inl Null_Call
     | Some f \<Rightarrow> lift_effect snd (\<lambda>s m. (fst m, s)) (f (cfg_reg (fst m) port)) m)"

definition pci_inb :: "('p \<Rightarrow> 's pci_ops) \<Rightarrow> uint16 \<Rightarrow> ('p, 's) pci_sys
    \<Rightarrow> (('p, 's) pci_sys, uint8) effect" where
  "pci_inb ops port m =
     (if port \<ge> 4 then (case pci_getDevice (fst m) of None \<Rightarrow> ret 0xFF m
         | Some p \<Rightarrow> pci_call (cfg_readb (ops p)) port m)
      else assert_failed)"

definition pci_inw :: "('p \<Rightarrow> 's pci_ops) \<Rightarrow> uint16 \<Rightarrow> ('p, 's) pci_sys
    \<Rightarrow> (('p, 's) pci_sys, uint16) effect" where
  "pci_inw ops port m =
     (if port \<ge> 4 then (case pci_getDevice (fst m) of None \<Rightarrow> ret 0xFFFF m
         | Some p \<Rightarrow> pci_call (cfg_readw (ops p)) port m)
      else assert_failed)"

definition pci_inl :: "('p \<Rightarrow> 's pci_ops) \<Rightarrow> uint16 \<Rightarrow> ('p, 's) pci_sys
    \<Rightarrow> (('p, 's) pci_sys, uint32) effect" where
  "pci_inl ops port m =
     (let b = fst m in
      if port = 0 then
        ret (push_bit 31 (configspace b) OR push_bit 16 (ucast (pbus b AND 0x0F)) OR
             push_bit 11 (ucast (pdev b AND 0x1F)) OR ucast (pindex b AND 0xFF)) m
      else if port \<ge> 4 then (case pci_getDevice b of None \<Rightarrow> ret 0xFFFF m
         | Some p \<Rightarrow> pci_call (cfg_readl (ops p)) port m)
      else assert_failed)"

definition pci_outb :: "('p \<Rightarrow> 's pci_ops) \<Rightarrow> uint16 \<Rightarrow> uint8 \<Rightarrow> ('p, 's) pci_sys
    \<Rightarrow> (('p, 's) pci_sys, unit) effect" where
  "pci_outb ops port val m =
     (if port \<le> 3 then
        (if port = 3 then ret () ((fst m)\<lparr>pindex := (pindex (fst m) AND NOT 0xFF) OR val\<rparr>, snd m)
         else assert_failed)
      else (case pci_getDevice (fst m) of None \<Rightarrow> ret () m
         | Some p \<Rightarrow> pci_call (map_option (\<lambda>f reg. f reg val) (cfg_writeb (ops p))) port m))"

definition pci_outw :: "('p \<Rightarrow> 's pci_ops) \<Rightarrow> uint16 \<Rightarrow> uint16 \<Rightarrow> ('p, 's) pci_sys
    \<Rightarrow> (('p, 's) pci_sys, unit) effect" where
  "pci_outw ops port val m =
     (if port \<le> 3 then assert_failed
      else (case pci_getDevice (fst m) of None \<Rightarrow> ret () m
         | Some p \<Rightarrow>
            (if cfg_writew (ops p) \<noteq> None
             then pci_call (map_option (\<lambda>f reg. f reg val) (cfg_writew (ops p))) port m
             else assert_failed)))"

definition pci_outl :: "('p \<Rightarrow> 's pci_ops) \<Rightarrow> uint16 \<Rightarrow> uint32 \<Rightarrow> ('p, 's) pci_sys
    \<Rightarrow> (('p, 's) pci_sys, unit) effect" where
  "pci_outl ops port val m =
     (let b = fst m in
      if port = 0 then
        ret () (b\<lparr>configspace := drop_bit 31 val, pindex := ucast (val AND 0xFF),
           pbus := ucast (drop_bit 16 val AND 0x0F), pdev := ucast (drop_bit 11 val AND 0x1F),
           pfn := ucast (drop_bit 8 val AND 0x07)\<rparr>, snd m)
      else if configspace b = 1 then
        (case pci_getDevice b of None \<Rightarrow> ret () m
         | Some p \<Rightarrow> pci_call (map_option (\<lambda>f reg. f reg val) (cfg_writel (ops p))) port m)
      else assert_failed)"

definition pci_hdl :: "('p \<Rightarrow> 's pci_ops) \<Rightarrow> ('p, 's) pci_sys io_handler" where
  "pci_hdl ops = \<lparr> base = 0x0CF8, io_mask = NOT 7,
     inb = Some (pci_inb ops), inw = Some (pci_inw ops), inl = Some (pci_inl ops),
     outb = Some (pci_outb ops), outw = Some (pci_outw ops), outl = Some (pci_outl ops) \<rparr>"

lemmas pci_defs [dev_defs] =
  pci_inb_def pci_inw_def pci_inl_def pci_outb_def pci_outw_def pci_outl_def

lemma pci_hdl_simps [simp]:
  "base (pci_hdl ops) = 0xCF8"
  "inb (pci_hdl ops) = Some (pci_inb ops)" "outb (pci_hdl ops) = Some (pci_outb ops)"
  "inw (pci_hdl ops) = Some (pci_inw ops)" "outw (pci_hdl ops) = Some (pci_outw ops)"
  "inl (pci_hdl ops) = Some (pci_inl ops)" "outl (pci_hdl ops) = Some (pci_outl ops)"
  by (simp_all add: pci_hdl_def)

subsection \<open>The functions behind the bridge\<close>

text \<open>
  When every function keeps an invariant of the functions' state, so does the bridge, for
  any access; and configuration reads through the data ports never fault.
\<close>

locale pci_functions =
  fixes ops :: "'p \<Rightarrow> 's pci_ops" and inv :: "'s \<Rightarrow> bool"
  assumes each_function: "pci_function (ops p) inv"
begin

lemmas op_invs = pci_function.cfg_read_inv [OF each_function]
  pci_function.cfg_write_inv [OF each_function]

lemma call_invs:
  "pci_call (cfg_readb (ops p)) port (b, s) = Inr (v1, (b', s'), es) \<Longrightarrow> inv s \<Longrightarrow> inv s'"
  "pci_call (cfg_readw (ops p)) port (b, s) = Inr (v2, (b', s'), es) \<Longrightarrow> inv s \<Longrightarrow> inv s'"
  "pci_call (cfg_readl (ops p)) port (b, s) = Inr (v3, (b', s'), es) \<Longrightarrow> inv s \<Longrightarrow> inv s'"
  "pci_call (map_option (\<lambda>f reg. f reg x1) (cfg_writeb (ops p))) port (b, s) =
     Inr (u, (b', s'), es) \<Longrightarrow> inv s \<Longrightarrow> inv s'"
  "cfg_writew (ops p) = Some g \<Longrightarrow> pci_call (Some (\<lambda>reg. g reg x2)) port (b, s) =
     Inr (u, (b', s'), es) \<Longrightarrow> inv s \<Longrightarrow> inv s'"
  "pci_call (map_option (\<lambda>f reg. f reg x3) (cfg_writel (ops p))) port (b, s) =
     Inr (u, (b', s'), es) \<Longrightarrow> inv s \<Longrightarrow> inv s'"
  by (auto simp: pci_call_def lift_effect_Inr split: option.splits dest: op_invs)

lemma bridge: "port_device (pci_hdl ops) (\<lambda>m. inv (snd m))"
  by unfold_locales
     (auto simp: pci_defs Let_def split: if_splits option.splits dest: call_invs)

lemma call_pure:
  assumes "\<And>f reg. fo = Some f \<Longrightarrow> 0 \<le> reg \<Longrightarrow> reg \<le> 258 \<Longrightarrow> \<exists>v. f reg (snd m) = ret v (snd m)"
    and "4 \<le> port" and "port \<le> 7" and "fo \<noteq> None"
  shows "\<exists>v. pci_call fo port m = ret v m"
proof -
  obtain f where f: "fo = Some f" using assms(4) by blast
  have "uint (pindex (fst m)) < 256" "0 \<le> uint (pindex (fst m))"
    using unsigned_less [of "pindex (fst m)", where 'a = int] by simp_all
  moreover have "4 \<le> uint port" "uint port \<le> 7"
    using assms(2,3) by (simp_all add: word_le_def)
  ultimately have "0 \<le> cfg_reg (fst m) port" "cfg_reg (fst m) port \<le> 258"
    unfolding cfg_reg_def by linarith+
  then obtain v where "f (cfg_reg (fst m) port) (snd m) = ret v (snd m)" using assms(1) f by blast
  then show ?thesis by (auto simp: pci_call_def f lift_effect_def emit_def)
qed

lemma config_read_safe:
  assumes "inv (snd m)" and "4 \<le> port" and "port \<le> 7"
  shows "\<exists>v. pci_inb ops port m = ret v m" and "\<exists>v. pci_inw ops port m = ret v m"
    and "\<exists>v. pci_inl ops port m = ret v m"
proof -
  note fn = pci_function.cfg_readb_pure [OF each_function] pci_function.cfg_readw_pure [OF each_function]
    pci_function.cfg_readl_pure [OF each_function] pci_function.cfg_reads_exist [OF each_function]
  have "port \<noteq> 0" using assms(2) by auto
  with assms show "\<exists>v. pci_inb ops port m = ret v m" "\<exists>v. pci_inw ops port m = ret v m"
    "\<exists>v. pci_inl ops port m = ret v m"
    by (auto simp: pci_inb_def pci_inw_def pci_inl_def Let_def split: option.splits
        intro!: call_pure fn)
qed

end

subsection \<open>Lifting the accessors of a function to a larger state\<close>

definition lift_pci_ops :: "('m \<Rightarrow> 's) \<Rightarrow> ('s \<Rightarrow> 'm \<Rightarrow> 'm) \<Rightarrow> 's pci_ops \<Rightarrow> 'm pci_ops" where
  "lift_pci_ops get put ops = \<lparr>
     cfg_readb = map_option (\<lambda>f reg. lift_effect get put (f reg)) (cfg_readb ops),
     cfg_readw = map_option (\<lambda>f reg. lift_effect get put (f reg)) (cfg_readw ops),
     cfg_readl = map_option (\<lambda>f reg. lift_effect get put (f reg)) (cfg_readl ops),
     cfg_writeb = map_option (\<lambda>f reg v. lift_effect get put (f reg v)) (cfg_writeb ops),
     cfg_writew = map_option (\<lambda>f reg v. lift_effect get put (f reg v)) (cfg_writew ops),
     cfg_writel = map_option (\<lambda>f reg v. lift_effect get put (f reg v)) (cfg_writel ops) \<rparr>"

lemma lift_effect_pure:
  assumes "\<exists>v. f (get m) = ret v (get m)" and "put (get m) m = m"
  shows "\<exists>v. lift_effect get put f m = ret v m"
  using assms lift_effect_emit [of f get m] by metis

lemma pci_function_lift:
  assumes dev: "pci_function ops dinv"
    and get: "\<And>m. minv m \<Longrightarrow> dinv (get m)"
    and put: "\<And>m s. minv m \<Longrightarrow> dinv s \<Longrightarrow> minv (put s m)"
    and put_get: "\<And>m. put (get m) m = m"
  shows "pci_function (lift_pci_ops get put ops) minv"
proof -
  note pure = pci_function.cfg_readb_pure [OF dev] pci_function.cfg_readw_pure [OF dev]
    pci_function.cfg_readl_pure [OF dev]
  note keep = pci_function.cfg_read_inv [OF dev] pci_function.cfg_write_inv [OF dev]
  show ?thesis
    by (unfold_locales, auto simp: lift_pci_ops_def lift_effect_Inr put_get
          pci_function.cfg_reads_exist [OF dev] intro!: lift_effect_pure intro: pure get)
       (metis get put keep)+
qed

subsection \<open>Numbering the functions\<close>

text \<open>The bridge with the functions \<open>ps\<close> registered, in this order and no others.\<close>

definition pci_registered :: "'p list \<Rightarrow> 'p pci_bus \<Rightarrow> bool" where
  "pci_registered ps b \<longleftrightarrow> distinct ps \<and> length ps \<le> MAX_FPB \<and>
     slots b = map Some ps @ replicate (MAX_FPB - length ps) None \<and> devs b = int (length ps) \<and>
     (\<forall>k < length ps. pci_addr b (ps ! k) = (0, of_nat k, 0))"

lemma pci_registered_init: "pci_registered [] (pci_bus_init a)"
  by (simp add: pci_registered_def pci_bus_init_def)

lemma find_free_slot:
  "n < MAX_FPB \<Longrightarrow> length ps = n \<Longrightarrow>
    List.find (\<lambda>i. (map Some ps @ replicate (MAX_FPB - n) None) ! i = None) [0..<MAX_FPB] = Some n"
  unfolding find_Some_iff by (intro exI [of _ n]) (simp add: nth_append)

lemma pci_register_step:
  assumes r: "pci_registered ps b" and p: "p \<notin> set ps" and n: "length ps < MAX_FPB"
  shows "\<exists>b'. pci_register_dev (-1) p b = Inr (0, b') \<and> pci_registered (ps @ [p]) b'"
proof -
  have "replicate (MAX_FPB - length ps) None =
      None # replicate (MAX_FPB - Suc (length ps)) (None :: 'a option)"
    using n by (simp add: Suc_diff_Suc flip: replicate_Suc)
  then have "(map Some ps @ replicate (MAX_FPB - length ps) None)[length ps := Some p] =
      map Some (ps @ [p]) @ replicate (MAX_FPB - length (ps @ [p])) None"
    by (simp add: list_update_append)
  moreover have "ps ! k \<noteq> p" if "k < length ps" for k using p that by (metis nth_mem)
  ultimately show ?thesis
    using r p n find_free_slot [OF n refl]
    by (auto simp: pci_register_dev_def pci_registered_def nth_append less_Suc_eq)
qed

definition pci_register_all :: "'p list \<Rightarrow> 'p pci_bus \<Rightarrow> fault + 'p pci_bus" where
  "pci_register_all ps b =
     foldl (\<lambda>r p. rbind r (\<lambda>b. rbind (pci_register_dev (-1) p b) (\<lambda>x. Inr (snd x)))) (Inr b) ps"

lemma pci_register_all_ok:
  "distinct ps \<Longrightarrow> length ps \<le> MAX_FPB \<Longrightarrow>
     \<exists>b. pci_register_all ps (pci_bus_init a) = Inr b \<and> pci_registered ps b"
proof (induction ps rule: rev_induct)
  case Nil
  then show ?case by (simp add: pci_register_all_def pci_registered_init)
next
  case (snoc p ps)
  then obtain b where b: "pci_register_all ps (pci_bus_init a) = Inr b" "pci_registered ps b" by auto
  then obtain b' where "pci_register_dev (-1) p b = Inr (0, b')" "pci_registered (ps @ [p]) b'"
    using pci_register_step [OF b(2), of p] snoc.prems by auto
  with b(1) show ?case by (simp add: pci_register_all_def)
qed

lemma find_function_table:
  "find_function P (map Some ps @ replicate k None) = List.find P ps"
proof (induction ps)
  case Nil
  then show ?case by (induction k) simp_all
qed simp_all

lemma pci_registered_getDevice:
  assumes r: "pci_registered ps b"
  shows "pci_getDevice b = (if pbus b = 0 \<and> pfn b = 0 \<and> unat (pdev b) < length ps
     then Some (ps ! unat (pdev b)) else None)"
proof -
  let ?P = "\<lambda>p. pci_addr b p = (pbus b, pdev b, pfn b)"
  have n: "length ps \<le> 256" using r by (simp add: pci_registered_def MAX_FPB_def)
  have u: "unat (of_nat k :: uint8) = k" if "k < length ps" for k
    unfolding unat_of_nat by (rule mod_less) (use that n in simp)
  then have iff: "?P (ps ! k) \<longleftrightarrow> pbus b = 0 \<and> pfn b = 0 \<and> unat (pdev b) = k"
    if "k < length ps" for k
  proof -
    have "of_nat k = pdev b \<longleftrightarrow> unat (pdev b) = k" using u [OF that] by (metis word_unat_eq_iff)
    then show ?thesis using r that by (auto simp: pci_registered_def)
  qed
  have e: "pci_getDevice b = List.find ?P ps"
    using r by (simp add: pci_getDevice_def pci_registered_def find_function_table)
  show ?thesis
  proof (cases "pbus b = 0 \<and> pfn b = 0 \<and> unat (pdev b) < length ps")
    case True
    then have "List.find ?P ps = Some (ps ! unat (pdev b))"
      unfolding find_Some_iff by (intro exI [of _ "unat (pdev b)"]) (use iff in auto)
    with True show ?thesis by (simp add: e)
  next
    case False
    then have "List.find ?P ps = None"
      unfolding find_None_iff by (auto simp: in_set_conv_nth iff)
    with False show ?thesis by (simp add: e)
  qed
qed

lemma unat_ucast_take_bit:
  "k \<le> 8 \<Longrightarrow> unat (ucast (take_bit k x :: uint32) :: uint8) = unat (take_bit k x)"
  by (simp add: unsigned_ucast_eq unsigned_take_bit_eq)

lemma and_low_bits:
  "x AND 0xFF = take_bit 8 x" "x AND 0x1F = take_bit 5 x" "x AND 0xF = take_bit 4 x"
  "x AND 7 = (take_bit 3 x :: 'a::len word)"
  by (simp_all add: take_bit_eq_mask mask_eq_exp_minus_1)

text \<open>
  C18: the device scan. After registering a list of up to 32 distinct functions, an address written
  to port \<open>0xCF8\<close> selects one of them exactly when its function number is 0, its device number is
  below the number of functions and the low four bits of its bus number are 0: the one
  registered as that many-th. The code keeps four of the eight bits of the bus number, so the functions
  appear on the buses 0, 16, 32 and so on; every other address selects nothing.
\<close>

theorem pci_scan:
  assumes "distinct ps" and "length ps \<le> 32"
  shows "\<exists>b. pci_register_all ps (pci_bus_init a) = Inr b \<and>
    (\<forall>v s. \<exists>b'. handler_run (pci_hdl ops) [Out32 0xCF8 v] (b, s) = emit [] [0] (b', s) \<and>
       pci_getDevice b' =
         (let dv = unat (drop_bit 11 v AND 0x1F) in
          if drop_bit 16 v AND 0xF = 0 \<and> drop_bit 8 v AND 7 = 0 \<and> dv < length ps
          then Some (ps ! dv) else None))"
proof -
  obtain b where b: "pci_register_all ps (pci_bus_init a) = Inr b" "pci_registered ps b"
    using pci_register_all_ok [OF assms(1)] assms(2) by (auto simp: MAX_FPB_def)
  have dv: "unat (ucast (drop_bit 11 v AND 0x1F) :: uint8) = unat (drop_bit 11 v AND 0x1F)" for v :: uint32
    by (simp only: and_low_bits unat_ucast_take_bit)
  have z: "(ucast (x AND 0xF) :: uint8) = 0 \<longleftrightarrow> x AND 0xF = 0"
    "(ucast (x AND 7) :: uint8) = 0 \<longleftrightarrow> x AND 7 = 0" for x :: uint32
    by (simp_all only: and_low_bits unat_ucast_take_bit word_unat_eq_iff unat_0)
  show ?thesis
  proof (rule exI [of _ b], rule conjI, rule b(1), intro allI)
    fix v s
    let ?b = "b\<lparr>configspace := drop_bit 31 v, pindex := ucast (v AND 0xFF),
           pbus := ucast (drop_bit 16 v AND 0x0F), pdev := ucast (drop_bit 11 v AND 0x1F),
           pfn := ucast (drop_bit 8 v AND 0x07)\<rparr>"
    have "pci_registered ps ?b" using b(2) by (simp add: pci_registered_def)
    from pci_registered_getDevice [OF this]
    show "\<exists>b'. handler_run (pci_hdl ops) [Out32 0xCF8 v] (b, s) = emit [] [0] (b', s) \<and>
       pci_getDevice b' =
         (let dv = unat (drop_bit 11 v AND 0x1F) in
          if drop_bit 16 v AND 0xF = 0 \<and> drop_bit 8 v AND 7 = 0 \<and> dv < length ps
          then Some (ps ! dv) else None)"
      by (simp add: pci_outl_def Let_def dv z)
  qed
qed

theorem pci_scan_witness:
  "\<forall>a ops. \<exists>b. pci_register_all [True, False] (pci_bus_init a) = Inr b \<and>
    (\<forall>v (s :: unit). \<exists>b'. handler_run (pci_hdl ops) [Out32 0xCF8 v] (b, s) = emit [] [0] (b', s) \<and>
       pci_getDevice b' =
         (let dv = unat (drop_bit 11 v AND 0x1F) in
          if drop_bit 16 v AND 0xF = 0 \<and> drop_bit 8 v AND 7 = 0 \<and> dv < 2
          then Some ([True, False] ! dv) else None))"
proof (intro allI)
  fix a and ops :: "bool \<Rightarrow> unit pci_ops"
  show "\<exists>b. pci_register_all [True, False] (pci_bus_init a) = Inr b \<and>
    (\<forall>v (s :: unit). \<exists>b'. handler_run (pci_hdl ops) [Out32 0xCF8 v] (b, s) = emit [] [0] (b', s) \<and>
       pci_getDevice b' =
         (let dv = unat (drop_bit 11 v AND 0x1F) in
          if drop_bit 16 v AND 0xF = 0 \<and> drop_bit 8 v AND 7 = 0 \<and> dv < 2
          then Some ([True, False] ! dv) else None))"
    using pci_scan [of "[True, False]" a ops] by (simp add: numeral_2_eq_2)
qed

text \<open>
  The configuration address reads back without its function number: writing any
  double word to \<open>0xCF8\<close> and reading it back delivers the enable bit, four bits of the bus,
  the device and the register, with the three function bits (and the reserved bits) zero.
\<close>

theorem pci_address_readback:
  "\<exists>m'. handler_run (pci_hdl ops) [Out32 0xCF8 v, In32 0xCF8] m = emit [] [0, v AND 0x800FF8FF] m'"
proof -
  have "push_bit 31 (drop_bit 31 v) OR push_bit 16 (ucast (ucast (drop_bit 16 v AND 0x0F) AND (0x0F :: uint8))) OR
      push_bit 11 (ucast (ucast (drop_bit 11 v AND 0x1F) AND (0x1F :: uint8))) OR
      ucast (ucast (v AND 0xFF) AND (0xFF :: uint8)) = v AND 0x800FF8FF"
    (is "?l = _")
  proof (rule bit_word_eqI)
    fix n assume "n < LENGTH(32)"
    then have "n \<in> set [0..<32]" by simp
    then show "bit ?l n = bit (v AND 0x800FF8FF) n"
      unfolding and_low_bits
      by (simp add: upt_rec bit_simps, elim disjE; simp add: bit_simps numeral_eq_Suc)
  qed
  then show ?thesis by (simp add: pci_outl_def pci_inl_def Let_def)
qed

text \<open>
  An absent function. On the data ports, with no function selected, writes of every width
  are ignored and reads deliver \<open>0xFF\<close> and \<open>0xFFFF\<close>; a 32-bit read delivers \<open>0xFFFF\<close> as
  well, not all ones.
\<close>

theorem pci_absent_function:
  assumes "pci_getDevice (fst m) = None" and "configspace (fst m) = 1"
    and "p \<in> {0xCFC, 0xCFD, 0xCFE, 0xCFF}"
  shows "handler_run (pci_hdl ops) [Out8 p x, Out16 p y, Out32 p z, In8 p, In16 p, In32 p] m =
    emit [] [0, 0, 0, 0xFF, 0xFFFF, 0xFFFF] m"
  using assms by (auto simp: pci_defs Let_def)

theorem pci_absent_function_witness:
  "\<forall>(ops :: unit \<Rightarrow> unit pci_ops) a.
    handler_run (pci_hdl ops) [Out8 0xCFC 1, Out16 0xCFC 1, Out32 0xCFC 1,
      In8 0xCFC, In16 0xCFC, In32 0xCFC] ((pci_bus_init a)\<lparr>configspace := 1\<rparr>, ()) =
    emit [] [0, 0, 0, 0xFF, 0xFFFF, 0xFFFF] ((pci_bus_init a)\<lparr>configspace := 1\<rparr>, ())"
proof (intro allI)
  fix ops :: "unit \<Rightarrow> unit pci_ops" and a :: "unit \<Rightarrow> uint8 \<times> uint8 \<times> uint8"
  let ?b = "(pci_bus_init a)\<lparr>configspace := 1\<rparr>"
  have "pci_getDevice ?b = None"
    using pci_registered_getDevice [of "[]" ?b] by (simp add: pci_registered_def pci_bus_init_def)
  then show "handler_run (pci_hdl ops) [Out8 0xCFC 1, Out16 0xCFC 1, Out32 0xCFC 1,
      In8 0xCFC, In16 0xCFC, In32 0xCFC] (?b, ()) = emit [] [0, 0, 0, 0xFF, 0xFFFF, 0xFFFF] (?b, ())"
    using pci_absent_function [of "(?b, ())" "0xCFC"] by simp
qed

end
