(* ===== verification/Ata.thy ===== *)
theory Ata
  imports Pci
begin

text \<open>
  The ATA controller, \<^verbatim>\<open>ata/controller.c\<close> and \<^verbatim>\<open>ata_internal.h\<close>: two drives of which the
  master is a disk backed by the file \<^verbatim>\<open>hdd.img\<close> and the slave is absent, programmed
  through ports \<open>0x1F0\<close> to \<open>0x1F7\<close> and \<open>0x3F0\<close> to \<open>0x3F7\<close>, and the controller's PCI
  configuration space. The backing file is its contents; a transfer buffer is \<open>None\<close> while
  its pointer is NULL.
\<close>

subsection \<open>State\<close>

datatype ata_type = ATA_Invalid | ATA_Disk | ATA_DVDRom

record atadev =
  bIsPresent :: bool
  dtype :: ata_type
  backingfile :: "uint8 list"
  identify :: "uint16 list"
  areg :: "uint8 list"
  readBuffer :: "uint8 list option"
  readBufferOffset :: int
  readBufferSize :: int
  writeBuffer :: "uint8 list option"
  writeBufferOffset :: int
  writeBufferSize :: int
  writeBufferLBA :: uint64

text \<open>\<open>pCurrDev\<close> points to one of the two drives of the controller.\<close>

datatype ata_sel = Master | Slave

record atactl =
  master :: atadev
  slave :: atadev
  pCurrDev :: ata_sel
  ata_conf :: "uint8 list"

abbreviation "REG_ERROR \<equiv> 0x01 :: nat"
abbreviation "REG_FEATURES \<equiv> 0x02 :: nat"
abbreviation "REG_SECTOR_COUNT \<equiv> 0x03 :: nat"
abbreviation "REG_SECTOR_NUMBER \<equiv> 0x04 :: nat"
abbreviation "REG_CYLINDER_LOW \<equiv> 0x05 :: nat"
abbreviation "REG_CYLINDER_HIGH \<equiv> 0x06 :: nat"
abbreviation "REG_DEVICE_HEAD \<equiv> 0x07 :: nat"
abbreviation "REG_STATUS \<equiv> 0x08 :: nat"
abbreviation "REG_COMMAND \<equiv> 0x09 :: nat"
abbreviation "REG_DEVICE_CONTROL \<equiv> 0x0A :: nat"
abbreviation "REG_ALTERNATE_STATUS \<equiv> 0x0B :: nat"

abbreviation "STATUS_DRDY \<equiv> 0x40 :: uint8"
abbreviation "STATUS_DRQ \<equiv> 0x08 :: uint8"
abbreviation "STATUS_ERR \<equiv> 0x01 :: uint8"
abbreviation "ERROR_ABRT \<equiv> 0x04 :: uint8"

definition cur :: "atactl \<Rightarrow> atadev" where
  "cur c = (case pCurrDev c of Master \<Rightarrow> master c | Slave \<Rightarrow> slave c)"

definition on_cur :: "(atadev \<Rightarrow> atadev) \<Rightarrow> atactl \<Rightarrow> atactl" where
  "on_cur f c = (case pCurrDev c of Master \<Rightarrow> c\<lparr>master := f (master c)\<rparr>
     | Slave \<Rightarrow> c\<lparr>slave := f (slave c)\<rparr>)"

definition set_reg :: "nat \<Rightarrow> uint8 \<Rightarrow> atadev \<Rightarrow> atadev" where
  "set_reg r v d = d\<lparr>areg := (areg d)[r := v]\<rparr>"

text \<open>Both status registers at once, and the error register cleared before.\<close>

definition set_status :: "uint8 \<Rightarrow> atadev \<Rightarrow> atadev" where
  "set_status v d = set_reg REG_ALTERNATE_STATUS v (set_reg REG_STATUS v d)"

definition set_ok :: "uint8 \<Rightarrow> atadev \<Rightarrow> atadev" where
  "set_ok v d = set_status v (set_reg REG_ERROR 0 d)"

subsection \<open>Commands\<close>

definition do_softreset :: "atactl \<Rightarrow> (atactl, unit) effect" where
  "do_softreset c =
     (case readBuffer (cur c) of
        None \<Rightarrow> Inl Wild_Access
      | Some buf \<Rightarrow>
         rbind (wr_bytes buf 0 (replicate 512 0)) (\<lambda>buf'.
           emit [Irq_Set 14 0] ()
             ((on_cur (\<lambda>d. d\<lparr>readBuffer := Some buf',
                 areg := (replicate 12 0)[REG_SECTOR_COUNT := 1, REG_SECTOR_NUMBER := 1,
                   REG_CYLINDER_LOW := 0, REG_CYLINDER_HIGH := 0, REG_ERROR := 0,
                   REG_STATUS := STATUS_DRDY, REG_ALTERNATE_STATUS := STATUS_DRDY]\<rparr>) c)
              \<lparr>pCurrDev := Master\<rparr>)))"

definition cmd_identify_packet_device :: "atactl \<Rightarrow> (atactl, unit) effect" where
  "cmd_identify_packet_device c =
     (if dtype (cur c) \<noteq> ATA_DVDRom
      then ret () (on_cur (\<lambda>d. set_reg REG_STATUS (STATUS_ERR OR STATUS_DRDY)
             (set_reg REG_ERROR ERROR_ABRT d)) c)
      else assert_failed)"

definition devNumSectors :: "atadev \<Rightarrow> uint32" where
  "devNumSectors d = of_nat (length (backingfile d) div 512)"

definition lba_of_regs :: "uint8 list \<Rightarrow> uint32" where
  "lba_of_regs r = push_bit 24 (ucast (r ! REG_DEVICE_HEAD AND 0xF)) OR
     push_bit 16 (ucast (r ! REG_CYLINDER_HIGH)) OR
     push_bit 8 (ucast (r ! REG_CYLINDER_LOW)) OR ucast (r ! REG_SECTOR_NUMBER)"

definition chs_of_regs :: "uint8 list \<Rightarrow> uint32" where
  "chs_of_regs r =
     (let s = ucast (r ! REG_SECTOR_NUMBER); h = ucast (r ! REG_DEVICE_HEAD AND 0xF);
          c = push_bit 8 (ucast (r ! REG_CYLINDER_HIGH)) OR ucast (r ! REG_CYLINDER_LOW) in
      (c * 255 + h) * 63 + s - 1)"

definition cmd_write_sectors :: "atactl \<Rightarrow> (atactl, unit) effect" where
  "cmd_write_sectors c =
     (let r = areg (cur c); n = unat (r ! REG_SECTOR_COUNT) in
      if drop_bit 6 (r ! REG_DEVICE_HEAD) AND 1 = 1 then
        (if r ! REG_SECTOR_COUNT \<noteq> 0 then
           ret () (on_cur (\<lambda>d. set_status (STATUS_DRDY OR STATUS_DRQ)
             (set_ok STATUS_DRDY (d\<lparr>writeBufferOffset := 0, writeBufferSize := int n * 512,
                writeBuffer := Some (replicate (n * 512) 0),
                writeBufferLBA := ucast (lba_of_regs r)\<rparr>))) c)
         else assert_failed)
      else assert_failed)"

definition cmd_read_sectors :: "atactl \<Rightarrow> (atactl, unit) effect" where
  "cmd_read_sectors c =
     (let r = areg (cur c);
          lba = (if drop_bit 6 (r ! REG_DEVICE_HEAD) AND 1 = 1 then lba_of_regs r
                 else chs_of_regs r);
          n = (if unat (r ! REG_SECTOR_COUNT) = 0 then 256 else unat (r ! REG_SECTOR_COUNT)) * 512 in
      emit [Irq_Set 14 1] ()
        (on_cur (\<lambda>d. set_ok (STATUS_DRDY OR STATUS_DRQ)
           (d\<lparr>readBufferSize := int n,
              readBuffer := Some (overlay (replicate n 0)
                (file_read (backingfile d) (unat (ucast lba * 512 :: uint64)) n)),
              readBufferOffset := 0\<rparr>)) c))"

subsection \<open>Identification data\<close>

text \<open>\<^verbatim>\<open>strncpy\<close> of a string literal into the bytes of the word array, from word \<open>i\<close> on.\<close>

fun words_of_bytes :: "uint8 list \<Rightarrow> uint16 list" where
  "words_of_bytes (a # b # bs) = le_word [a, b] # words_of_bytes bs"
| "words_of_bytes _ = []"

fun bytes_of_words :: "uint16 list \<Rightarrow> uint8 list" where
  "bytes_of_words [] = []"
| "bytes_of_words (w # ws) = le_bytes 2 w @ bytes_of_words ws"

definition strncpy_words :: "nat \<Rightarrow> string \<Rightarrow> nat \<Rightarrow> uint16 list \<Rightarrow> uint16 list" where
  "strncpy_words i str n ws =
     take i ws @ words_of_bytes (take n (map of_char str @ replicate n 0)) @ drop (i + n div 2) ws"

definition swap_word :: "uint16 \<Rightarrow> uint16" where
  "swap_word w = push_bit 8 (w AND 0xFF) OR drop_bit 8 (w AND 0xFF00)"

definition ata_heads :: "uint32 \<Rightarrow> uint16" where
  "ata_heads sectors =
     (if sectors \<le> 8257536 then 16 else if sectors > 16514064 then 15 else 16)"

definition build_identify_data :: "atadev \<Rightarrow> atadev" where
  "build_identify_data d =
     (let sectors = devNumSectors d; h = ata_heads sectors; s = 63 :: uint16;
          c = ucast (sectors div (ucast h * ucast s)) :: uint16;
          w0 = (replicate 256 (0 :: uint16))[0 := 0x42];
          w1 = strncpy_words 10 ''Serial Number'' 20 w0;
          w2 = strncpy_words 23 ''FW'' 6 w1;
          w3 = strncpy_words 27 ''KVMulate VirtuHD'' 40 w2;
          w4 = w3[50 := push_bit 14 1, 53 := 1, 57 := ucast (sectors AND 0xFFFF),
             58 := ucast (drop_bit 16 (sectors AND 0xFFFF0000))];
          w5 = w4[60 := w4 ! 57, 61 := w4 ! 58, 3 := h, 6 := s, 1 := c] in
      d\<lparr>identify := foldl (\<lambda>w i. w[27 + i := swap_word (w ! (27 + i))]) w5 [0..<20]\<rparr>)"

definition cmd_identify_device :: "atactl \<Rightarrow> (atactl, unit) effect" where
  "cmd_identify_device c =
     (if dtype (cur c) = ATA_DVDRom then do_softreset c
      else ret () (on_cur (\<lambda>d. set_ok (STATUS_DRDY OR STATUS_DRQ)
         (d\<lparr>readBuffer := Some (bytes_of_words (identify d)),
            readBufferOffset := 0, readBufferSize := 512\<rparr>)) c))"

definition cmd_initialize_device_parameters :: "atactl \<Rightarrow> (atactl, unit) effect" where
  "cmd_initialize_device_parameters c =
     emit [Irq_Set 14 1] () (on_cur (set_ok STATUS_DRDY) c)"

definition cmd_recalibrate :: "atactl \<Rightarrow> (atactl, unit) effect" where
  "cmd_recalibrate c = emit [Irq_Set 14 1] () (on_cur (set_ok STATUS_DRDY) c)"

definition do_command :: "uint8 \<Rightarrow> atactl \<Rightarrow> (atactl, unit) effect" where
  "do_command cmd c = ebind (emit [Irq_Set 14 0] () c) (\<lambda>_ c.
     if cmd = 0x10 then cmd_recalibrate c
     else if cmd = 0x30 then cmd_write_sectors c
     else if cmd = 0x20 then cmd_read_sectors c
     else if cmd = 0xEC then cmd_identify_device c
     else if cmd = 0xA1 then cmd_identify_packet_device c
     else if cmd = 0x91 then cmd_initialize_device_parameters c
     else assert_failed)"

subsection \<open>Ports\<close>

definition pio_outb :: "uint16 \<Rightarrow> uint8 \<Rightarrow> atactl \<Rightarrow> (atactl, unit) effect" where
  "pio_outb address val c =
     (if address = 0x202 then ret () c
      else if address = 6 then
        ret () (on_cur (set_reg REG_DEVICE_HEAD val)
          (c\<lparr>pCurrDev := (if drop_bit 4 val AND 1 \<noteq> 0 then Slave else Master)\<rparr>))
      else if \<not> bIsPresent (cur c) then ret () c
      else if address = 7 then
        ebind (emit [Irq_Set 14 0] () (on_cur (set_reg REG_COMMAND val) c))
          (\<lambda>_. do_command val)
      else if address = 0x206 then
        ebind (if val AND 4 \<noteq> 0 then do_softreset c else ret () c)
          (\<lambda>_ c. ret () (on_cur (set_reg REG_FEATURES val)
             (on_cur (set_reg REG_DEVICE_CONTROL val) c)))
      else if address = 1 then ret () (on_cur (set_reg REG_FEATURES val) c)
      else if address = 5 then ret () (on_cur (set_reg REG_CYLINDER_HIGH val) c)
      else if address = 4 then ret () (on_cur (set_reg REG_CYLINDER_LOW val) c)
      else if address = 2 then ret () (on_cur (set_reg REG_SECTOR_COUNT val) c)
      else if address = 3 then ret () (on_cur (set_reg REG_SECTOR_NUMBER val) c)
      else assert_failed)"

definition pio_inb :: "uint16 \<Rightarrow> uint16 \<Rightarrow> atactl \<Rightarrow> (atactl, uint8) effect" where
  "pio_inb hbase address c =
     (if address = 0x202 then ret 0 c
      else if uint hbase + uint address = 0x3F4 then ret 0 c
      else if address = 6 then ret (if pCurrDev c = Slave then 0xB0 else 0xA0) c
      else if \<not> bIsPresent (cur c) then ret 0 c
      else if address = 1 then ret (areg (cur c) ! REG_ERROR) c
      else if address = 2 then ret (areg (cur c) ! REG_SECTOR_COUNT) c
      else if address = 3 then ret (areg (cur c) ! REG_SECTOR_NUMBER) c
      else if address = 7 then emit [Irq_Set 14 0] (areg (cur c) ! REG_STATUS) c
      else if address = 0x206 then ret (areg (cur c) ! REG_ALTERNATE_STATUS) c
      else assert_failed)"

definition after_word :: "atadev \<Rightarrow> atadev" where
  "after_word d =
     (if readBufferOffset d \<ge> readBufferSize d then set_status STATUS_DRDY d
      else if readBufferOffset d mod 0x200 = 0 then set_ok (STATUS_DRDY OR STATUS_DRQ) d
      else d)"

definition pio_inw :: "uint16 \<Rightarrow> atactl \<Rightarrow> (atactl, uint16) effect" where
  "pio_inw address c =
     (if address = 0 then
        (case readBuffer (cur c) of None \<Rightarrow> Inl Wild_Access | Some buf \<Rightarrow>
           rbind (rd_bytes buf (readBufferOffset (cur c)) 2) (\<lambda>bs.
             ret (le_word bs) (on_cur (\<lambda>d. after_word
                (d\<lparr>readBufferOffset := readBufferOffset d + 2\<rparr>)) c)))
      else assert_failed)"

text \<open>The flush of a completed write: the whole buffer goes to the file.\<close>

definition flush_write :: "atadev \<Rightarrow> atadev" where
  "flush_write d = set_status STATUS_DRDY (d\<lparr>backingfile :=
     file_write (backingfile d) (unat (writeBufferLBA d * 512))
       (take (nat (writeBufferSize d)) (the (writeBuffer d)))\<rparr>)"

definition pio_outw :: "uint16 \<Rightarrow> uint16 \<Rightarrow> atactl \<Rightarrow> (atactl, unit) effect" where
  "pio_outw address val c =
     (if address = 0 then
        (case writeBuffer (cur c) of None \<Rightarrow> Inl Wild_Access | Some buf \<Rightarrow>
           rbind (wr_bytes buf (writeBufferOffset (cur c)) (le_bytes 2 val)) (\<lambda>buf'.
             (let c' = on_cur (\<lambda>d. d\<lparr>writeBuffer := Some buf',
                    writeBufferOffset := writeBufferOffset d + 2\<rparr>) c in
              if writeBufferOffset (cur c') = writeBufferSize (cur c')
              then emit [Irq_Set 14 1] () (on_cur flush_write c')
              else ret () c')))
      else assert_failed)"

definition ata_hdl :: "atactl io_handler" where
  "ata_hdl = \<lparr> base = 0x1F0, io_mask = 0xFDF8,
     inb = Some (pio_inb 0x1F0), inw = Some pio_inw, inl = None,
     outb = Some pio_outb, outw = Some pio_outw, outl = None \<rparr>"

subsection \<open>PCI configuration\<close>

definition conf_reader :: "nat \<Rightarrow> int \<Rightarrow> atactl \<Rightarrow> (atactl, 'a::len word) effect" where
  "conf_reader n reg c = rbind (conf_read n reg (ata_conf c)) (\<lambda>v. ret v c)"

definition pciata_readb :: "int \<Rightarrow> atactl \<Rightarrow> (atactl, uint8) effect" where
  "pciata_readb reg c = conf_reader 1 reg c"

definition pciata_readw :: "int \<Rightarrow> atactl \<Rightarrow> (atactl, uint16) effect" where
  "pciata_readw reg c = conf_reader 2 reg c"

definition pciata_readl :: "int \<Rightarrow> atactl \<Rightarrow> (atactl, uint32) effect" where
  "pciata_readl reg c = conf_reader 4 reg c"

definition pciata_writeb :: "int \<Rightarrow> uint8 \<Rightarrow> atactl \<Rightarrow> (atactl, unit) effect" where
  "pciata_writeb reg val c = ret () c"

definition pciata_writew :: "int \<Rightarrow> uint16 \<Rightarrow> atactl \<Rightarrow> (atactl, unit) effect" where
  "pciata_writew reg val c = ret () c"

definition pciata_writel :: "int \<Rightarrow> uint32 \<Rightarrow> atactl \<Rightarrow> (atactl, unit) effect" where
  "pciata_writel reg val c =
     (if reg = PCI_CFG_REG_BAR0 \<and> val = 0xFFFFFFFF then
        rbind (conf_write 4 PCI_CFG_REG_BAR0 (0xFFFFFF0 OR push_bit 1 0 OR push_bit 0 1 :: uint32)
            (ata_conf c)) (\<lambda>conf.
        rbind (conf_write 4 reg (0 :: uint32) conf) (\<lambda>conf. ret () (c\<lparr>ata_conf := conf\<rparr>)))
      else if reg \<in> {0x14, 0x18, 0x1C, 0x20, 0x24, PCI_CFG_REG_EXPROM} then
        rbind (conf_write 4 reg (0 :: uint32) (ata_conf c)) (\<lambda>conf. ret () (c\<lparr>ata_conf := conf\<rparr>))
      else
        rbind (conf_write 4 reg val (ata_conf c)) (\<lambda>conf. ret () (c\<lparr>ata_conf := conf\<rparr>)))"

definition ata_pci_ops :: "atactl pci_ops" where
  "ata_pci_ops = \<lparr> cfg_readb = Some pciata_readb, cfg_readw = Some pciata_readw,
     cfg_readl = Some pciata_readl, cfg_writeb = Some pciata_writeb,
     cfg_writew = Some pciata_writew, cfg_writel = Some pciata_writel \<rparr>"

definition atadev_zero :: atadev where
  "atadev_zero = \<lparr> bIsPresent = False, dtype = ATA_Invalid, backingfile = [],
     identify = replicate 256 0, areg = replicate 12 0,
     readBuffer = None, readBufferOffset = 0, readBufferSize = 0,
     writeBuffer = None, writeBufferOffset = 0, writeBufferSize = 0, writeBufferLBA = 0 \<rparr>"

text \<open>The controller \<^verbatim>\<open>x86_ata_init\<close> leaves; without the backing file it aborts.\<close>

definition x86_ata_init :: "uint8 list option \<Rightarrow> fault + atactl" where
  "x86_ata_init hdd = (case hdd of None \<Rightarrow> Inl Assert_Failed
     | Some f \<Rightarrow> Inr \<lparr>
         master = build_identify_data (set_reg REG_STATUS STATUS_DRDY
           (atadev_zero\<lparr>bIsPresent := True, dtype := ATA_Disk, backingfile := f\<rparr>)),
         slave = atadev_zero, pCurrDev = Master,
         ata_conf = pcidev_config 0xf00d 0xdead 0x0003 0x0280
           (push_bit 24 0x01 OR push_bit 16 0x01 OR push_bit 8 (0x80 + 3) OR push_bit 0 0) 0 \<rparr>)"

subsection \<open>The invariant\<close>

text \<open>
  The register file has twelve bytes; a transfer buffer, once allocated, has the announced
  size and the offset stays inside it, the end included; the slave is never present.
\<close>

definition buffer_ok :: "nat \<Rightarrow> uint8 list option \<Rightarrow> int \<Rightarrow> int \<Rightarrow> bool" where
  "buffer_ok k buf sz off = (case buf of None \<Rightarrow> True
     | Some b \<Rightarrow> sz = int (length b) \<and> k \<le> length b \<and> 0 \<le> off \<and> off \<le> sz)"

lemma buffer_ok_Some [simp]:
  "buffer_ok k None sz off"
  "buffer_ok k (Some b) sz off \<longleftrightarrow> sz = int (length b) \<and> k \<le> length b \<and> 0 \<le> off \<and> off \<le> sz"
  by (simp_all add: buffer_ok_def)

definition dev_wf :: "atadev \<Rightarrow> bool" where
  "dev_wf d \<longleftrightarrow> length (areg d) = 12 \<and> length (identify d) = 256 \<and>
     buffer_ok 512 (readBuffer d) (readBufferSize d) (readBufferOffset d) \<and>
     buffer_ok 0 (writeBuffer d) (writeBufferSize d) (writeBufferOffset d)"

definition ata_wf :: "atactl \<Rightarrow> bool" where
  [wf_simps]: "ata_wf c \<longleftrightarrow> dev_wf (master c) \<and> dev_wf (slave c) \<and>
     bIsPresent (master c) \<and> \<not> bIsPresent (slave c) \<and> length (ata_conf c) = pci_conf_size"

lemma dev_wf_set_reg [simp]:
  "dev_wf (set_reg r v d) = dev_wf d" "dev_wf (set_status v d) = dev_wf d"
  "dev_wf (set_ok v d) = dev_wf d" "bIsPresent (set_reg r v d) = bIsPresent d"
  "bIsPresent (set_status v d) = bIsPresent d" "bIsPresent (set_ok v d) = bIsPresent d"
  by (simp_all add: set_reg_def set_status_def set_ok_def dev_wf_def)

lemma dev_wf_flush [simp]:
  "dev_wf (flush_write d) = dev_wf d" "bIsPresent (flush_write d) = bIsPresent d"
  by (simp_all add: flush_write_def) (simp add: dev_wf_def)

lemma on_cur_wf:
  assumes "ata_wf c" and "\<And>d. dev_wf d \<Longrightarrow> d = cur c \<Longrightarrow> dev_wf (f d) \<and> bIsPresent (f d) = bIsPresent d"
  shows "ata_wf (on_cur f c)"
  using assms by (auto simp: ata_wf_def on_cur_def cur_def split: ata_sel.splits)

lemma ata_wf_cur: "ata_wf c \<Longrightarrow> dev_wf (cur c)"
  by (simp add: ata_wf_def cur_def split: ata_sel.splits)

lemma ata_wf_select [simp]: "ata_wf (c\<lparr>pCurrDev := x\<rparr>) = ata_wf c"
  by (simp add: ata_wf_def)

lemma length_bytes_of_words [simp]: "length (bytes_of_words ws) = 2 * length ws"
  by (induction ws) simp_all

lemma words_bytes_words [simp]: "words_of_bytes (bytes_of_words ws) = ws"
proof (induction ws)
  case (Cons w ws)
  have "le_bytes 2 w = [ucast w, ucast (drop_bit 8 w)]"
    by (simp add: le_bytes_def upt_rec)
  moreover have "le_word (le_bytes 2 w) = w" by simp
  ultimately show ?case using Cons by simp
qed simp

lemma length_words_of_bytes: "length (words_of_bytes bs) = length bs div 2"
  by (induction bs rule: words_of_bytes.induct) simp_all

lemma do_softreset_wf: "ata_wf c \<Longrightarrow> do_softreset c = Inr (u, c', es) \<Longrightarrow> ata_wf c'"
  by (auto simp: do_softreset_def rbind_Inr split: option.splits intro!: on_cur_wf)
     (auto simp: dev_wf_def dest: wr_bytes_length split: option.splits)

lemma commands_wf:
  assumes "ata_wf c"
  shows "cmd_recalibrate c = Inr (u, c', es) \<Longrightarrow> ata_wf c'"
    and "cmd_initialize_device_parameters c = Inr (u, c', es) \<Longrightarrow> ata_wf c'"
    and "cmd_write_sectors c = Inr (u, c', es) \<Longrightarrow> ata_wf c'"
    and "cmd_read_sectors c = Inr (u, c', es) \<Longrightarrow> ata_wf c'"
    and "cmd_identify_device c = Inr (u, c', es) \<Longrightarrow> ata_wf c'"
    and "cmd_identify_packet_device c = Inr (u, c', es) \<Longrightarrow> ata_wf c'"
proof -
  have l: "length (file_read f a n) \<le> n" for f a n by (simp add: file_read_def)
  note d = cmd_recalibrate_def cmd_initialize_device_parameters_def cmd_write_sectors_def
    cmd_read_sectors_def cmd_identify_device_def cmd_identify_packet_device_def Let_def
  show "cmd_recalibrate c = Inr (u, c', es) \<Longrightarrow> ata_wf c'"
    "cmd_initialize_device_parameters c = Inr (u, c', es) \<Longrightarrow> ata_wf c'"
    "cmd_identify_packet_device c = Inr (u, c', es) \<Longrightarrow> ata_wf c'"
    using assms by (auto simp: d split: if_splits intro!: on_cur_wf)
  show "cmd_write_sectors c = Inr (u, c', es) \<Longrightarrow> ata_wf c'"
    using assms by (auto simp: d split: if_splits intro!: on_cur_wf) (auto simp: dev_wf_def)
  show "cmd_read_sectors c = Inr (u, c', es) \<Longrightarrow> ata_wf c'"
    using assms l by (auto simp: d intro!: on_cur_wf) (auto simp: dev_wf_def unat_eq_0)
  show "cmd_identify_device c = Inr (u, c', es) \<Longrightarrow> ata_wf c'"
    using assms do_softreset_wf [OF assms]
    by (auto simp: d split: if_splits intro!: on_cur_wf) (auto simp: dev_wf_def)
qed

lemma do_command_wf: "ata_wf c \<Longrightarrow> do_command cmd c = Inr (u, c', es) \<Longrightarrow> ata_wf c'"
  by (auto simp: do_command_def ebind_Inr split: if_split_asm dest: commands_wf)

lemma ata_wf_set_reg [simp]: "ata_wf (on_cur (set_reg k x) c) = ata_wf c"
  by (simp add: ata_wf_def on_cur_def split: ata_sel.splits)

lemma do_command_keeps: "ata_wf c \<Longrightarrow> keeps ata_wf (do_command cmd c)"
  by (rule keepsI) (rule do_command_wf)

lemma do_softreset_keeps: "ata_wf c \<Longrightarrow> keeps ata_wf (do_softreset c)"
  by (rule keepsI) (rule do_softreset_wf)

lemma pio_outb_keeps: "ata_wf c \<Longrightarrow> keeps ata_wf (pio_outb p v c)"
  unfolding pio_outb_def
  by (intro keeps_if keeps_ebind [where Q = ata_wf])
     (simp_all add: do_softreset_keeps do_command_keeps)

lemmas pio_outb_wf = keepsD [OF pio_outb_keeps]

lemma pio_inb_wf: "ata_wf c \<Longrightarrow> pio_inb b p c = Inr (v, c', es) \<Longrightarrow> ata_wf c'"
  by (auto simp: pio_inb_def split: if_split_asm)

lemma after_word_wf [simp]: "dev_wf (after_word d) = dev_wf d" "bIsPresent (after_word d) = bIsPresent d"
  by (simp_all add: after_word_def)

lemma pio_inw_wf: "ata_wf c \<Longrightarrow> pio_inw p c = Inr (v, c', es) \<Longrightarrow> ata_wf c'"
  by (auto simp: pio_inw_def rbind_Inr rd_bytes_def split: if_split_asm option.splits intro!: on_cur_wf)
     (auto simp: dev_wf_def in_range_def)

lemma pio_outw_wf:
  assumes wf: "ata_wf c" and ok: "pio_outw p v c = Inr (u, c', es)"
  shows "ata_wf c'"
proof -
  obtain b b' where b: "writeBuffer (cur c) = Some b" "wr_bytes b (writeBufferOffset (cur c)) (le_bytes 2 v) = Inr b'"
    using ok by (auto simp: pio_outw_def rbind_Inr split: if_split_asm option.splits)
  have len: "length b' = length b" "0 \<le> writeBufferOffset (cur c)"
    "writeBufferOffset (cur c) + 2 \<le> int (length b)"
    using b(2) by (auto simp: wr_bytes_def in_range_def split: if_split_asm)
  let ?c = "on_cur (\<lambda>d. d\<lparr>writeBuffer := Some b', writeBufferOffset := writeBufferOffset d + 2\<rparr>) c"
  have w: "ata_wf ?c"
    using wf b(1) len by (auto intro!: on_cur_wf simp: dev_wf_def)
  have "ata_wf (on_cur flush_write ?c)"
    using w by (rule on_cur_wf) simp
  with w show ?thesis
    using ok b by (auto simp: pio_outw_def Let_def split: if_split_asm)
qed

interpretation ata: port_device ata_hdl ata_wf
  by unfold_locales
     (auto simp: ata_hdl_def dest: pio_inb_wf pio_inw_wf pio_outb_wf pio_outw_wf)

lemma conf_reader_pure:
  "ata_wf c \<Longrightarrow> 0 \<le> reg \<Longrightarrow> reg \<le> 258 \<Longrightarrow> n \<le> 4 \<Longrightarrow> \<exists>v. conf_reader n reg c = ret v c"
  by (simp add: conf_reader_def conf_read_ok ata_wf_def)

lemma conf_reader_wf: "ata_wf c \<Longrightarrow> conf_reader n reg c = Inr (v, c', es) \<Longrightarrow> ata_wf c'"
  by (auto simp: conf_reader_def rbind_Inr)

lemma pciata_writel_wf: "ata_wf c \<Longrightarrow> pciata_writel reg v c = Inr (u, c', es) \<Longrightarrow> ata_wf c'"
  by (auto simp: pciata_writel_def rbind_Inr ata_wf_def dest!: conf_write_length split: if_split_asm)

lemmas pciata_defs = ata_pci_ops_def pciata_readb_def pciata_readw_def pciata_readl_def
  pciata_writeb_def pciata_writew_def

interpretation ata_cfg: pci_function ata_pci_ops ata_wf
  by unfold_locales
     (auto simp: pciata_defs intro: conf_reader_pure dest: conf_reader_wf pciata_writel_wf)

subsection \<open>Reading and writing sectors\<close>

lemma ata_hdl_simps [simp]:
  "base ata_hdl = 0x1F0" "inb ata_hdl = Some (pio_inb 0x1F0)" "inw ata_hdl = Some pio_inw"
  "outb ata_hdl = Some pio_outb" "outw ata_hdl = Some pio_outw"
  by (simp_all add: ata_hdl_def)

text \<open>The five writes that select the master and address a range of sectors.\<close>

definition ata_address :: "uint8 \<Rightarrow> uint8 \<Rightarrow> uint8 \<Rightarrow> uint8 \<Rightarrow> uint8 \<Rightarrow> access list" where
  "ata_address dh n sn cl ch =
     [Out8 0x1F6 dh, Out8 0x1F2 n, Out8 0x1F3 sn, Out8 0x1F4 cl, Out8 0x1F5 ch]"

definition addressed :: "uint8 \<Rightarrow> uint8 \<Rightarrow> uint8 \<Rightarrow> uint8 \<Rightarrow> uint8 \<Rightarrow> atactl \<Rightarrow> atactl" where
  "addressed dh n sn cl ch c = c\<lparr>pCurrDev := Master,
     master := (master c)\<lparr>areg := (areg (master c))[REG_DEVICE_HEAD := dh,
       REG_SECTOR_COUNT := n, REG_SECTOR_NUMBER := sn, REG_CYLINDER_LOW := cl,
       REG_CYLINDER_HIGH := ch]\<rparr>\<rparr>"

lemma ata_address_run:
  assumes "ata_wf c" and "drop_bit 4 dh AND 1 = 0"
  shows "handler_run ata_hdl (ata_address dh n sn cl ch) c =
    emit [] [0, 0, 0, 0, 0] (addressed dh n sn cl ch c)"
proof -
  have present: "bIsPresent (master c)" using assms(1) by (simp add: ata_wf_def)
  have head: "pio_outb 6 dh c = ret () (c\<lparr>pCurrDev := Master, master := set_reg REG_DEVICE_HEAD dh (master c)\<rparr>)"
    using assms(2) by (simp add: pio_outb_def on_cur_def)
  have rest: "pio_outb k v e = ret () (e\<lparr>master := set_reg r v (master e)\<rparr>)"
    if "pCurrDev e = Master" "bIsPresent (master e)"
      "(k, r) \<in> {(2, REG_SECTOR_COUNT), (3, REG_SECTOR_NUMBER), (4, REG_CYLINDER_LOW),
        (5, REG_CYLINDER_HIGH)}" for k v r e
    using that by (auto simp: pio_outb_def on_cur_def cur_def)
  show ?thesis
    using present by (simp add: ata_address_def head rest addressed_def) (simp add: set_reg_def)
qed

text \<open>The first of the addressed bytes in the file, with 28-bit addressing.\<close>

definition lba_nat :: "uint8 \<Rightarrow> uint8 \<Rightarrow> uint8 \<Rightarrow> uint8 \<Rightarrow> nat" where
  "lba_nat dh ch cl sn = unat (dh AND 0xF) * 16777216 + unat ch * 65536 + unat cl * 256 + unat sn"

lemma unat_low_nibble: "unat ((x :: uint8) AND 0xF) < 16"
proof -
  have "unat (take_bit 4 x) < 2 ^ 4" by (simp only: unsigned_take_bit_eq take_bit_nat_less_exp)
  then show ?thesis by (simp add: and_low_bits)
qed

lemma unat_lba_of_regs:
  assumes "r ! REG_DEVICE_HEAD = dh" and "r ! REG_CYLINDER_HIGH = ch"
    and "r ! REG_CYLINDER_LOW = cl" and "r ! REG_SECTOR_NUMBER = sn"
  shows "unat (ucast (lba_of_regs r) * 512 :: uint64) = 512 * lba_nat dh ch cl sn"
proof -
  note b = unat_byte [of ch] unat_byte [of cl] unat_byte [of sn] unat_low_nibble [of dh]
  have 1: "unat (push_bit 8 (ucast cl) OR ucast sn :: uint32) = unat cl * 256 + unat sn"
    using b by (subst unat_push_or) (simp_all add: unat_ucast_8_32)
  have 2: "unat (push_bit 16 (ucast ch) OR (push_bit 8 (ucast cl) OR ucast sn) :: uint32) =
      unat ch * 65536 + (unat cl * 256 + unat sn)"
    using b by (subst unat_push_or) (simp_all add: unat_ucast_8_32 1)
  have 3: "unat (push_bit 24 (ucast (dh AND 0xF)) OR
        (push_bit 16 (ucast ch) OR (push_bit 8 (ucast cl) OR ucast sn)) :: uint32) =
      unat (dh AND 0xF) * 16777216 + (unat ch * 65536 + (unat cl * 256 + unat sn))"
    using b by (subst unat_push_or) (simp_all add: unat_ucast_8_32 2)
  have l: "unat (lba_of_regs r) = lba_nat dh ch cl sn"
    using 3 by (simp add: lba_of_regs_def assms lba_nat_def or.assoc add.assoc)
  have "lba_nat dh ch cl sn < 2 ^ 28"
    using b by (simp add: lba_nat_def)
  moreover have "unat (ucast (lba_of_regs r) :: uint64) = lba_nat dh ch cl sn"
    by (simp only: unsigned_ucast_eq l) (use calculation in \<open>simp add: take_bit_nat_eq_self\<close>)
  ultimately show ?thesis by (simp add: unat_word_ariths)
qed

text \<open>
  With the translation bit clear the registers hold a cylinder, a head and a sector, and the
  controller numbers the sectors with 255 heads of 63 sectors.
\<close>

definition chs_nat :: "uint8 \<Rightarrow> uint8 \<Rightarrow> uint8 \<Rightarrow> uint8 \<Rightarrow> nat" where
  "chs_nat dh ch cl sn =
     ((unat ch * 256 + unat cl) * 255 + unat (dh AND 0xF)) * 63 + (unat sn - 1)"

definition sector_nat :: "uint8 \<Rightarrow> uint8 \<Rightarrow> uint8 \<Rightarrow> uint8 \<Rightarrow> nat" where
  "sector_nat dh ch cl sn =
     (if drop_bit 6 dh AND 1 = 1 then lba_nat dh ch cl sn else chs_nat dh ch cl sn)"

lemma unat_chs_of_regs:
  assumes "r ! REG_DEVICE_HEAD = dh" and "r ! REG_CYLINDER_HIGH = ch"
    and "r ! REG_CYLINDER_LOW = cl" and "r ! REG_SECTOR_NUMBER = sn" and "sn \<noteq> 0"
  shows "unat (ucast (chs_of_regs r) * 512 :: uint64) = 512 * chs_nat dh ch cl sn"
proof -
  note b = unat_byte [of ch] unat_byte [of cl] unat_byte [of sn] unat_low_nibble [of dh]
  have sn: "1 \<le> unat sn" using assms(5) by (simp add: unat_gt_0 Suc_le_eq)
  have 1: "push_bit 8 (ucast ch) OR ucast cl = (of_nat (unat ch * 256 + unat cl) :: uint32)"
    by (subst word_unat_eq_iff, subst unat_push_or)
       (use b in \<open>simp_all add: unat_ucast_8_32 unat_of_nat del: of_nat_add of_nat_mult\<close>)
  have u: "ucast x = (of_nat (unat x) :: uint32)" for x :: uint8
    by (simp add: word_unat_eq_iff unat_ucast_8_32)
  have "chs_of_regs r = of_nat (chs_nat dh ch cl sn)"
    using sn unfolding chs_of_regs_def assms Let_def 1 u [of "dh AND 0xF"] u [of sn] chs_nat_def
    by (simp add: of_nat_diff algebra_simps)
  moreover have lt: "chs_nat dh ch cl sn < 2 ^ 31"
    using b by (simp add: chs_nat_def)
  ultimately have "unat (chs_of_regs r) = chs_nat dh ch cl sn"
    by (simp add: unat_of_nat)
  moreover have "unat (ucast (chs_of_regs r) :: uint64) = unat (chs_of_regs r)"
    by (simp only: unsigned_ucast_eq) (use lt calculation in \<open>simp add: take_bit_nat_eq_self\<close>)
  ultimately show ?thesis using lt by (simp add: unat_word_ariths)
qed

text \<open>Words written to the data port fill the buffer; the last one flushes it.\<close>

lemma take_wr_bytes:
  "wr_bytes b (int i) bs = Inr b' \<Longrightarrow> take i b' = take i b \<and> take (i + length bs) b' = take i b @ bs"
  by (auto simp: wr_bytes_def in_range_def split: if_split_asm)

lemma write_words_run:
  assumes "pCurrDev c = Master" and "writeBuffer (master c) = Some b"
    and "writeBufferOffset (master c) = int (2 * i)" and "writeBufferSize (master c) = int (length b)"
    and "2 * (i + length ws) = length b" and "ws \<noteq> []"
  shows "handler_run ata_hdl (map (Out16 0x1F0) ws) c =
    emit [Irq_Set 14 1] (replicate (length ws) 0)
      (c\<lparr>master := flush_write ((master c)\<lparr>writeBuffer := Some (take (2 * i) b @ bytes_of_words ws),
         writeBufferOffset := int (length b)\<rparr>)\<rparr>)"
  using assms
proof (induction ws arbitrary: c b i)
  case Nil
  then show ?case by simp
next
  case (Cons w ws)
  let ?b = "take (2 * i) b @ le_bytes 2 w @ drop (2 * i + 2) b"
  let ?c = "c\<lparr>master := (master c)\<lparr>writeBuffer := Some ?b, writeBufferOffset := int (2 * Suc i)\<rparr>\<rparr>"
  have wr: "wr_bytes b (2 * int i) (le_bytes 2 w) = Inr ?b"
    using Cons.prems by (simp add: wr_bytes_def in_range_def nat_mult_distrib)
  have tk: "take (2 * Suc i) ?b = take (2 * i) b @ le_bytes 2 w"
    using Cons.prems by simp
  show ?case
  proof (cases "ws = []")
    case True
    moreover have "2 * int i + 2 = int (length b)" using Cons.prems True by simp
    ultimately show ?thesis using Cons.prems wr
      by (simp add: pio_outw_def cur_def on_cur_def Let_def)
  next
    case False
    then have "2 * int i + 2 \<noteq> int (length b)" using Cons.prems by (cases ws) auto
    then have step: "pio_outw 0 w c = ret () ?c"
      using Cons.prems wr by (simp add: pio_outw_def cur_def on_cur_def Let_def)
    have "handler_run ata_hdl (map (Out16 0x1F0) ws) ?c =
      emit [Irq_Set 14 1] (replicate (length ws) 0)
        (?c\<lparr>master := flush_write ((master ?c)\<lparr>writeBuffer := Some (take (2 * Suc i) ?b @ bytes_of_words ws),
           writeBufferOffset := int (length ?b)\<rparr>)\<rparr>)"
      by (rule Cons.IH) (use Cons.prems False in auto)
    moreover have "length ?b = length b" using Cons.prems by simp
    ultimately show ?thesis
      unfolding tk by (simp add: step ebind_emit)
  qed
qed

text \<open>Words read from the data port come from the buffer, in order.\<close>

lemma set_fields [simp]:
  "readBuffer (set_reg r v d) = readBuffer d" "readBufferOffset (set_reg r v d) = readBufferOffset d"
  "readBufferSize (set_reg r v d) = readBufferSize d" "backingfile (set_reg r v d) = backingfile d"
  "writeBuffer (set_reg r v d) = writeBuffer d" "writeBufferOffset (set_reg r v d) = writeBufferOffset d"
  "writeBufferSize (set_reg r v d) = writeBufferSize d" "identify (set_reg r v d) = identify d"
  "writeBufferLBA (set_reg r v d) = writeBufferLBA d" "dtype (set_reg r v d) = dtype d"
  by (simp_all add: set_reg_def)

lemma after_word_fields [simp]:
  "readBuffer (after_word d) = readBuffer d" "readBufferOffset (after_word d) = readBufferOffset d"
  "readBufferSize (after_word d) = readBufferSize d" "backingfile (after_word d) = backingfile d"
  by (simp_all add: after_word_def set_status_def set_ok_def)

lemma read_words_run:
  assumes "pCurrDev c = Master" and "readBuffer (master c) = Some b"
    and "readBufferOffset (master c) = int (2 * i)" and "2 * (i + k) \<le> length b"
  shows "\<exists>c'. handler_run ata_hdl (replicate k (In16 0x1F0)) c =
      emit [] (map ucast (words_of_bytes (take (2 * k) (drop (2 * i) b)))) c' \<and>
    pCurrDev c' = Master \<and> readBuffer (master c') = Some b \<and>
    readBufferOffset (master c') = int (2 * (i + k)) \<and> backingfile (master c') = backingfile (master c)"
  using assms
proof (induction k arbitrary: c i)
  case 0
  then show ?case by simp
next
  case (Suc k)
  let ?c = "c\<lparr>master := after_word ((master c)\<lparr>readBufferOffset := int (2 * Suc i)\<rparr>)\<rparr>"
  have d: "drop (2 * i) b = b ! (2 * i) # b ! (2 * i + 1) # drop (2 * Suc i) b"
    using Suc.prems by (simp add: Cons_nth_drop_Suc)
  have rd: "rd_bytes b (2 * int i) 2 = Inr [b ! (2 * i), b ! (2 * i + 1)]"
    using Suc.prems by (simp add: rd_bytes_def in_range_def nat_mult_distrib d)
  have step: "pio_inw 0 c = ret (le_word [b ! (2 * i), b ! (2 * i + 1)]) ?c"
    using Suc.prems rd by (simp add: pio_inw_def cur_def on_cur_def add.commute)
  have "\<exists>c'. handler_run ata_hdl (replicate k (In16 0x1F0)) ?c =
      emit [] (map ucast (words_of_bytes (take (2 * k) (drop (2 * Suc i) b)))) c' \<and>
    pCurrDev c' = Master \<and> readBuffer (master c') = Some b \<and>
    readBufferOffset (master c') = int (2 * (Suc i + k)) \<and> backingfile (master c') = backingfile (master ?c)"
    by (rule Suc.IH) (use Suc.prems in auto)
  then show ?case by (auto simp: step d)
qed

text \<open>The two commands, from an addressed drive.\<close>

lemma addressed_simps:
  assumes "length (areg (master c)) = 12"
  shows "pCurrDev (addressed dh n sn cl ch c) = Master"
    and "areg (master (addressed dh n sn cl ch c)) ! REG_DEVICE_HEAD = dh"
    and "areg (master (addressed dh n sn cl ch c)) ! REG_SECTOR_COUNT = n"
    and "areg (master (addressed dh n sn cl ch c)) ! REG_SECTOR_NUMBER = sn"
    and "areg (master (addressed dh n sn cl ch c)) ! REG_CYLINDER_LOW = cl"
    and "areg (master (addressed dh n sn cl ch c)) ! REG_CYLINDER_HIGH = ch"
    and "backingfile (master (addressed dh n sn cl ch c)) = backingfile (master c)"
    and "bIsPresent (master (addressed dh n sn cl ch c)) = bIsPresent (master c)"
  using assms by (simp_all add: addressed_def)

lemma command_port:
  assumes "pCurrDev c = Master" and "bIsPresent (master c)"
  shows "pio_outb 7 v c = ebind (emit [Irq_Set 14 0] () (c\<lparr>master := set_reg REG_COMMAND v (master c)\<rparr>))
    (\<lambda>_. do_command v)"
  using assms by (simp add: pio_outb_def cur_def on_cur_def)

lemma write_command_run:
  assumes wf: "ata_wf c" and dh: "drop_bit 6 dh AND 1 = 1" and n: "n \<noteq> 0"
  shows "\<exists>c'. pio_outb 7 0x30 (addressed dh n sn cl ch c) = emit [Irq_Set 14 0, Irq_Set 14 0] () c' \<and>
    pCurrDev c' = Master \<and> writeBuffer (master c') = Some (replicate (unat n * 512) 0) \<and>
    writeBufferOffset (master c') = 0 \<and> writeBufferSize (master c') = int (unat n * 512) \<and>
    unat (writeBufferLBA (master c') * 512) = 512 * lba_nat dh ch cl sn \<and>
    backingfile (master c') = backingfile (master c)"
proof -
  have len: "length (areg (master c)) = 12" "bIsPresent (master c)"
    using wf by (simp_all add: ata_wf_def dev_wf_def)
  note a = addressed_simps [OF len(1), of dh n sn cl ch]
  let ?c = "(addressed dh n sn cl ch c)"
  let ?r = "areg (set_reg REG_COMMAND 0x30 (master ?c))"
  have r: "?r ! REG_DEVICE_HEAD = dh" "?r ! REG_SECTOR_COUNT = n" "?r ! REG_SECTOR_NUMBER = sn"
    "?r ! REG_CYLINDER_LOW = cl" "?r ! REG_CYLINDER_HIGH = ch"
    using a by (simp_all add: set_reg_def)
  show ?thesis
    using a len dh n r unat_lba_of_regs [OF r(1,5,4,3)]
    by (simp add: command_port do_command_def cmd_write_sectors_def Let_def cur_def on_cur_def
        ebind_emit set_status_def set_ok_def)
qed

lemma read_command_run:
  assumes wf: "ata_wf c" and dh: "drop_bit 6 dh AND 1 = 1 \<or> sn \<noteq> 0" and n: "n \<noteq> 0"
  shows "\<exists>c'. pio_outb 7 0x20 (addressed dh n sn cl ch c) =
      emit [Irq_Set 14 0, Irq_Set 14 0, Irq_Set 14 1] () c' \<and>
    pCurrDev c' = Master \<and> readBufferOffset (master c') = 0 \<and>
    readBuffer (master c') = Some (overlay (replicate (unat n * 512) 0)
      (file_read (backingfile (master c)) (512 * sector_nat dh ch cl sn) (unat n * 512))) \<and>
    backingfile (master c') = backingfile (master c)"
proof -
  have len: "length (areg (master c)) = 12" "bIsPresent (master c)"
    using wf by (simp_all add: ata_wf_def dev_wf_def)
  note a = addressed_simps [OF len(1), of dh n sn cl ch]
  let ?c = "(addressed dh n sn cl ch c)"
  let ?r = "areg (set_reg REG_COMMAND 0x20 (master ?c))"
  have r: "?r ! REG_DEVICE_HEAD = dh" "?r ! REG_SECTOR_COUNT = n" "?r ! REG_SECTOR_NUMBER = sn"
    "?r ! REG_CYLINDER_LOW = cl" "?r ! REG_CYLINDER_HIGH = ch"
    using a by (simp_all add: set_reg_def)
  have off: "unat (ucast (if drop_bit 6 dh AND 1 = 1 then lba_of_regs ?r else chs_of_regs ?r) * 512
      :: uint64) = 512 * sector_nat dh ch cl sn"
    using dh unat_lba_of_regs [OF r(1,5,4,3)] unat_chs_of_regs [OF r(1,5,4,3)]
    by (auto simp: sector_nat_def)
  show ?thesis
    using a len n r off
    by (cases "drop_bit 6 dh AND 1 = 1")
       (simp_all add: command_port do_command_def cmd_read_sectors_def Let_def cur_def on_cur_def
        ebind_emit set_status_def set_ok_def unat_eq_0)
qed

text \<open>The whole of a write, and the whole of a read.\<close>

definition ata_write :: "uint8 \<Rightarrow> uint8 \<Rightarrow> uint8 \<Rightarrow> uint8 \<Rightarrow> uint8 \<Rightarrow> uint16 list \<Rightarrow> access list" where
  "ata_write dh n sn cl ch ws =
     ata_address dh n sn cl ch @ [Out8 0x1F7 0x30] @ map (Out16 0x1F0) ws"

definition ata_read :: "uint8 \<Rightarrow> uint8 \<Rightarrow> uint8 \<Rightarrow> uint8 \<Rightarrow> uint8 \<Rightarrow> access list" where
  "ata_read dh n sn cl ch =
     ata_address dh n sn cl ch @ [Out8 0x1F7 0x20] @ replicate (256 * unat n) (In16 0x1F0)"

lemma single_run:
  "pio_outb (p - 0x1F0) v c = emit es () c' \<Longrightarrow> handler_run ata_hdl [Out8 p v] c = emit es [0] c'"
  by (simp add: ebind_emit)

lemma ata_write_run:
  assumes wf: "ata_wf c" and dh: "drop_bit 4 dh AND 1 = 0" "drop_bit 6 dh AND 1 = 1"
    and n: "n \<noteq> 0" and len: "length ws = 256 * unat n"
  shows "\<exists>c'. handler_run ata_hdl (ata_write dh n sn cl ch ws) c =
      emit [Irq_Set 14 0, Irq_Set 14 0, Irq_Set 14 1] (replicate (6 + 256 * unat n) 0) c' \<and>
    backingfile (master c') =
      file_write (backingfile (master c)) (512 * lba_nat dh ch cl sn) (bytes_of_words ws)"
proof -
  obtain c1 where c1: "pio_outb 7 0x30 (addressed dh n sn cl ch c) =
      emit [Irq_Set 14 0, Irq_Set 14 0] () c1"
    "pCurrDev c1 = Master" "writeBuffer (master c1) = Some (replicate (unat n * 512) 0)"
    "writeBufferOffset (master c1) = 0" "writeBufferSize (master c1) = int (unat n * 512)"
    "unat (writeBufferLBA (master c1) * 512) = 512 * lba_nat dh ch cl sn"
    "backingfile (master c1) = backingfile (master c)"
    using write_command_run [OF wf dh(2) n] by blast
  let ?d = "(master c1)\<lparr>writeBuffer := Some (bytes_of_words ws), writeBufferOffset := int (unat n * 512)\<rparr>"
  have ne: "ws \<noteq> []" using len n by (auto simp: unat_eq_0)
  have w: "handler_run ata_hdl (map (Out16 0x1F0) ws) c1 =
      emit [Irq_Set 14 1] (replicate (length ws) 0) (c1\<lparr>master := flush_write ?d\<rparr>)"
    using write_words_run [OF c1(2,3), of 0 ws] c1(4,5) len ne by simp
  have cmd: "handler_run ata_hdl [Out8 0x1F7 0x30] (addressed dh n sn cl ch c) =
      emit [Irq_Set 14 0, Irq_Set 14 0] [0] c1"
    by (rule single_run) (use c1(1) in simp)
  have "backingfile (flush_write ?d) =
      file_write (backingfile (master c)) (512 * lba_nat dh ch cl sn) (bytes_of_words ws)"
  proof -
    have "nat (writeBufferSize (master c1)) = length (bytes_of_words ws)"
      unfolding c1(5) nat_int using len by simp
    then show ?thesis using c1(6,7) by (simp add: flush_write_def set_status_def)
  qed
  moreover have "[0, 0, 0, 0, 0] @ [0] @ replicate (length ws) 0 = replicate (6 + 256 * unat n) (0 :: uint32)"
    by (simp add: len replicate_add [symmetric] numeral_eq_Suc)
  ultimately show ?thesis
    using run_with_append_emit [OF ata_address_run [OF wf dh(1)] run_with_append_emit [OF cmd w]]
    by (intro exI [of _ "c1\<lparr>master := flush_write ?d\<rparr>"]) (simp add: ata_write_def)
qed

lemma ata_read_run:
  assumes wf: "ata_wf c" and dh: "drop_bit 4 dh AND 1 = 0" "drop_bit 6 dh AND 1 = 1 \<or> sn \<noteq> 0" and n: "n \<noteq> 0"
  shows "\<exists>c'. handler_run ata_hdl (ata_read dh n sn cl ch) c =
      emit [Irq_Set 14 0, Irq_Set 14 0, Irq_Set 14 1] (replicate 6 0 @ map ucast (words_of_bytes
        (overlay (replicate (unat n * 512) 0)
          (file_read (backingfile (master c)) (512 * sector_nat dh ch cl sn) (unat n * 512))))) c' \<and>
    backingfile (master c') = backingfile (master c)"
proof -
  let ?f = "file_read (backingfile (master c)) (512 * sector_nat dh ch cl sn) (unat n * 512)"
  let ?b = "overlay (replicate (unat n * 512) 0) ?f"
  obtain c1 where c1: "pio_outb 7 0x20 (addressed dh n sn cl ch c) =
      emit [Irq_Set 14 0, Irq_Set 14 0, Irq_Set 14 1] () c1"
    "pCurrDev c1 = Master" "readBufferOffset (master c1) = 0" "readBuffer (master c1) = Some ?b"
    "backingfile (master c1) = backingfile (master c)"
    using read_command_run [OF wf dh(2) n] by blast
  have len: "length ?b = 512 * unat n" by (simp add: file_read_def)
  obtain c2 where c2: "handler_run ata_hdl (replicate (256 * unat n) (In16 0x1F0)) c1 =
      emit [] (map ucast (words_of_bytes (take (2 * (256 * unat n)) (drop (2 * 0) ?b)))) c2"
    "backingfile (master c2) = backingfile (master c1)"
    using read_words_run [OF c1(2,4), of 0 "256 * unat n"] c1(3) len by auto
  have cmd: "handler_run ata_hdl [Out8 0x1F7 0x20] (addressed dh n sn cl ch c) =
      emit [Irq_Set 14 0, Irq_Set 14 0, Irq_Set 14 1] [0] c1"
    by (rule single_run) (use c1(1) in simp)
  have "take (2 * (256 * unat n)) (drop (2 * 0) ?b) = ?b" using len by simp
  with run_with_append_emit [OF ata_address_run [OF wf dh(1)] run_with_append_emit [OF cmd c2(1)]]
  show ?thesis
    using c2(2) c1(5) by (intro exI [of _ c2]) (simp add: ata_read_def numeral_eq_Suc)
qed

text \<open>
  C1: sectors survive. Writing any words as \<open>n\<close> sectors to a 28-bit sector number of the
  master and reading the same sectors back delivers the same words, with the interrupt
  raised once at the end of the write and once for the read; the disk image is the old one
  with exactly these bytes replaced (and grown when they lie beyond its end).
\<close>

theorem ata_sector_roundtrip:
  assumes "ata_wf c" and "drop_bit 4 dh AND 1 = 0" and "drop_bit 6 dh AND 1 = 1"
    and "n \<noteq> 0" and "length ws = 256 * unat n"
  shows "\<exists>c'. handler_run ata_hdl (ata_write dh n sn cl ch ws @ ata_read dh n sn cl ch) c =
      emit ([Irq_Set 14 0, Irq_Set 14 0, Irq_Set 14 1] @ [Irq_Set 14 0, Irq_Set 14 0, Irq_Set 14 1])
        (replicate (6 + 256 * unat n) 0 @ replicate 6 0 @ map ucast ws) c' \<and>
    backingfile (master c') =
      file_write (backingfile (master c)) (512 * lba_nat dh ch cl sn) (bytes_of_words ws)"
proof -
  obtain c1 where c1: "handler_run ata_hdl (ata_write dh n sn cl ch ws) c =
      emit [Irq_Set 14 0, Irq_Set 14 0, Irq_Set 14 1] (replicate (6 + 256 * unat n) 0) c1"
    "backingfile (master c1) =
      file_write (backingfile (master c)) (512 * lba_nat dh ch cl sn) (bytes_of_words ws)"
    using ata_write_run [OF assms] by blast
  have wf1: "ata_wf c1"
    by (rule ata.run_inv [OF assms(1) c1(1) [unfolded emit_def]])
  have len: "unat n * 512 = length (bytes_of_words ws)" by (simp add: assms(5))
  have "overlay (replicate (unat n * 512) 0) (bytes_of_words ws) = bytes_of_words ws"
    by (simp add: overlay_def len)
  then have "words_of_bytes (overlay (replicate (unat n * 512) 0)
      (file_read (backingfile (master c1)) (512 * lba_nat dh ch cl sn) (unat n * 512))) = ws"
    unfolding c1(2) len file_read_write_same by simp
  moreover have "sector_nat dh ch cl sn = lba_nat dh ch cl sn"
    using assms(3) by (simp add: sector_nat_def)
  ultimately obtain c2 where
    "handler_run ata_hdl (ata_read dh n sn cl ch) c1 =
      emit [Irq_Set 14 0, Irq_Set 14 0, Irq_Set 14 1] (replicate 6 0 @ map ucast ws) c2"
    "backingfile (master c2) = backingfile (master c1)"
    using ata_read_run [OF wf1 assms(2) _ assms(4), of sn cl ch] assms(3) by auto
  with run_with_append_emit [OF c1(1) this(1)] c1(2) show ?thesis by auto
qed

subsection \<open>Identification\<close>

lemma length_strncpy_words [simp]:
  "i + n div 2 \<le> length ws \<Longrightarrow> length (strncpy_words i str n ws) = length ws"
  by (simp add: strncpy_words_def length_words_of_bytes)

lemma nth_strncpy_words [simp]:
  assumes "i + n div 2 \<le> length ws" and "k < i \<or> i + n div 2 \<le> k" and "k < length ws"
  shows "strncpy_words i str n ws ! k = ws ! k"
proof -
  have "min (length str) n + (n - length str) = n" by simp
  with assms show ?thesis by (auto simp: strncpy_words_def nth_append length_words_of_bytes)
qed

lemma length_swap_words [simp]:
  "length (foldl (\<lambda>w i. w[27 + i := swap_word (w ! (27 + i))]) ws xs) = length ws"
  by (induction xs arbitrary: ws) simp_all

lemma nth_swap_words [simp]:
  "k < 27 \<or> 46 < k \<Longrightarrow> set xs \<subseteq> {0..<20} \<Longrightarrow>
     foldl (\<lambda>w i. w[27 + i := swap_word (w ! (27 + i))]) ws xs ! k = ws ! k"
  by (induction xs arbitrary: ws) auto

lemma length_identify [simp]: "length (identify (build_identify_data d)) = 256"
  by (simp add: build_identify_data_def Let_def)

text \<open>
  What the words say of the disk: heads, sectors per track and cylinders, and the sector
  count in two words, twice.
\<close>

definition identify_geometry :: "uint16 list \<Rightarrow> nat \<times> nat \<times> nat" where
  "identify_geometry ws = (unat (ws ! 1), unat (ws ! 3), unat (ws ! 6))"

definition identify_sectors :: "uint16 list \<Rightarrow> nat" where
  "identify_sectors ws = unat (ws ! 61) * 65536 + unat (ws ! 60)"

lemma nth_identify:
  "identify (build_identify_data d) ! 1 =
     ucast (devNumSectors d div (ucast (ata_heads (devNumSectors d)) * 63))"
  "identify (build_identify_data d) ! 3 = ata_heads (devNumSectors d)"
  "identify (build_identify_data d) ! 6 = 63"
  "identify (build_identify_data d) ! 60 = ucast (devNumSectors d AND 0xFFFF)"
  "identify (build_identify_data d) ! 61 = ucast (drop_bit 16 (devNumSectors d AND 0xFFFF0000))"
  "identify (build_identify_data d) ! 57 = identify (build_identify_data d) ! 60"
  "identify (build_identify_data d) ! 58 = identify (build_identify_data d) ! 61"
  by (simp_all add: build_identify_data_def Let_def)

lemma identify_sectors_build:
  assumes "length (backingfile d) div 512 < 2 ^ 32"
  shows "identify_sectors (identify (build_identify_data d)) = length (backingfile d) div 512"
proof -
  let ?w = "devNumSectors d"
  have w: "unat ?w = length (backingfile d) div 512"
    unfolding devNumSectors_def unat_of_nat by (rule mod_less) (use assms in simp)
  have "unat (ucast (?w AND 0xFFFF) :: uint16) = unat ?w mod 65536"
  proof -
    have "?w AND 0xFFFF = take_bit 16 ?w" by (simp add: take_bit_eq_mask mask_eq_exp_minus_1)
    then show ?thesis
      by (simp only: unsigned_ucast_eq unsigned_take_bit_eq) (simp add: take_bit_eq_mod)
  qed
  moreover have "unat (ucast (drop_bit 16 (?w AND 0xFFFF0000)) :: uint16) = unat ?w div 65536"
  proof -
    have "drop_bit 16 (?w AND 0xFFFF0000) = drop_bit 16 ?w AND 0xFFFF" by simp
    also have "\<dots> = take_bit 16 (drop_bit 16 ?w)"
      by (simp add: take_bit_eq_mask mask_eq_exp_minus_1)
    finally have "unat (ucast (drop_bit 16 (?w AND 0xFFFF0000)) :: uint16) =
        unat (drop_bit 16 ?w) mod 65536"
      by (simp only: unsigned_ucast_eq unsigned_take_bit_eq) (simp add: take_bit_eq_mod)
    moreover have "unat (drop_bit 16 ?w) = unat ?w div 65536"
      by (simp add: unat_div drop_bit_eq_div)
    moreover have "unat ?w < 4294967296" using unsigned_less [of ?w] by simp
    ultimately show ?thesis by simp
  qed
  ultimately show ?thesis
    by (simp add: identify_sectors_def nth_identify w)
qed

text \<open>The identify command, from any state in which the master disk is selected.\<close>

lemma identify_run:
  assumes wf: "ata_wf c" and m: "pCurrDev c = Master" and t: "dtype (master c) = ATA_Disk"
  shows "\<exists>c'. handler_run ata_hdl ([Out8 0x1F7 0xEC] @ replicate 256 (In16 0x1F0)) c =
      emit [Irq_Set 14 0, Irq_Set 14 0] (0 # map ucast (identify (master c))) c' \<and>
    readBuffer (master c') = Some (bytes_of_words (identify (master c))) \<and>
    readBufferOffset (master c') = 512 \<and> pCurrDev c' = Master"
proof -
  let ?b = "bytes_of_words (identify (master c))"
  have p: "bIsPresent (master c)" "length ?b = 512"
    using wf by (simp_all add: ata_wf_def dev_wf_def)
  obtain c1 where c1: "pio_outb 7 0xEC c = emit [Irq_Set 14 0, Irq_Set 14 0] () c1"
    "pCurrDev c1 = Master" "readBuffer (master c1) = Some ?b" "readBufferOffset (master c1) = 0"
    using m t p by (simp add: command_port do_command_def cmd_identify_device_def cur_def on_cur_def
        ebind_emit set_ok_def set_status_def)
  obtain c2 where c2: "handler_run ata_hdl (replicate 256 (In16 0x1F0)) c1 =
      emit [] (map ucast (words_of_bytes (take (2 * 256) (drop (2 * 0) ?b)))) c2"
    "pCurrDev c2 = Master" "readBuffer (master c2) = Some ?b"
    "readBufferOffset (master c2) = int (2 * (0 + 256))"
    using read_words_run [OF c1(2,3), of 0 256] c1(4) p(2) by auto
  have cmd: "handler_run ata_hdl [Out8 0x1F7 0xEC] c = emit [Irq_Set 14 0, Irq_Set 14 0] [0] c1"
    by (rule single_run) (use c1(1) in simp)
  have "take (2 * 256) (drop (2 * 0) ?b) = ?b" using p(2) by simp
  with run_with_append_emit [OF cmd c2(1)] c2(2-4) show ?thesis by auto
qed

text \<open>The controller as initialised for an image.\<close>

definition ata_boot :: "uint8 list \<Rightarrow> atactl" where
  "ata_boot img = (case x86_ata_init (Some img) of Inr c \<Rightarrow> c | Inl _ \<Rightarrow> undefined)"

lemma x86_ata_init_boot: "x86_ata_init (Some img) = Inr (ata_boot img)"
  by (simp add: ata_boot_def x86_ata_init_def)

lemma ata_boot_fields:
  "master (ata_boot img) = build_identify_data (set_reg REG_STATUS STATUS_DRDY
     (atadev_zero\<lparr>bIsPresent := True, dtype := ATA_Disk, backingfile := img\<rparr>))"
  "pCurrDev (ata_boot img) = Master" "slave (ata_boot img) = atadev_zero"
  "length (ata_conf (ata_boot img)) = pci_conf_size"
  by (simp_all add: ata_boot_def x86_ata_init_def)

lemma ata_boot_master [simp]:
  "dtype (master (ata_boot img)) = ATA_Disk" "backingfile (master (ata_boot img)) = img"
  by (simp_all add: ata_boot_fields build_identify_data_def Let_def set_reg_def)

lemma ata_boot_wf: "ata_wf (ata_boot img)"
  unfolding ata_wf_def ata_boot_fields(1,3)
  using ata_boot_fields(4) by (simp add: dev_wf_def) (simp add: build_identify_data_def Let_def
    atadev_zero_def set_reg_def)

text \<open>
  C25: identification. On the controller as initialised for a disk image of less than 2 TB, the
  identify command and 256 reads of the data port deliver 256 words that say how many sectors of 512
  bytes the image has, and a geometry of 63 sectors per track and 16 heads, or 15 above 16514064
  sectors, with as many whole cylinders as fit into the image, modulo 65536: the cylinder
  count has 16 bits and is not capped.
\<close>

theorem ata_identify:
  assumes "x86_ata_init (Some img) = Inr c" and "length img div 512 < 2 ^ 32"
  shows "\<exists>ws c'. handler_run ata_hdl ([Out8 0x1F7 0xEC] @ replicate 256 (In16 0x1F0)) c =
      emit [Irq_Set 14 0, Irq_Set 14 0] (0 # map ucast ws) c' \<and>
    length ws = 256 \<and> identify_sectors ws = length img div 512 \<and>
    (let n = length img div 512; heads = (if n \<le> 16514064 then 16 else 15) in
       identify_geometry ws = (n div (heads * 63) mod 65536, heads, 63))"
proof -
  let ?d = "set_reg REG_STATUS STATUS_DRDY
           (atadev_zero\<lparr>bIsPresent := True, dtype := ATA_Disk, backingfile := img\<rparr>)"
  have boot: "c = ata_boot img" using assms(1) x86_ata_init_boot by auto
  have c: "master c = build_identify_data ?d" "pCurrDev c = Master"
    unfolding boot by (rule ata_boot_fields)+
  let ?w = "devNumSectors ?d"
  have w: "unat ?w = length img div 512"
  proof -
    have "length img div 512 mod 4294967296 = length img div 512" using assms(2) by simp
    then show ?thesis by (simp add: devNumSectors_def unat_of_nat)
  qed
  have geo: "let n = length img div 512; heads = (if n \<le> 16514064 then 16 else 15) in
      identify_geometry (identify (master c)) = (n div (heads * 63) mod 65536, heads, 63)"
  proof -
    have h: "ata_heads ?w = (if length img div 512 \<le> 16514064 then 16 else 15)"
      using w by (auto simp: ata_heads_def word_le_nat_alt word_less_nat_alt)
    have cyl: "unat (ucast (?w div k) :: uint16) = length img div 512 div unat k mod 65536" for k
      by (simp only: unsigned_ucast_eq) (simp add: take_bit_eq_mod unat_div w)
    show ?thesis unfolding identify_geometry_def c(1) nth_identify h Let_def cyl by simp
  qed
  have "identify_sectors (identify (master c)) = length img div 512"
    unfolding c(1) by (subst identify_sectors_build) (use assms(2) in simp_all)
  moreover have "length (identify (master c)) = 256" unfolding c(1) by simp
  moreover have "ata_wf c" "dtype (master c) = ATA_Disk" by (simp_all add: boot ata_boot_wf)
  ultimately show ?thesis using identify_run [of c] geo c(2) by blast
qed

theorem ata_identify_witness:
  "\<exists>ws c'. handler_run ata_hdl ([Out8 0x1F7 0xEC] @ replicate 256 (In16 0x1F0))
      (ata_boot (replicate 2048 0)) = emit [Irq_Set 14 0, Irq_Set 14 0] (0 # map ucast ws) c' \<and>
    identify_sectors ws = 4"
  using ata_identify [OF x86_ata_init_boot, of "replicate 2048 0"] by simp blast

theorem ata_sector_roundtrip_witness:
  "\<exists>c'. handler_run ata_hdl (ata_write 0xE0 1 3 0 0 (replicate 256 0xCAFE) @ ata_read 0xE0 1 3 0 0)
      (ata_boot []) =
      emit ([Irq_Set 14 0, Irq_Set 14 0, Irq_Set 14 1] @ [Irq_Set 14 0, Irq_Set 14 0, Irq_Set 14 1])
        (replicate (6 + 256 * 1) 0 @ replicate 6 0 @ map ucast (replicate 256 (0xCAFE :: uint16))) c' \<and>
    length (backingfile (master c')) = 2048"
proof -
  have p: "drop_bit 4 (0xE0 :: uint8) AND 1 = 0" "drop_bit 6 (0xE0 :: uint8) AND 1 = 1" "(1 :: uint8) \<noteq> 0"
    "length (replicate 256 (0xCAFE :: uint16)) = 256 * unat (1 :: uint8)" by simp_all
  from ata_sector_roundtrip [OF ata_boot_wf p, of 3 0 0 "[]"]
  obtain c' where c': "handler_run ata_hdl (ata_write 0xE0 1 3 0 0 (replicate 256 0xCAFE) @
        ata_read 0xE0 1 3 0 0) (ata_boot []) =
      emit ([Irq_Set 14 0, Irq_Set 14 0, Irq_Set 14 1] @ [Irq_Set 14 0, Irq_Set 14 0, Irq_Set 14 1])
        (replicate (6 + 256 * unat (1 :: uint8)) 0 @ replicate 6 0 @
         map ucast (replicate 256 (0xCAFE :: uint16))) c'"
    "backingfile (master c') = file_write [] (512 * lba_nat 0xE0 0 0 3)
       (bytes_of_words (replicate 256 0xCAFE))"
    unfolding ata_boot_master by blast
  moreover have "lba_nat 0xE0 0 0 3 = 3" by (simp add: lba_nat_def)
  ultimately show ?thesis
    by (intro exI [of _ c'] conjI) (simp_all only: length_file_write length_bytes_of_words unat_1
        length_replicate, simp)
qed

subsection \<open>Where the model departs from a disk\<close>

text \<open>
  C29: cylinder, head and sector addressing. With the translation bit clear, a read of \<open>n\<close>
  sectors inside the image delivers the sectors from the number computed with 255 heads
  on, while the identification announces 16 (or 15) heads: for every address with a
  non-zero cylinder this is not the sector the announced geometry gives.
\<close>

theorem ata_chs_uses_255_heads:
  assumes "ata_wf c" and "drop_bit 4 dh AND 1 = 0" and "drop_bit 6 dh AND 1 = 0"
    and "n \<noteq> 0" and "sn \<noteq> 0"
    and "512 * chs_nat dh ch cl sn + 512 * unat n \<le> length (backingfile (master c))"
  shows "\<exists>c'. handler_run ata_hdl (ata_read dh n sn cl ch) c =
      emit [Irq_Set 14 0, Irq_Set 14 0, Irq_Set 14 1] (replicate 6 0 @ map ucast (words_of_bytes
        (file_read (backingfile (master c)) (512 * chs_nat dh ch cl sn) (512 * unat n)))) c' \<and>
    (let cyl = unat ch * 256 + unat cl; hd = unat (dh AND 0xF);
         heads = unat (ata_heads (devNumSectors (master c))) in
     chs_nat dh ch cl sn = (cyl * heads + hd) * 63 + (unat sn - 1) \<longleftrightarrow> cyl = 0)"
proof -
  have s: "sector_nat dh ch cl sn = chs_nat dh ch cl sn" using assms(3) by (simp add: sector_nat_def)
  have l: "length (file_read (backingfile (master c)) (512 * chs_nat dh ch cl sn) (unat n * 512)) =
      unat n * 512" using assms(6) by (simp add: file_read_def)
  then have o: "overlay (replicate (unat n * 512) 0)
      (file_read (backingfile (master c)) (512 * chs_nat dh ch cl sn) (unat n * 512)) =
      file_read (backingfile (master c)) (512 * chs_nat dh ch cl sn) (unat n * 512)"
    by (simp add: overlay_def)
  have "unat (ata_heads (devNumSectors (master c))) \<in> {15, 16}" by (simp add: ata_heads_def)
  then have iff: "(let cyl = unat ch * 256 + unat cl; hd = unat (dh AND 0xF);
         heads = unat (ata_heads (devNumSectors (master c))) in
     chs_nat dh ch cl sn = (cyl * heads + hd) * 63 + (unat sn - 1) \<longleftrightarrow> cyl = 0)"
    by (auto simp: chs_nat_def Let_def)
  from ata_read_run [OF assms(1,2) disjI2 [OF assms(5)] assms(4), of cl ch]
  obtain c' where "handler_run ata_hdl (ata_read dh n sn cl ch) c =
      emit [Irq_Set 14 0, Irq_Set 14 0, Irq_Set 14 1] (replicate 6 0 @ map ucast (words_of_bytes
        (file_read (backingfile (master c)) (512 * chs_nat dh ch cl sn) (unat n * 512)))) c'"
    unfolding s o by blast
  with iff show ?thesis by (simp only: mult.commute [of "unat n"]) blast
qed

theorem ata_chs_uses_255_heads_witness:
  "\<exists>c'. handler_run ata_hdl (ata_read 0xA0 1 1 0 0) (ata_boot (replicate 512 7)) =
      emit [Irq_Set 14 0, Irq_Set 14 0, Irq_Set 14 1] (replicate 6 0 @ map ucast (words_of_bytes
        (file_read (replicate 512 7) (512 * 0) (512 * unat (1 :: uint8))))) c'"
proof -
  have p: "drop_bit 4 (0xA0 :: uint8) AND 1 = 0" "drop_bit 6 (0xA0 :: uint8) AND 1 = 0" "(1 :: uint8) \<noteq> 0"
    by simp_all
  have z: "chs_nat 0xA0 0 0 1 = 0" by (simp add: chs_nat_def)
  have "512 * chs_nat 0xA0 0 0 1 + 512 * unat (1 :: uint8) \<le> length (backingfile (master (ata_boot (replicate 512 7))))"
    by (simp add: z)
  from ata_chs_uses_255_heads [OF ata_boot_wf p p(3) this] show ?thesis
    unfolding z ata_boot_master by blast
qed

text \<open>
  The data port is not guarded. One read more than the 256 words of the identification
  runs off the transfer buffer, and so does any data transfer once the absent slave has
  been selected: reads and writes alike go through its NULL buffer.
\<close>

theorem ata_data_port_unguarded:
  assumes "ata_wf c" and "pCurrDev c = Master" and "dtype (master c) = ATA_Disk"
    and "slave c = atadev_zero"
  shows "handler_run ata_hdl ([Out8 0x1F7 0xEC] @ replicate 257 (In16 0x1F0)) c = Inl Wild_Access \<and>
    handler_run ata_hdl [Out8 0x1F6 0xF0, In16 0x1F0] c = Inl Wild_Access \<and>
    handler_run ata_hdl [Out8 0x1F6 0xF0, Out16 0x1F0 w] c = Inl Wild_Access"
proof (intro conjI)
  have len: "length (identify (master c)) = 256" using assms(1) by (simp add: ata_wf_def dev_wf_def)
  obtain c1 where c1: "handler_run ata_hdl ([Out8 0x1F7 0xEC] @ replicate 256 (In16 0x1F0)) c =
      emit [Irq_Set 14 0, Irq_Set 14 0] (0 # map ucast (identify (master c))) c1"
    "readBuffer (master c1) = Some (bytes_of_words (identify (master c)))"
    "readBufferOffset (master c1) = 512" "pCurrDev c1 = Master"
    using identify_run [OF assms(1-3)] by blast
  have "replicate 257 (In16 0x1F0) = replicate 256 (In16 0x1F0) @ [In16 0x1F0]"
    by (simp add: replicate_append_same flip: replicate_Suc)
  moreover have "handler_run ata_hdl [In16 0x1F0] c1 = Inl Wild_Access"
    using c1(2-4) len by (simp add: pio_inw_def cur_def rd_bytes_def in_range_def)
  ultimately show "handler_run ata_hdl ([Out8 0x1F7 0xEC] @ replicate 257 (In16 0x1F0)) c =
      Inl Wild_Access"
    using c1(1) by (simp only: append_assoc [symmetric] run_with_append) (simp add: ebind_def emit_def)
qed (use assms(4) in \<open>simp_all add: pio_outb_def pio_inw_def pio_outw_def cur_def on_cur_def
    set_reg_def atadev_zero_def\<close>)

theorem ata_data_port_unguarded_witness:
  "handler_run ata_hdl ([Out8 0x1F7 0xEC] @ replicate 257 (In16 0x1F0)) (ata_boot []) =
     Inl Wild_Access"
  using ata_data_port_unguarded [OF ata_boot_wf ata_boot_fields(2) ata_boot_master(1)
      ata_boot_fields(3)] by blast

text \<open>
  Sizing the base address registers. Writing all ones to the first base address register
  leaves it zero, so the probe of the PCI specification finds no region there; the other
  five and the expansion ROM register are zero after any write. Other registers keep what
  is written.
\<close>

theorem ata_bar_probe:
  assumes "ata_wf c" and "reg \<in> {0x10, 0x14, 0x18, 0x1C, 0x20, 0x24, 0x30}"
  shows "\<exists>c'. pciata_writel reg 0xFFFFFFFF c = ret () c' \<and> pciata_readl reg c' = ret 0 c'"
proof -
  have l: "length (ata_conf c) = 304" using assms(1) by (simp add: ata_wf_def pci_conf_size_def)
  have w: "\<exists>f'. conf_write 4 reg (v :: uint32) f = Inr f' \<and> length f' = 304 \<and> conf_read 4 reg f' = Inr (v :: uint32)"
    if "length f = 304" for v f
  proof -
    have "in_range f reg (length (le_bytes 4 v))" using assms(2) that by (auto simp: in_range_def)
    then obtain f' where f': "conf_write 4 reg v f = Inr f'"
      by (auto simp: conf_write_def wr_bytes_def)
    with conf_read_write_4 [OF f'] conf_write_length [OF f'] that show ?thesis by simp
  qed
  obtain f1 where f1: "conf_write 4 reg (0xFFFFFF1 :: uint32) (ata_conf c) = Inr f1" "length f1 = 304"
    using w [OF l] by blast
  obtain f2 where f2: "conf_write 4 reg (0 :: uint32) f1 = Inr f2" "conf_read 4 reg f2 = Inr (0 :: uint32)"
    using w [OF f1(2)] by blast
  obtain f3 where f3: "conf_write 4 reg (0 :: uint32) (ata_conf c) = Inr f3"
    "conf_read 4 reg f3 = Inr (0 :: uint32)"
    using w [OF l] by blast
  show ?thesis
    using assms(2) f1 f2 f3
    by (auto simp: pciata_writel_def pciata_readl_def conf_reader_def PCI_CFG_REG_BAR0_def
        PCI_CFG_REG_EXPROM_def)
qed

theorem ata_bar_probe_witness:
  "\<exists>c'. pciata_writel 0x10 0xFFFFFFFF (ata_boot []) = ret () c' \<and> pciata_readl 0x10 c' = ret 0 c'"
  by (rule ata_bar_probe [OF ata_boot_wf]) simp

end
