(* ===== verification/Vga_Registers.thy ===== *)
theory Vga_Registers
  imports Io_Bus
begin

text \<open>
  The VGA register file, \<^verbatim>\<open>vga/registers.c\<close> with the context of \<^verbatim>\<open>vga/vga.h\<close>: the indexed
  registers (sequencer, graphics controller, CRTC), the palette, and the two dummy port
  ranges registered along with them. The planes of video memory are part of the context;
  \<^verbatim>\<open>vga/ram.c\<close> works on them.
\<close>

record vgactx =
  misc_output_reg :: uint8
  mode_select_reg :: uint8
  seq_ndx :: int
  seq_reg :: "uint8 list"
  attr_ndx :: uint8
  attr_reg :: "uint8 list"
  gcont_ndx :: int
  gcont_reg :: "uint8 list"
  crtc_ndx :: uint8
  crtc_reg :: "uint8 list"
  pel_write_addr :: uint16
  pel_read_addr :: uint16
  pel :: "uint8 list"
  palette :: "uint8 list"
  pVRAM :: "uint8 list list"
  vretrace :: bool

text \<open>
  \<open>vretrace\<close> is the \<^verbatim>\<open>static int b\<close> of the input status register. An element of a register
  array, read and written.
\<close>

definition arr_rd :: "uint8 list \<Rightarrow> int \<Rightarrow> (uint8 \<Rightarrow> ('s, 'a) effect) \<Rightarrow> ('s, 'a) effect" where
  "arr_rd xs i k = (if 0 \<le> i \<and> nat i < length xs then k (xs ! nat i) else Inl Wild_Access)"

definition arr_wr :: "uint8 list \<Rightarrow> int \<Rightarrow> uint8 \<Rightarrow> (uint8 list \<Rightarrow> ('s, 'a) effect) \<Rightarrow> ('s, 'a) effect" where
  "arr_wr xs i v k = (if 0 \<le> i \<and> nat i < length xs then k (xs[nat i := v]) else Inl Wild_Access)"

subsection \<open>Register groups\<close>

definition misc_output_write :: "uint8 \<Rightarrow> vgactx \<Rightarrow> (vgactx, unit) effect" where
  "misc_output_write val c =
     (if val AND 1 \<noteq> 0 then ret () (c\<lparr>misc_output_reg := val\<rparr>) else assert_failed)"

definition sequencer_read :: "vgactx \<Rightarrow> (vgactx, uint8) effect" where
  "sequencer_read c =
     (if seq_ndx c = 2 then arr_rd (seq_reg c) (seq_ndx c) (\<lambda>v. ret v c)
      else if seq_ndx c = 4 then arr_rd (seq_reg c) (seq_ndx c) (\<lambda>v. ret v c)
      else if seq_ndx c = -1 then ret 0 c
      else assert_failed)"

definition sequencer_write :: "uint8 \<Rightarrow> vgactx \<Rightarrow> (vgactx, unit) effect" where
  "sequencer_write val c =
     (if seq_ndx c = 4 then arr_wr (seq_reg c) 4 val (\<lambda>r. ret () (c\<lparr>seq_reg := r\<rparr>))
      else if seq_ndx c = 0 then ret () c
      else if seq_ndx c = 1 then arr_wr (seq_reg c) 1 val (\<lambda>r. ret () (c\<lparr>seq_reg := r\<rparr>))
      else if seq_ndx c = 2 then arr_wr (seq_reg c) 2 (val AND 0xF) (\<lambda>r. ret () (c\<lparr>seq_reg := r\<rparr>))
      else if seq_ndx c = 3 then arr_wr (seq_reg c) 3 val (\<lambda>r. ret () (c\<lparr>seq_reg := r\<rparr>))
      else if seq_ndx c = -1 then ret () c
      else assert_failed)"

definition palette_write :: "uint8 \<Rightarrow> vgactx \<Rightarrow> (vgactx, unit) effect" where
  "palette_write val c = arr_wr (pel c) (uint (pel_write_addr c)) val
     (\<lambda>p. ret () (c\<lparr>pel := p, pel_write_addr := pel_write_addr c + 1\<rparr>))"

definition graphics_controller_write :: "uint8 \<Rightarrow> vgactx \<Rightarrow> (vgactx, unit) effect" where
  "graphics_controller_write val c =
     (if gcont_ndx c \<noteq> -1
      then arr_wr (gcont_reg c) (gcont_ndx c) val (\<lambda>r. ret () (c\<lparr>gcont_reg := r\<rparr>))
      else ret () c)"

definition graphics_controller_read :: "vgactx \<Rightarrow> (vgactx, uint8) effect" where
  "graphics_controller_read c =
     (if gcont_ndx c \<noteq> -1 then arr_rd (gcont_reg c) (gcont_ndx c) (\<lambda>v. ret v c) else ret 0 c)"

definition mode_select_read :: "vgactx \<Rightarrow> (vgactx, uint8) effect" where
  "mode_select_read c = ret 0 c"

text \<open>The index is an unsigned byte, so the test against -1 never holds.\<close>

definition crtc_read :: "vgactx \<Rightarrow> (vgactx, uint8) effect" where
  "crtc_read c =
     (if uint (crtc_ndx c) = -1 then ret 0 c
      else arr_rd (crtc_reg c) (uint (crtc_ndx c)) (\<lambda>v. ret v c))"

definition crtc_write :: "uint8 \<Rightarrow> vgactx \<Rightarrow> (vgactx, unit) effect" where
  "crtc_write val c =
     arr_wr (crtc_reg c) (uint (crtc_ndx c)) val (\<lambda>r. ret () (c\<lparr>crtc_reg := r\<rparr>))"

definition attribute_read :: "vgactx \<Rightarrow> (vgactx, uint8) effect" where
  "attribute_read c =
     (if attr_ndx c = 0x10 then arr_rd (attr_reg c) (uint (attr_ndx c)) (\<lambda>v. ret v c)
      else if attr_ndx c = 0x14 then arr_rd (attr_reg c) (uint (attr_ndx c)) (\<lambda>v. ret v c)
      else if attr_ndx c > 0x14 then ret 0 c
      else assert_failed)"

subsection \<open>Ports\<close>

definition vgareg_inb :: "uint16 \<Rightarrow> uint16 \<Rightarrow> vgactx \<Rightarrow> (vgactx, uint8) effect" where
  "vgareg_inb hbase port0 c =
     (let port = port0 + hbase in
      if port = 0x3B4 then ret (crtc_ndx c) c
      else if port = 0x3C0 then ret (attr_ndx c) c
      else if port = 0x3C1 then attribute_read c
      else if port = 0x3C4 then ret (word_of_int (seq_ndx c)) c
      else if port = 0x3C5 then sequencer_read c
      else if port = 0x3C9 then arr_rd (pel c) (uint (pel_read_addr c))
             (\<lambda>v. ret v (c\<lparr>pel_read_addr := pel_read_addr c + 1\<rparr>))
      else if port = 0x3CA then ret 0 c
      else if port = 0x3CC then ret (misc_output_reg c) c
      else if port = 0x3CE then ret (word_of_int (gcont_ndx c)) c
      else if port = 0x3D3 then crtc_read c
      else if port = 0x3D5 then crtc_read c
      else if port = 0x3D8 then mode_select_read c
      else if port = 0x3DA then
        (let b = \<not> vretrace c in ret (push_bit 3 (of_bool b)) (c\<lparr>vretrace := b\<rparr>))
      else if port = 0x3CF then graphics_controller_read c
      else assert_failed)"

definition vgareg_outb :: "uint16 \<Rightarrow> uint16 \<Rightarrow> uint8 \<Rightarrow> vgactx \<Rightarrow> (vgactx, unit) effect" where
  "vgareg_outb hbase port0 val c =
     (let port = port0 + hbase in
      if port = 0x3C0 then ret () (c\<lparr>attr_ndx := val\<rparr>)
      else if port = 0x3C2 then misc_output_write val c
      else if port = 0x3C4 then ret () (c\<lparr>seq_ndx := (if val \<le> 4 then uint val else -1)\<rparr>)
      else if port = 0x3C5 then sequencer_write val c
      else if port = 0x3C6 then (if val = 0xFF then ret () c else assert_failed)
      else if port = 0x3C7 then ret () (c\<lparr>pel_read_addr := ucast val * 3\<rparr>)
      else if port = 0x3C8 then ret () (c\<lparr>pel_write_addr := ucast val * 3\<rparr>)
      else if port = 0x3C9 then palette_write val c
      else if port = 0x3CE then ret () (c\<lparr>gcont_ndx := (if val \<le> 8 then uint val else -1)\<rparr>)
      else if port = 0x3CF then graphics_controller_write val c
      else if port = 0x3D4 then
        (if val \<le> 0x18 then ret () (c\<lparr>crtc_ndx := val\<rparr>) else assert_failed)
      else if port = 0x3D5 then crtc_write val c
      else if port = 0x3D8 then ret () (c\<lparr>misc_output_reg := val\<rparr>)
      else assert_failed)"

definition vgareg_outw :: "uint16 \<Rightarrow> uint16 \<Rightarrow> uint16 \<Rightarrow> vgactx \<Rightarrow> (vgactx, unit) effect" where
  "vgareg_outw hbase port0 val c =
     (let port = port0 + hbase in
      if port \<in> {0x3C4, 0x3D4, 0x3CE} then
        ebind (vgareg_outb hbase (port - hbase + 0) (ucast (val AND 0xFF)) c)
          (\<lambda>_. vgareg_outb hbase (port - hbase + 1) (ucast (drop_bit 8 val)))
      else assert_failed)"

definition vga_hdl :: "uint16 \<Rightarrow> vgactx io_handler" where
  "vga_hdl b = \<lparr> base = b, io_mask = 0xFFF0,
     inb = Some (vgareg_inb b), inw = Some (\<lambda>port c. assert_failed),
     inl = Some (\<lambda>port c. assert_failed),
     outb = Some (vgareg_outb b), outw = Some (vgareg_outw b),
     outl = Some (\<lambda>port val c. assert_failed) \<rparr>"

definition vgadbg_hdl :: "'s io_handler" where
  "vgadbg_hdl = \<lparr> base = 0x500, io_mask = 0xFFFF,
     inb = Some (\<lambda>port s. assert_failed), inw = None, inl = None,
     outb = Some (\<lambda>port val s. ret () s), outw = None, outl = None \<rparr>"

definition vbe_hdl :: "'s io_handler" where
  "vbe_hdl = \<lparr> base = 0x1CE, io_mask = 0xFFFE,
     inb = Some (\<lambda>port s. ret 0 s), inw = Some (\<lambda>port s. ret 0 s), inl = None,
     outb = Some (\<lambda>port val s. ret () s), outw = Some (\<lambda>port val s. ret () s), outl = None \<rparr>"

lemmas vga_defs [dev_defs] = misc_output_write_def sequencer_read_def sequencer_write_def
  palette_write_def graphics_controller_write_def graphics_controller_read_def mode_select_read_def
  crtc_read_def crtc_write_def attribute_read_def

text \<open>The context \<^verbatim>\<open>calloc\<close> and \<^verbatim>\<open>x86_vga_ram_init\<close> leave, for the contents \<open>v\<close> of the fresh planes.\<close>

definition vgactx_init :: "uint8 list list \<Rightarrow> vgactx" where
  "vgactx_init v = \<lparr> misc_output_reg = 0, mode_select_reg = 0, seq_ndx = 0, seq_reg = replicate 5 0,
     attr_ndx = 0, attr_reg = replicate 0x15 0, gcont_ndx = 0, gcont_reg = replicate 9 0,
     crtc_ndx = 0, crtc_reg = replicate 0x19 0, pel_write_addr = 0, pel_read_addr = 0,
     pel = replicate (256 * 3) 0, palette = replicate 32 0, pVRAM = v, vretrace = False \<rparr>"

subsection \<open>The invariant\<close>

text \<open>
  The arrays keep their size, and the sequencer, graphics and CRTC indices stay inside their
  arrays (or are the marker -1). The palette addresses are not bounded.
\<close>

definition vga_wf :: "vgactx \<Rightarrow> bool" where
  [wf_simps]: "vga_wf c \<longleftrightarrow> length (seq_reg c) = 5 \<and> length (attr_reg c) = 0x15 \<and>
     length (gcont_reg c) = 9 \<and> length (crtc_reg c) = 0x19 \<and> length (pel c) = 768 \<and>
     length (pVRAM c) = 6 \<and> (\<forall>p < 6. length (pVRAM c ! p) = 0x20000) \<and>
     -1 \<le> seq_ndx c \<and> seq_ndx c \<le> 4 \<and> -1 \<le> gcont_ndx c \<and> gcont_ndx c \<le> 8 \<and>
     crtc_ndx c \<le> 0x18"

lemma vga_wf_init:
  "length v = 6 \<Longrightarrow> (\<And>p. p < 6 \<Longrightarrow> length (v ! p) = 0x20000) \<Longrightarrow> vga_wf (vgactx_init v)"
  by (simp add: vga_wf_def vgactx_init_def)

lemma vga_wf_upd:
  assumes "vga_wf c"
  shows "vga_wf (c\<lparr>misc_output_reg := m\<rparr>)" and "vga_wf (c\<lparr>attr_ndx := a\<rparr>)"
    and "vga_wf (c\<lparr>pel_read_addr := x\<rparr>)" and "vga_wf (c\<lparr>pel_write_addr := x\<rparr>)"
    and "vga_wf (c\<lparr>vretrace := b\<rparr>)"
    and "vga_wf (c\<lparr>seq_reg := (seq_reg c)[i := v]\<rparr>)" and "vga_wf (c\<lparr>gcont_reg := (gcont_reg c)[i := v]\<rparr>)"
    and "vga_wf (c\<lparr>crtc_reg := (crtc_reg c)[i := v]\<rparr>)"
    and "vga_wf (c\<lparr>pel := (pel c)[i := v], pel_write_addr := x\<rparr>)"
  using assms by (simp_all add: vga_wf_def)

lemma vga_groups_keep:
  assumes "vga_wf c"
  shows "keeps vga_wf (misc_output_write v c)" and "keeps vga_wf (sequencer_read c)"
    and "keeps vga_wf (sequencer_write v c)" and "keeps vga_wf (palette_write v c)"
    and "keeps vga_wf (graphics_controller_write v c)" and "keeps vga_wf (graphics_controller_read c)"
    and "keeps vga_wf (mode_select_read c)" and "keeps vga_wf (crtc_read c)"
    and "keeps vga_wf (crtc_write v c)" and "keeps vga_wf (attribute_read c)"
  using assms by (simp_all add: vga_defs arr_rd_def arr_wr_def vga_wf_upd)

lemma uint_byte_bounds: "0 \<le> uint (v :: uint8)" "v \<le> 4 \<Longrightarrow> uint v \<le> 4" "v \<le> 8 \<Longrightarrow> uint v \<le> 8"
  by (simp_all add: word_le_def)

lemma vga_wf_ndx:
  assumes "vga_wf c"
  shows "vga_wf (c\<lparr>seq_ndx := (if v \<le> 4 then uint (v :: uint8) else -1)\<rparr>)"
    and "vga_wf (c\<lparr>gcont_ndx := (if v \<le> 8 then uint (v :: uint8) else -1)\<rparr>)"
    and "v \<le> 0x18 \<Longrightarrow> vga_wf (c\<lparr>crtc_ndx := v\<rparr>)"
  using assms uint_byte_bounds [of v] by (auto simp: vga_wf_def intro: order_trans [of _ 0])

lemma vgareg_outb_keeps: "vga_wf c \<Longrightarrow> keeps vga_wf (vgareg_outb b p v c)"
  unfolding vgareg_outb_def Let_def
  by (intro keeps_if) (simp_all only: vga_groups_keep vga_wf_upd vga_wf_ndx keeps_simps)

lemma vgareg_inb_keeps: "vga_wf c \<Longrightarrow> keeps vga_wf (vgareg_inb b p c)"
  unfolding vgareg_inb_def Let_def arr_rd_def
  by (intro keeps_if) (simp_all only: vga_groups_keep vga_wf_upd keeps_simps)

lemma vgareg_outw_keeps: "vga_wf c \<Longrightarrow> keeps vga_wf (vgareg_outw b p v c)"
  unfolding vgareg_outw_def Let_def
  by (intro keeps_if keeps_ebind [where Q = vga_wf]) (simp_all add: vgareg_outb_keeps)

interpretation vga: port_device "vga_hdl b" vga_wf for b
  by unfold_locales
     (auto simp: vga_hdl_def dest: keepsD [OF vgareg_inb_keeps] keepsD [OF vgareg_outb_keeps]
       keepsD [OF vgareg_outw_keeps])

interpretation vgadbg: port_device vgadbg_hdl inv for inv
  by unfold_locales (auto simp: vgadbg_hdl_def)

interpretation vbe: port_device vbe_hdl inv for inv
  by unfold_locales (auto simp: vbe_hdl_def)

subsection \<open>What the registers deliver\<close>

lemma vga_hdl_simps [simp]:
  "base (vga_hdl b) = b" "inb (vga_hdl b) = Some (vgareg_inb b)"
  "outb (vga_hdl b) = Some (vgareg_outb b)" "outw (vga_hdl b) = Some (vgareg_outw b)"
  "inw (vga_hdl b) = Some (\<lambda>port c. assert_failed)" "inl (vga_hdl b) = Some (\<lambda>port c. assert_failed)"
  "outl (vga_hdl b) = Some (\<lambda>port val c. assert_failed)"
  by (simp_all add: vga_hdl_def)

lemma word_halves:
  "ucast ((push_bit 8 (ucast hi) OR ucast lo :: uint16) AND 0xFF) = (lo :: uint8)"
  "ucast (drop_bit 8 (push_bit 8 (ucast hi) OR ucast lo :: uint16)) = (hi :: uint8)"
proof -
  have "(push_bit 8 (ucast hi) OR ucast lo :: uint16) AND 0xFF = take_bit 8 (push_bit 8 (ucast hi) OR ucast lo)"
    by (simp add: take_bit_eq_mask mask_eq_exp_minus_1)
  then show "ucast ((push_bit 8 (ucast hi) OR ucast lo :: uint16) AND 0xFF) = (lo :: uint8)"
    by (simp only:) (rule bit_word_eqI, simp add: bit_simps)
  have "\<not> bit lo (8 + n)" for n by (rule impossible_bit) simp
  then show "ucast (drop_bit 8 (push_bit 8 (ucast hi) OR ucast lo :: uint16)) = (hi :: uint8)"
    by (intro bit_word_eqI) (auto simp: bit_simps)
qed

text \<open>
  The CRTC registers. Writing the word \<open>v * 256 + i\<close> to the CRTC address port stores \<open>v\<close> in
  CRTC register \<open>i\<close> and nothing else, and the data port reads it back, for each of the 25
  registers.
\<close>

theorem vga_crtc_roundtrip:
  assumes "vga_wf c" and "i \<le> 0x18"
  shows "handler_run (vga_hdl 0x3D0) [Out16 0x3D4 (push_bit 8 (ucast v) OR ucast i), In8 0x3D5] c =
    emit [] [0, ucast v] (c\<lparr>crtc_ndx := i, crtc_reg := (crtc_reg c)[unat i := v]\<rparr>)"
proof -
  have len: "length (crtc_reg c) = 25" and i: "unat i < 25"
    using assms by (simp_all add: vga_wf_def word_le_nat_alt)
  have "vgareg_outb 0x3D0 4 i c = ret () (c\<lparr>crtc_ndx := i\<rparr>)"
    using assms(2) by (simp add: vgareg_outb_def)
  moreover have "vgareg_outb 0x3D0 5 v (c\<lparr>crtc_ndx := i\<rparr>) =
      ret () (c\<lparr>crtc_ndx := i, crtc_reg := (crtc_reg c)[unat i := v]\<rparr>)"
    using len i by (simp add: vgareg_outb_def crtc_write_def arr_wr_def)
  moreover have "vgareg_inb 0x3D0 5 (c\<lparr>crtc_ndx := i, crtc_reg := (crtc_reg c)[unat i := v]\<rparr>) =
      ret v (c\<lparr>crtc_ndx := i, crtc_reg := (crtc_reg c)[unat i := v]\<rparr>)"
  proof -
    have "uint i \<noteq> -1" using uint_byte_bounds(1) [of i] by linarith
    then show ?thesis using len i by (simp add: vgareg_inb_def crtc_read_def arr_rd_def)
  qed
  ultimately show ?thesis
    by (simp add: vgareg_outw_def word_halves word_halves [simplified])
qed

definition planes_zero :: "uint8 list list" where
  "planes_zero = replicate 6 (replicate 0x20000 0)"

lemma vga_wf_zero: "vga_wf (vgactx_init planes_zero)"
  by (rule vga_wf_init) (simp_all add: planes_zero_def)

theorem vga_crtc_roundtrip_witness:
  "handler_run (vga_hdl 0x3D0) [Out16 0x3D4 (push_bit 8 (ucast (0x7F :: uint8)) OR ucast (0x0C :: uint8)), In8 0x3D5]
      (vgactx_init planes_zero) =
    emit [] [0, ucast (0x7F :: uint8)] ((vgactx_init planes_zero)\<lparr>crtc_ndx := 0x0C,
      crtc_reg := (crtc_reg (vgactx_init planes_zero))[unat (0x0C :: uint8) := 0x7F]\<rparr>)"
  by (rule vga_crtc_roundtrip [OF vga_wf_zero]) simp

text \<open>Operations that never leave an array.\<close>

definition tame :: "('s, 'a) effect \<Rightarrow> bool" where
  "tame m \<longleftrightarrow> m \<noteq> Inl Wild_Access"

lemma tame_simps [simp]: "tame (emit es v s)" "tame assert_failed"
  by (simp_all add: tame_def)

lemma tame_if: "(b \<Longrightarrow> tame x) \<Longrightarrow> (\<not> b \<Longrightarrow> tame y) \<Longrightarrow> tame (if b then x else y)"
  by simp

lemma tame_ebind: "tame m \<Longrightarrow> (\<And>v s es. m = Inr (v, s, es) \<Longrightarrow> tame (f v s)) \<Longrightarrow> tame (ebind m f)"
  by (auto simp: tame_def ebind_Inl)

lemma crtc_ndx_range: "vga_wf c \<Longrightarrow> unat (crtc_ndx c) < 25"
  by (simp add: vga_wf_def word_le_nat_alt)

lemma vga_groups_tame:
  assumes "vga_wf c"
  shows "tame (misc_output_write v c)" and "tame (sequencer_read c)"
    and "tame (sequencer_write v c)"
    and "tame (graphics_controller_write v c)" and "tame (graphics_controller_read c)"
    and "tame (mode_select_read c)" and "tame (crtc_read c)"
    and "tame (crtc_write v c)" and "tame (attribute_read c)"
  using assms crtc_ndx_range [OF assms]
  by (simp_all add: vga_defs arr_rd_def arr_wr_def vga_wf_def nat_less_iff)

lemma vgareg_outb_tame:
  assumes "vga_wf c" and "p + b \<noteq> 0x3C9"
  shows "tame (vgareg_outb b p v c)"
  unfolding vgareg_outb_def Let_def
  by (intro tame_if) (use assms in \<open>simp_all only: vga_groups_tame tame_simps simp_thms\<close>)

lemma vgareg_inb_tame:
  assumes "vga_wf c" and "p + b \<noteq> 0x3C9"
  shows "tame (vgareg_inb b p c)"
  unfolding vgareg_inb_def Let_def
  by (intro tame_if) (use assms in \<open>simp_all only: vga_groups_tame tame_simps simp_thms\<close>)

lemma vgareg_outw_tame:
  assumes "vga_wf c"
  shows "tame (vgareg_outw b p v c)"
  unfolding vgareg_outw_def Let_def
proof (intro tame_if tame_ebind)
  assume p: "p + b \<in> {0x3C4, 0x3D4, 0x3CE}"
  then show "tame (vgareg_outb b (p + b - b + 0) (ucast (v AND 0xFF)) c)"
    by (intro vgareg_outb_tame assms) auto
  fix u c' es
  assume "vgareg_outb b (p + b - b + 0) (ucast (v AND 0xFF)) c = Inr (u, c', es)"
  then have "vga_wf c'" using keepsD [OF vgareg_outb_keeps] assms by blast
  then show "tame (vgareg_outb b (p + b - b + 1) (ucast (drop_bit 8 v)) c')"
  proof (rule vgareg_outb_tame)
    have "p + b - b + 1 + b = (p + b) + 1" by simp
    also have "\<dots> \<in> {0x3C5, 0x3D5, 0x3CF}" using p by (elim insertE emptyE) simp_all
    finally have r: "p + b - b + 1 + b \<in> {0x3C5, 0x3D5, 0x3CF}" .
    then show "p + b - b + 1 + b \<noteq> 0x3C9"
      by (elim insertE emptyE) simp_all
  qed
qed simp_all

lemma vga_dac_port:
  assumes "vga_wf c"
  shows "vgareg_outb b (0x3C9 - b) v c = Inl Wild_Access \<longleftrightarrow> 768 \<le> unat (pel_write_addr c)"
    and "vgareg_inb b (0x3C9 - b) c = Inl Wild_Access \<longleftrightarrow> 768 \<le> unat (pel_read_addr c)"
  using assms
  by (simp_all add: vgareg_outb_def vgareg_inb_def palette_write_def arr_wr_def arr_rd_def vga_wf_def)

text \<open>
  C23: the palette data port is the only one that leaves an array. From any state the guest
  can reach, an access to the VGA registers reads or writes outside the register arrays
  exactly when it is a byte access to port \<open>0x3C9\<close> and the palette address, which steps
  with every access and is never wrapped, has passed the last of the 768 entries.
\<close>

theorem vga_only_dac_overruns:
  assumes "vga_wf c"
  shows "handler_access (vga_hdl b) a c = Inl Wild_Access \<longleftrightarrow>
    (\<exists>v. a = Out8 0x3C9 v \<and> 768 \<le> unat (pel_write_addr c)) \<or>
    (a = In8 0x3C9 \<and> 768 \<le> unat (pel_read_addr c))"
proof -
  have w: "widen m = Inl e \<longleftrightarrow> m = Inl e" "silent n = Inl e \<longleftrightarrow> n = Inl e"
    for m :: "(vgactx, uint8) effect" and n :: "(vgactx, unit) effect" and e
    by (auto simp: widen_def silent_def ebind_Inl)
  show ?thesis
  proof (cases a)
    case (In8 p)
    show ?thesis
    proof (cases "p = 0x3C9")
      case True
      with In8 assms show ?thesis by (simp add: w vga_dac_port)
    next
      case False
      then have "tame (vgareg_inb b (p - b) c)" by (intro vgareg_inb_tame assms) simp
      with In8 False show ?thesis by (simp add: w tame_def)
    qed
  next
    case (Out8 p v)
    show ?thesis
    proof (cases "p = 0x3C9")
      case True
      with Out8 assms show ?thesis by (simp add: w vga_dac_port)
    next
      case False
      then have "tame (vgareg_outb b (p - b) v c)" by (intro vgareg_outb_tame assms) simp
      with Out8 False show ?thesis by (simp add: w tame_def)
    qed
  next
    case (Out16 p v)
    with vgareg_outw_tame [OF assms] show ?thesis by (simp add: w tame_def)
  qed simp_all
qed

theorem vga_only_dac_overruns_witness:
  "handler_access (vga_hdl 0x3C0) (Out8 0x3C9 7) ((vgactx_init planes_zero)\<lparr>pel_write_addr := 768\<rparr>) =
     Inl Wild_Access"
  using vga_only_dac_overruns [OF vga_wf_upd(4) [OF vga_wf_zero], of "0x3C0" "Out8 0x3C9 7" 768] by simp

text \<open>
  C30: the palette. Selecting entry \<open>i\<close> for writing, writing three colour components,
  selecting the same entry for reading and reading three bytes delivers the components, for
  each of the 256 entries; the other entries are unchanged.
\<close>

theorem vga_palette_roundtrip:
  assumes "vga_wf c"
  shows "\<exists>c'. handler_run (vga_hdl 0x3C0) [Out8 0x3C8 i, Out8 0x3C9 r, Out8 0x3C9 g, Out8 0x3C9 b,
      Out8 0x3C7 i, In8 0x3C9, In8 0x3C9, In8 0x3C9] c =
        emit [] [0, 0, 0, 0, 0, ucast r, ucast g, ucast b] c' \<and>
    pel c' = (pel c)[3 * unat i := r, 3 * unat i + 1 := g, 3 * unat i + 2 := b]"
proof -
  have len: "length (pel c) = 768" using assms by (simp add: vga_wf_def)
  let ?a = "ucast i * 3 :: uint16"
  have u: "unat ?a = 3 * unat i" "unat (?a + 1) = 3 * unat i + 1" "unat (?a + 2) = 3 * unat i + 2"
    using unat_byte [of i]
    by (simp_all add: unat_word_ariths unsigned_ucast_eq take_bit_nat_eq_self)
  have i: "3 * unat i + 2 < 768" using unat_byte [of i] by simp
  have wr: "vgareg_outb 0x3C0 9 v e = ret () (e\<lparr>pel := (pel e)[unat (pel_write_addr e) := v],
      pel_write_addr := pel_write_addr e + 1\<rparr>)"
    if "unat (pel_write_addr e) < length (pel e)" for v e
    using that by (simp add: vgareg_outb_def palette_write_def arr_wr_def)
  have rd: "vgareg_inb 0x3C0 9 e = ret (pel e ! unat (pel_read_addr e))
      (e\<lparr>pel_read_addr := pel_read_addr e + 1\<rparr>)"
    if "unat (pel_read_addr e) < length (pel e)" for e
    using that by (simp add: vgareg_inb_def arr_rd_def)
  have sel: "vgareg_outb 0x3C0 8 i e = ret () (e\<lparr>pel_write_addr := ?a\<rparr>)"
    "vgareg_outb 0x3C0 7 i e = ret () (e\<lparr>pel_read_addr := ?a\<rparr>)" for e
    by (simp_all add: vgareg_outb_def)
  show ?thesis
    using len i by (simp add: sel wr rd u add.assoc)
qed

theorem vga_palette_roundtrip_witness:
  "\<exists>c'. handler_run (vga_hdl 0x3C0) [Out8 0x3C8 255, Out8 0x3C9 1, Out8 0x3C9 2, Out8 0x3C9 3,
      Out8 0x3C7 255, In8 0x3C9, In8 0x3C9, In8 0x3C9] (vgactx_init planes_zero) =
        emit [] [0, 0, 0, 0, 0, 1, 2, 3] c'"
  using vga_palette_roundtrip [OF vga_wf_zero, of 255 1 2 3] by simp blast

text \<open>
  The retrace bit. Two successive reads of the input status register deliver different
  values, one with the vertical-retrace bit set and one with it clear, so a guest polling
  for either level stops after at most two reads.
\<close>

theorem vga_retrace_toggles:
  "handler_run (vga_hdl 0x3D0) [In8 0x3DA, In8 0x3DA] c =
     emit [] (if vretrace c then [0, 8] else [8, 0]) c"
  by (simp add: vgareg_inb_def Let_def)

end
