(* ===== verification/Mmio_Bus.thy ===== *)
theory Mmio_Bus
  imports Prelude
begin

text \<open>
  The memory-mapped bus: \<^verbatim>\<open>mmio.c\<close> and \<^verbatim>\<open>include/mmio.h\<close>. The bus keeps a linked list of
  pointers to device records. A device may change its own record after registration (the
  VGA ROM moves its \<^verbatim>\<open>base\<close>), so the list holds pointers (any type \<open>'p\<close>), and the part of
  the record that changes, \<^verbatim>\<open>base\<close> and \<^verbatim>\<open>mask\<close>, is looked up in the state. The function
  pointers never change; they receive \<^verbatim>\<open>pDev->base\<close> and the address.
\<close>

record mmio_region =
  mm_base :: uint32
  mm_mask :: uint32

record 's mmio_ops =
  readb :: "(uint32 \<Rightarrow> uint64 \<Rightarrow> 's \<Rightarrow> ('s, uint8) effect) option"
  readw :: "(uint32 \<Rightarrow> uint64 \<Rightarrow> 's \<Rightarrow> ('s, uint16) effect) option"
  readl :: "(uint32 \<Rightarrow> uint64 \<Rightarrow> 's \<Rightarrow> ('s, uint32) effect) option"
  readq :: "(uint32 \<Rightarrow> uint64 \<Rightarrow> 's \<Rightarrow> ('s, uint64) effect) option"
  writeb :: "(uint32 \<Rightarrow> uint64 \<Rightarrow> uint8 \<Rightarrow> 's \<Rightarrow> ('s, unit) effect) option"
  writew :: "(uint32 \<Rightarrow> uint64 \<Rightarrow> uint16 \<Rightarrow> 's \<Rightarrow> ('s, unit) effect) option"
  writel :: "(uint32 \<Rightarrow> uint64 \<Rightarrow> uint32 \<Rightarrow> 's \<Rightarrow> ('s, unit) effect) option"
  writeq :: "(uint32 \<Rightarrow> uint64 \<Rightarrow> uint64 \<Rightarrow> 's \<Rightarrow> ('s, unit) effect) option"

text \<open>The comparison is made at 64 bits, with the 32-bit mask and base zero-extended.\<close>

definition mmio_match :: "mmio_region \<Rightarrow> uint64 \<Rightarrow> bool" where
  "mmio_match r addr \<longleftrightarrow> mm_base r \<noteq> 0 \<and> addr AND ucast (mm_mask r) = ucast (mm_base r)"

fun getDevice :: "('p \<Rightarrow> mmio_region) \<Rightarrow> 'p list \<Rightarrow> uint64 \<Rightarrow> 'p option" where
  "getDevice rg [] addr = None"
| "getDevice rg (p # ps) addr = (if mmio_match (rg p) addr then Some p else getDevice rg ps addr)"

definition mmio_init :: "'p list" where
  "mmio_init = []"

text \<open>An address that is already claimed is logged; the device is appended all the same.\<close>

definition mmio_register_device :: "'p \<Rightarrow> 'p list \<Rightarrow> 'p list" where
  "mmio_register_device p ps = ps @ [p]"

definition mmio_remap_device :: "'p \<Rightarrow> 's \<Rightarrow> ('s, int) effect" where
  "mmio_remap_device p s = assert_failed"

text \<open>
  A load of \<open>n\<close> bytes from the exchange buffer \<open>pData\<close>, and a store of a word into it.
\<close>

definition data_load :: "nat \<Rightarrow> uint8 list \<Rightarrow> ('a::len word \<Rightarrow> ('s, 'b) effect) \<Rightarrow> ('s, 'b) effect"
  where "data_load n pData k =
    (case rd_bytes pData 0 n of Inl e \<Rightarrow> Inl e | Inr bs \<Rightarrow> k (le_word bs))"

definition data_store :: "nat \<Rightarrow> uint8 list \<Rightarrow> ('s, 'a::len word) effect
    \<Rightarrow> ('s, int \<times> uint8 list) effect" where
  "data_store n pData m = ebind m (\<lambda>v s.
     (case wr_bytes pData 0 (le_bytes n v) of Inl e \<Rightarrow> Inl e | Inr pData' \<Rightarrow> ret (0, pData') s))"

definition mmio_write :: "('s \<Rightarrow> 'p \<Rightarrow> mmio_region) \<Rightarrow> ('p \<Rightarrow> 's mmio_ops) \<Rightarrow> 'p list
    \<Rightarrow> uint64 \<Rightarrow> uint32 \<Rightarrow> uint8 list \<Rightarrow> 's \<Rightarrow> ('s, int) effect" where
  "mmio_write rg ops ps address len pData s = (case getDevice (rg s) ps address of
     None \<Rightarrow> ret (-1) s
   | Some p \<Rightarrow>
      (let base = mm_base (rg s p) in
       if len = 1 then (case writeb (ops p) of None \<Rightarrow> assert_failed
         | Some f \<Rightarrow> ebind (data_load 1 pData (\<lambda>v. f base address v s)) (\<lambda>_ s. ret 0 s))
       else if len = 2 then (case writew (ops p) of None \<Rightarrow> assert_failed
         | Some f \<Rightarrow> ebind (data_load 2 pData (\<lambda>v. f base address v s)) (\<lambda>_ s. ret 0 s))
       else if len = 4 then (case writel (ops p) of None \<Rightarrow> assert_failed
         | Some f \<Rightarrow> ebind (data_load 4 pData (\<lambda>v. f base address v s)) (\<lambda>_ s. ret 0 s))
       else if len = 8 then (case writeq (ops p) of None \<Rightarrow> assert_failed
         | Some f \<Rightarrow> ebind (data_load 8 pData (\<lambda>v. f base address v s)) (\<lambda>_ s. ret 0 s))
       else assert_failed))"

text \<open>
  The eight-byte case stores the value through a \<^verbatim>\<open>uint32\<close> pointer, as the code does: the
  upper half of the value is lost and the upper half of the buffer is left as it was.
\<close>

definition mmio_read :: "('s \<Rightarrow> 'p \<Rightarrow> mmio_region) \<Rightarrow> ('p \<Rightarrow> 's mmio_ops) \<Rightarrow> 'p list
    \<Rightarrow> uint64 \<Rightarrow> uint32 \<Rightarrow> uint8 list \<Rightarrow> 's \<Rightarrow> ('s, int \<times> uint8 list) effect" where
  "mmio_read rg ops ps address len pData s = (case getDevice (rg s) ps address of
     None \<Rightarrow> ret (-1, pData) s
   | Some p \<Rightarrow>
      (let base = mm_base (rg s p) in
       if len = 1 then (case readb (ops p) of None \<Rightarrow> assert_failed
         | Some f \<Rightarrow> data_store 1 pData (f base address s))
       else if len = 2 then (case readw (ops p) of None \<Rightarrow> assert_failed
         | Some f \<Rightarrow> data_store 2 pData (f base address s))
       else if len = 4 then (case readl (ops p) of None \<Rightarrow> assert_failed
         | Some f \<Rightarrow> data_store 4 pData (f base address s))
       else if len = 8 then (case readq (ops p) of None \<Rightarrow> assert_failed
         | Some f \<Rightarrow> data_store 4 pData (ebind (f base address s) (\<lambda>v s. ret (ucast v :: uint32) s)))
       else assert_failed))"

lemma getDevice_SomeD: "getDevice rg ps a = Some p \<Longrightarrow> p \<in> set ps \<and> mmio_match (rg p) a"
  by (induction ps) (auto split: if_splits)

lemma data_load_Inr:
  "data_load n pData k = Inr r \<longleftrightarrow> (\<exists>bs. rd_bytes pData 0 n = Inr bs \<and> k (le_word bs) = Inr r)"
  by (auto simp: data_load_def split: sum.splits)

lemma data_store_Inr:
  "data_store n pData m = Inr ((r, d), s', es) \<longleftrightarrow>
     (\<exists>v. m = Inr (v, s', es) \<and> wr_bytes pData 0 (le_bytes n v) = Inr d \<and> r = 0)"
proof (cases m)
  case (Inr t)
  obtain v t' fs where "t = (v, t', fs)" by (cases t)
  with Inr show ?thesis
    by (cases "wr_bytes pData 0 (le_bytes n v)")
       (auto simp: data_store_def ebind_def emit_def)
qed (simp add: data_store_def)

text \<open>
  A window of \<open>2 ^ k\<close> bytes: because the mask has 32 bits, the upper half of the address does
  not take part in the comparison.
\<close>

lemma mmio_match_window:
  assumes "mm_mask r = NOT (mask k)" and "k \<le> 32" and "unat (mm_base r) mod 2 ^ k = 0"
  shows "mmio_match r a \<longleftrightarrow> mm_base r \<noteq> 0 \<and> unat (mm_base r) \<le> unat a mod 2 ^ 32 \<and>
     unat a mod 2 ^ 32 < unat (mm_base r) + 2 ^ k"
proof -
  have "a AND ucast (NOT (mask k) :: uint32) = take_bit 32 a AND NOT (mask k)"
    by (rule bit_word_eqI) (auto simp: bit_simps)
  moreover have "unat (ucast (mm_base r) :: uint64) = unat (mm_base r)"
  proof -
    have "unat (mm_base r) < 2 ^ 64" using unsigned_less [of "mm_base r", where 'a = nat] by simp
    then show ?thesis by (simp only: unsigned_ucast_eq) (simp add: take_bit_nat_eq_self)
  qed
  moreover have "unat (take_bit 32 a) = unat a mod 2 ^ 32"
    by (simp only: unsigned_take_bit_eq) (simp only: take_bit_eq_mod)
  ultimately show ?thesis
    using decode_interval [of "ucast (mm_base r)" k "take_bit 32 a"] assms
    by (simp add: mmio_match_def)
qed

subsection \<open>The contract of the devices on the memory bus\<close>

locale mmio_device =
  fixes ops :: "'s mmio_ops" and inv :: "'s \<Rightarrow> bool"
  assumes readb_inv: "readb ops = Some f1 \<Longrightarrow> inv s \<Longrightarrow> f1 b a s = Inr (v1, s', es) \<Longrightarrow> inv s'"
    and readw_inv: "readw ops = Some f2 \<Longrightarrow> inv s \<Longrightarrow> f2 b a s = Inr (v2, s', es) \<Longrightarrow> inv s'"
    and readl_inv: "readl ops = Some f3 \<Longrightarrow> inv s \<Longrightarrow> f3 b a s = Inr (v3, s', es) \<Longrightarrow> inv s'"
    and readq_inv: "readq ops = Some f4 \<Longrightarrow> inv s \<Longrightarrow> f4 b a s = Inr (v4, s', es) \<Longrightarrow> inv s'"
    and writeb_inv: "writeb ops = Some g1 \<Longrightarrow> inv s \<Longrightarrow> g1 b a v1 s = Inr (u, s', es) \<Longrightarrow> inv s'"
    and writew_inv: "writew ops = Some g2 \<Longrightarrow> inv s \<Longrightarrow> g2 b a v2 s = Inr (u, s', es) \<Longrightarrow> inv s'"
    and writel_inv: "writel ops = Some g3 \<Longrightarrow> inv s \<Longrightarrow> g3 b a v3 s = Inr (u, s', es) \<Longrightarrow> inv s'"
    and writeq_inv: "writeq ops = Some g4 \<Longrightarrow> inv s \<Longrightarrow> g4 b a v4 s = Inr (u, s', es) \<Longrightarrow> inv s'"

locale mmio_bus =
  fixes ops :: "'p \<Rightarrow> 's mmio_ops" and rg :: "'s \<Rightarrow> 'p \<Rightarrow> mmio_region" and inv :: "'s \<Rightarrow> bool"
  assumes devices: "mmio_device (ops p) inv"
begin

lemmas op_invs =
  mmio_device.readb_inv [OF devices] mmio_device.readw_inv [OF devices]
  mmio_device.readl_inv [OF devices] mmio_device.readq_inv [OF devices]
  mmio_device.writeb_inv [OF devices] mmio_device.writew_inv [OF devices]
  mmio_device.writel_inv [OF devices] mmio_device.writeq_inv [OF devices]

lemma mmio_write_inv:
  assumes "inv s" and "mmio_write rg ops ps a n d s = Inr (r, s', es)"
  shows "inv s'"
  using assms
  by (auto simp: mmio_write_def Let_def ebind_Inr data_load_Inr dest: op_invs
      split: option.splits if_splits)

lemma mmio_read_inv:
  assumes "inv s" and "mmio_read rg ops ps a n d s = Inr (r, s', es)"
  shows "inv s'"
  using assms
  by (cases r)
     (auto simp: mmio_read_def Let_def ebind_Inr data_store_Inr dest: op_invs
      split: option.splits if_splits)

end

text \<open>A device of the bus on its own is a bus with one device.\<close>

sublocale mmio_device \<subseteq> alone: mmio_bus "\<lambda>u :: unit. ops" rg inv for rg
  by (rule mmio_bus.intro) (rule mmio_device_axioms)

subsection \<open>Lifting the operations of a device to a larger state\<close>

definition lift_read :: "('m \<Rightarrow> 's) \<Rightarrow> ('s \<Rightarrow> 'm \<Rightarrow> 'm)
    \<Rightarrow> (uint32 \<Rightarrow> uint64 \<Rightarrow> 's \<Rightarrow> ('s, 'a) effect) \<Rightarrow> uint32 \<Rightarrow> uint64 \<Rightarrow> 'm \<Rightarrow> ('m, 'a) effect" where
  "lift_read get put f b a m =
     (case f b a (get m) of Inl e \<Rightarrow> Inl e | Inr (v, s, es) \<Rightarrow> Inr (v, put s m, es))"

definition lift_write :: "('m \<Rightarrow> 's) \<Rightarrow> ('s \<Rightarrow> 'm \<Rightarrow> 'm)
    \<Rightarrow> (uint32 \<Rightarrow> uint64 \<Rightarrow> 'v \<Rightarrow> 's \<Rightarrow> ('s, unit) effect)
    \<Rightarrow> uint32 \<Rightarrow> uint64 \<Rightarrow> 'v \<Rightarrow> 'm \<Rightarrow> ('m, unit) effect" where
  "lift_write get put f b a v m =
     (case f b a v (get m) of Inl e \<Rightarrow> Inl e | Inr (u, s, es) \<Rightarrow> Inr (u, put s m, es))"

definition lift_ops :: "('m \<Rightarrow> 's) \<Rightarrow> ('s \<Rightarrow> 'm \<Rightarrow> 'm) \<Rightarrow> 's mmio_ops \<Rightarrow> 'm mmio_ops" where
  "lift_ops get put ops = \<lparr>
     readb = map_option (lift_read get put) (readb ops),
     readw = map_option (lift_read get put) (readw ops),
     readl = map_option (lift_read get put) (readl ops),
     readq = map_option (lift_read get put) (readq ops),
     writeb = map_option (lift_write get put) (writeb ops),
     writew = map_option (lift_write get put) (writew ops),
     writel = map_option (lift_write get put) (writel ops),
     writeq = map_option (lift_write get put) (writeq ops) \<rparr>"

lemma lift_read_Inr:
  "lift_read get put f b a m = Inr (v, m', es) \<longleftrightarrow>
     (\<exists>s. f b a (get m) = Inr (v, s, es) \<and> m' = put s m)"
  by (auto simp: lift_read_def split: sum.splits prod.splits)

lemma lift_write_Inr:
  "lift_write get put f b a v m = Inr (u, m', es) \<longleftrightarrow>
     (\<exists>s. f b a v (get m) = Inr (u, s, es) \<and> m' = put s m)"
  by (auto simp: lift_write_def split: sum.splits prod.splits)

lemma mmio_device_lift:
  assumes dev: "mmio_device ops dinv"
    and get: "\<And>m. minv m \<Longrightarrow> dinv (get m)"
    and put: "\<And>m s. minv m \<Longrightarrow> dinv s \<Longrightarrow> minv (put s m)"
  shows "mmio_device (lift_ops get put ops) minv"
  by (unfold_locales;
      clarsimp simp: lift_ops_def lift_read_Inr lift_write_Inr;
      rule put, assumption;
      metis get mmio_device.readb_inv [OF dev] mmio_device.readw_inv [OF dev]
        mmio_device.readl_inv [OF dev] mmio_device.readq_inv [OF dev]
        mmio_device.writeb_inv [OF dev] mmio_device.writew_inv [OF dev]
        mmio_device.writel_inv [OF dev] mmio_device.writeq_inv [OF dev])

end
