(* ===== verification/Vga_Ram.thy ===== *)
theory Vga_Ram
  imports Vga_Registers Mmio_Bus
begin

text \<open>
  Video memory, \<^verbatim>\<open>vga/ram.c\<close>: a window of 128 KB at \<open>0xA0000\<close>. Reads come from plane 0;
  writes go to every plane whose bit is set in the sequencer's map mask register. The
  device functions receive the base of the window and the address of the access, as 64-bit
  values; the byte offset into a plane is their difference.
\<close>

definition NUM_PLANES :: nat where
  "NUM_PLANES = 4"

definition plane_off :: "uint32 \<Rightarrow> uint64 \<Rightarrow> int" where
  "plane_off b address = uint (address - ucast b)"

definition vram_read :: "nat \<Rightarrow> uint32 \<Rightarrow> uint64 \<Rightarrow> vgactx \<Rightarrow> (vgactx, 'a::len word) effect" where
  "vram_read n b address c =
     rbind (rd_bytes (pVRAM c ! 0) (plane_off b address) n) (\<lambda>bs. ret (le_word bs) c)"

definition vram_readb :: "uint32 \<Rightarrow> uint64 \<Rightarrow> vgactx \<Rightarrow> (vgactx, uint8) effect" where
  "vram_readb b address c = vram_read 1 b address c"

definition vram_readw :: "uint32 \<Rightarrow> uint64 \<Rightarrow> vgactx \<Rightarrow> (vgactx, uint16) effect" where
  "vram_readw b address c = vram_read 2 b address c"

definition vram_readl :: "uint32 \<Rightarrow> uint64 \<Rightarrow> vgactx \<Rightarrow> (vgactx, uint32) effect" where
  "vram_readl b address c = vram_read 4 b address c"

definition vram_readq :: "uint32 \<Rightarrow> uint64 \<Rightarrow> vgactx \<Rightarrow> (vgactx, uint64) effect" where
  "vram_readq b address c = vram_read 8 b address c"

text \<open>The loop over the planes, from plane \<open>p\<close> on, with \<open>k\<close> planes to go.\<close>

fun write_planes :: "nat \<Rightarrow> nat \<Rightarrow> int \<Rightarrow> uint8 list \<Rightarrow> vgactx \<Rightarrow> (vgactx, unit) effect" where
  "write_planes 0 p off bs c = ret () c"
| "write_planes (Suc k) p off bs c =
     (if seq_reg c ! 2 AND push_bit p 1 \<noteq> 0 then
        rbind (wr_bytes (pVRAM c ! p) off bs) (\<lambda>m.
          write_planes k (Suc p) off bs (c\<lparr>pVRAM := (pVRAM c)[p := m]\<rparr>))
      else write_planes k (Suc p) off bs c)"

definition vram_write :: "nat \<Rightarrow> uint32 \<Rightarrow> uint64 \<Rightarrow> 'a::len word \<Rightarrow> vgactx \<Rightarrow> (vgactx, unit) effect" where
  "vram_write n b address val c = write_planes NUM_PLANES 0 (plane_off b address) (le_bytes n val) c"

definition vram_writeb :: "uint32 \<Rightarrow> uint64 \<Rightarrow> uint8 \<Rightarrow> vgactx \<Rightarrow> (vgactx, unit) effect" where
  "vram_writeb b address val c = vram_write 1 b address val c"

definition vram_writew :: "uint32 \<Rightarrow> uint64 \<Rightarrow> uint16 \<Rightarrow> vgactx \<Rightarrow> (vgactx, unit) effect" where
  "vram_writew b address val c = vram_write 2 b address val c"

definition vram_writel :: "uint32 \<Rightarrow> uint64 \<Rightarrow> uint32 \<Rightarrow> vgactx \<Rightarrow> (vgactx, unit) effect" where
  "vram_writel b address val c = vram_write 4 b address val c"

text \<open>The body of the eight-byte write is compiled out.\<close>

definition vram_writeq :: "uint32 \<Rightarrow> uint64 \<Rightarrow> uint64 \<Rightarrow> vgactx \<Rightarrow> (vgactx, unit) effect" where
  "vram_writeq b address val c = ret () c"

definition vram_ops :: "vgactx mmio_ops" where
  "vram_ops = \<lparr> readb = Some vram_readb, readw = Some vram_readw, readl = Some vram_readl,
     readq = Some vram_readq, writeb = Some vram_writeb, writew = Some vram_writew,
     writel = Some vram_writel, writeq = Some vram_writeq \<rparr>"

definition vram_region :: mmio_region where
  "vram_region = \<lparr> mm_base = 0xA0000, mm_mask = NOT 0x1FFFF \<rparr>"

lemmas vram_defs [dev_defs] = vram_readb_def vram_readw_def vram_readl_def vram_readq_def
  vram_writeb_def vram_writew_def vram_writel_def vram_writeq_def

subsection \<open>The contract on the memory bus\<close>

lemma vga_wf_plane:
  "vga_wf c \<Longrightarrow> p < 6 \<Longrightarrow> length m = 0x20000 \<Longrightarrow> vga_wf (c\<lparr>pVRAM := (pVRAM c)[p := m]\<rparr>)"
  by (simp add: vga_wf_def nth_list_update)

lemma write_planes_keeps: "vga_wf c \<Longrightarrow> p + k \<le> 6 \<Longrightarrow> keeps vga_wf (write_planes k p off bs c)"
proof (induction k arbitrary: p c)
  case (Suc k)
  show ?case
  proof (cases "wr_bytes (pVRAM c ! p) off bs")
    case (Inr m)
    then have "length m = 0x20000" using Suc.prems by (simp add: vga_wf_def wr_bytes_length)
    then have "vga_wf (c\<lparr>pVRAM := (pVRAM c)[p := m]\<rparr>)" using Suc.prems by (simp add: vga_wf_plane)
    with Inr Suc show ?thesis by simp
  qed (use Suc in simp)
qed simp

lemma vram_write_keeps: "vga_wf c \<Longrightarrow> keeps vga_wf (vram_write n b a v c)"
  unfolding vram_write_def NUM_PLANES_def by (rule write_planes_keeps) simp_all

lemma vram_read_keeps: "vga_wf c \<Longrightarrow> keeps vga_wf (vram_read n b a c)"
  unfolding vram_read_def rd_bytes_def by simp

interpretation vram: mmio_device vram_ops vga_wf
  by unfold_locales
     (auto simp: vram_ops_def vram_defs dest: keepsD [OF vram_read_keeps] keepsD [OF vram_write_keeps])

subsection \<open>Where a write goes\<close>

lemma write_planes_run:
  assumes "vga_wf c" and "p + k \<le> 4" and "in_range (pVRAM c ! 0) off (length bs)"
  shows "\<exists>c'. write_planes k p off bs c = ret () c' \<and> vga_wf c' \<and> seq_reg c' = seq_reg c \<and>
    (\<forall>q < 6. pVRAM c' ! q = (if p \<le> q \<and> q < p + k \<and> bit (seq_reg c ! 2) q
       then take (nat off) (pVRAM c ! q) @ bs @ drop (nat off + length bs) (pVRAM c ! q)
       else pVRAM c ! q))"
  using assms
proof (induction k arbitrary: p c)
  case (Suc k)
  have same: "length (pVRAM c ! q) = 0x20000" if "q < 6" for q using Suc.prems that by (simp add: vga_wf_def)
  have bit: "seq_reg c ! 2 AND push_bit p 1 \<noteq> 0 \<longleftrightarrow> bit (seq_reg c ! 2) p"
  proof -
    have "push_bit p 1 = (2 ^ p :: uint8)" by (simp add: push_bit_eq_mult)
    moreover have "(2 :: uint8) ^ p \<noteq> 0" using Suc.prems by (simp add: exp_eq_zero_iff)
    ultimately show ?thesis by (simp add: and_exp_eq)
  qed
  show ?case
  proof (cases "bit (seq_reg c ! 2) p")
    case True
    let ?m = "take (nat off) (pVRAM c ! p) @ bs @ drop (nat off + length bs) (pVRAM c ! p)"
    let ?c = "c\<lparr>pVRAM := (pVRAM c)[p := ?m]\<rparr>"
    have r: "in_range (pVRAM c ! p) off (length bs)"
      using Suc.prems same [of p] same [of 0] by (simp add: in_range_def)
    then have wr: "wr_bytes (pVRAM c ! p) off bs = Inr ?m" by (rule wr_bytes_ok)
    have m: "length ?m = 0x20000" using wr_bytes_length [OF wr] same [of p] Suc.prems by simp
    have wf: "vga_wf ?c" using Suc.prems m by (intro vga_wf_plane) simp_all
    have "in_range (pVRAM ?c ! 0) off (length bs)"
      using wf Suc.prems(3) same [of 0] by (simp add: in_range_def vga_wf_def)
    with Suc.IH [OF wf, of "Suc p"] Suc.prems obtain c' where c':
      "write_planes k (Suc p) off bs ?c = ret () c'" "vga_wf c'" "seq_reg c' = seq_reg c"
      "\<forall>q < 6. pVRAM c' ! q = (if Suc p \<le> q \<and> q < Suc p + k \<and> bit (seq_reg c ! 2) q
       then take (nat off) (pVRAM ?c ! q) @ bs @ drop (nat off + length bs) (pVRAM ?c ! q)
       else pVRAM ?c ! q)" by auto
    have "length (pVRAM c) = 6" using Suc.prems by (simp add: vga_wf_def)
    then have "pVRAM c' ! q = (if p \<le> q \<and> q < p + Suc k \<and> bit (seq_reg c ! 2) q
       then take (nat off) (pVRAM c ! q) @ bs @ drop (nat off + length bs) (pVRAM c ! q)
       else pVRAM c ! q)" if "q < 6" for q
      using c'(4) True that by (cases "q = p") (auto simp: nth_list_update)
    with c'(1-3) bit True wr show ?thesis by auto
  next
    case False
    with Suc.IH [OF Suc.prems(1), of "Suc p"] Suc.prems obtain c' where c':
      "write_planes k (Suc p) off bs c = ret () c'" "vga_wf c'" "seq_reg c' = seq_reg c"
      "\<forall>q < 6. pVRAM c' ! q = (if Suc p \<le> q \<and> q < Suc p + k \<and> bit (seq_reg c ! 2) q
       then take (nat off) (pVRAM c ! q) @ bs @ drop (nat off + length bs) (pVRAM c ! q)
       else pVRAM c ! q)" by auto
    then have "pVRAM c' ! q = (if p \<le> q \<and> q < p + Suc k \<and> bit (seq_reg c ! 2) q
       then take (nat off) (pVRAM c ! q) @ bs @ drop (nat off + length bs) (pVRAM c ! q)
       else pVRAM c ! q)" if "q < 6" for q
      using c'(4) False that by (cases "q = p") auto
    with c'(1-3) bit False show ?thesis by auto
  qed
qed auto

text \<open>The window alone on the bus.\<close>

abbreviation vram_mmio_write :: "uint64 \<Rightarrow> uint32 \<Rightarrow> uint8 list \<Rightarrow> vgactx \<Rightarrow> (vgactx, int) effect" where
  "vram_mmio_write \<equiv> mmio_write (\<lambda>c u. vram_region) (\<lambda>u :: unit. vram_ops) [()]"

abbreviation vram_mmio_read ::
    "uint64 \<Rightarrow> uint32 \<Rightarrow> uint8 list \<Rightarrow> vgactx \<Rightarrow> (vgactx, int \<times> uint8 list) effect" where
  "vram_mmio_read \<equiv> mmio_read (\<lambda>c u. vram_region) (\<lambda>u :: unit. vram_ops) [()]"

lemma vram_match:
  "mmio_match vram_region a \<longleftrightarrow> 0xA0000 \<le> unat a mod 2 ^ 32 \<and> unat a mod 2 ^ 32 < 0xC0000"
proof -
  have "mm_mask vram_region = NOT (mask 17)"
    by (simp add: vram_region_def mask_eq_exp_minus_1)
  from mmio_match_window [OF this] show ?thesis by (simp add: vram_region_def)
qed

lemma vram_window:
  assumes "off < 0x20000"
  shows "mmio_match vram_region (0xA0000 + of_nat off)"
    and "plane_off 0xA0000 (0xA0000 + of_nat off) = int off"
proof -
  have "unat (0xA0000 + of_nat off :: uint64) = 0xA0000 + off"
    using assms by (simp add: unat_word_ariths unat_of_nat)
  then show "mmio_match vram_region (0xA0000 + of_nat off)" using assms by (simp add: vram_match)
  show "plane_off 0xA0000 (0xA0000 + of_nat off) = int off"
    using assms by (simp add: plane_off_def uint_nat unat_of_nat)
qed

lemma vram_write_inside:
  assumes "vga_wf c" and "off + n \<le> 0x20000" and "0 < n"
  shows "\<exists>c'. vram_write n 0xA0000 (0xA0000 + of_nat off) v c = ret () c' \<and>
    (\<forall>q < 6. pVRAM c' ! q = (if q < 4 \<and> bit (seq_reg c ! 2) q
       then take off (pVRAM c ! q) @ le_bytes n v @ drop (off + n) (pVRAM c ! q)
       else pVRAM c ! q))"
proof -
  have "in_range (pVRAM c ! 0) (int off) (length (le_bytes n v))"
    using assms by (simp add: in_range_def vga_wf_def)
  from write_planes_run [OF assms(1) _ this, of 0 4] show ?thesis
    using vram_window [of off] assms by (auto simp: vram_write_def NUM_PLANES_def)
qed

text \<open>
  A write to video memory. A memory write of 1, 2 or 4 bytes inside the 128 KB window
  stores the bytes, at their offset, in exactly those of the four planes whose bit is set in
  the map mask, and changes no other byte of any plane.
\<close>

theorem vram_write_planes:
  assumes "vga_wf c" and "n \<in> {1, 2, 4}" and "off + n \<le> 0x20000" and "n \<le> length pData"
  shows "\<exists>c'. vram_mmio_write (0xA0000 + of_nat off) (of_nat n) pData c = ret 0 c' \<and>
    (\<forall>q < 6. pVRAM c' ! q = (if q < 4 \<and> bit (seq_reg c ! 2) q
       then take off (pVRAM c ! q) @ take n pData @ drop (off + n) (pVRAM c ! q)
       else pVRAM c ! q))"
proof -
  have len: "length (take n pData) = n" using assms(4) by simp
  have rd: "rd_bytes pData 0 n = Inr (take n pData)" using assms(4) by (simp add: rd_bytes_def in_range_def)
  have m: "mmio_match vram_region (0xA0000 + of_nat off)"
    using assms(2,3) by (intro vram_window) auto
  have base: "mm_base vram_region = 0xA0000" by (simp add: vram_region_def)
  consider "n = 1" | "n = 2" | "n = 4" using assms(2) by blast
  then show ?thesis
  proof cases
    case 1
    with len have "le_bytes n (le_word (take n pData) :: uint8) = take n pData"
      using le_bytes_le_word [of "take n pData", where 'a = 8] by simp
    with 1 vram_write_inside [OF assms(1,3), of "le_word (take n pData) :: uint8"] rd m base
    show ?thesis by (auto simp: mmio_write_def vram_ops_def vram_defs data_load_def)
  next
    case 2
    with len have "le_bytes n (le_word (take n pData) :: uint16) = take n pData"
      using le_bytes_le_word [of "take n pData", where 'a = 16] by simp
    with 2 vram_write_inside [OF assms(1,3), of "le_word (take n pData) :: uint16"] rd m base
    show ?thesis by (auto simp: mmio_write_def vram_ops_def vram_defs data_load_def)
  next
    case 3
    with len have "le_bytes n (le_word (take n pData) :: uint32) = take n pData"
      using le_bytes_le_word [of "take n pData", where 'a = 32] by simp
    with 3 vram_write_inside [OF assms(1,3), of "le_word (take n pData) :: uint32"] rd m base
    show ?thesis by (auto simp: mmio_write_def vram_ops_def vram_defs data_load_def)
  qed
qed

theorem vram_write_planes_witness:
  "\<exists>c'. vram_mmio_write 0xA0010 2 [1, 2, 3, 4, 5, 6, 7, 8]
      ((vgactx_init planes_zero)\<lparr>seq_reg := (seq_reg (vgactx_init planes_zero))[2 := 5]\<rparr>) = ret 0 c'"
  using vram_write_planes [OF vga_wf_upd(6) [OF vga_wf_zero], of 2 16 "[1, 2, 3, 4, 5, 6, 7, 8]" 2 5]
  by simp blast

text \<open>
  Eight-byte accesses to video memory. A write of eight bytes is reported as done and
  changes nothing; a read of eight bytes delivers the first four from plane 0 and leaves the
  other four bytes of the exchange buffer as they were.
\<close>

theorem vram_quad_access:
  assumes "vga_wf c" and "off + 8 \<le> 0x20000" and "length pData = 8"
  shows "vram_mmio_write (0xA0000 + of_nat off) 8 pData c = ret 0 c \<and>
    vram_mmio_read (0xA0000 + of_nat off) 8 pData c =
      ret (0, take 4 (drop off (pVRAM c ! 0)) @ drop 4 pData) c"
proof -
  let ?bs = "take 8 (drop off (pVRAM c ! 0))"
  have len: "length (pVRAM c ! 0) = 0x20000" using assms(1) by (simp add: vga_wf_def)
  have m: "mmio_match vram_region (0xA0000 + of_nat off)"
    "plane_off 0xA0000 (0xA0000 + of_nat off) = int off"
    using assms(2) by (simp_all add: vram_window)
  have base: "mm_base vram_region = 0xA0000" by (simp add: vram_region_def)
  have rd: "rd_bytes (pVRAM c ! 0) (int off) 8 = Inr ?bs"
    using assms(2) len by (simp add: rd_bytes_def in_range_def)
  have "le_bytes 4 (ucast (le_word ?bs :: uint64) :: uint32) = take 4 (drop off (pVRAM c ! 0))"
  proof -
    have "length ?bs = 8" using assms(2) len by simp
    then have "le_bytes 8 (le_word ?bs :: uint64) = ?bs"
      using le_bytes_le_word [of ?bs, where 'a = 64] by simp
    then have "take 4 (le_bytes 8 (le_word ?bs :: uint64)) = take 4 ?bs" by simp
    moreover have "take 4 (le_bytes 8 w) = le_bytes 4 (ucast w :: uint32)" for w :: uint64
    proof (rule nth_equalityI)
      fix i assume "i < length (take 4 (le_bytes 8 w))"
      then have i: "i < 4" by simp
      then have "(ucast (drop_bit (8 * i) w) :: uint8) = ucast (drop_bit (8 * i) (ucast w :: uint32))"
        by (intro bit_word_eqI) (auto simp: bit_simps)
      then show "take 4 (le_bytes 8 w) ! i = le_bytes 4 (ucast w :: uint32) ! i"
        using i by (simp add: le_bytes_def)
    qed simp
    ultimately show ?thesis by (simp add: min_def)
  qed
  then show ?thesis
    using m base assms(2,3) len
    by (simp add: mmio_write_def mmio_read_def vram_ops_def vram_defs vram_read_def data_load_def
        data_store_def rd_bytes_def in_range_def wr_bytes_def)
qed

text \<open>
  Addresses above 4 GB reach video memory. The window decodes every address whose low 32
  bits fall into it; for those above 4 GB the offset is not reduced, and an access of 1, 2
  or 4 bytes reads host memory outside the planes.
\<close>

theorem vram_high_alias:
  assumes "vga_wf c" and "2 ^ 32 \<le> unat a" and "n \<in> {1, 2, 4}"
    and "0xA0000 \<le> unat a mod 2 ^ 32" and "unat a mod 2 ^ 32 < 0xC0000"
  shows "vram_mmio_read a n pData c = Inl Wild_Access"
proof -
  have m: "mmio_match vram_region a" using assms(4,5) by (simp add: vram_match)
  have base: "mm_base vram_region = 0xA0000" by (simp add: vram_region_def)
  have "unat (a - 0xA0000) = unat a - 0xA0000"
    using assms(2) by (subst unat_sub) (simp_all add: word_le_nat_alt)
  then have "0x20000 < nat (plane_off 0xA0000 a)" using assms(2) by (simp add: plane_off_def)
  moreover have "length (pVRAM c ! 0) = 0x20000" using assms(1) by (simp add: vga_wf_def)
  ultimately have "\<not> in_range (pVRAM c ! 0) (plane_off 0xA0000 a) k" for k
    unfolding in_range_def by linarith
  then have rd: "rd_bytes (pVRAM c ! 0) (plane_off 0xA0000 a) k = Inl Wild_Access" for k
    by (simp only: rd_bytes_def if_False)
  with m base have "vram_mmio_read a n pData c = Inl Wild_Access" if "n = 1 \<or> n = 2 \<or> n = 4"
    using that by (auto simp: mmio_read_def vram_ops_def vram_defs vram_read_def data_store_def)
  with assms(3) show ?thesis by blast
qed

theorem vram_quad_access_witness:
  "vram_mmio_write (0xA0000 + of_nat 8) 8 (replicate 8 0xFF) (vgactx_init planes_zero) =
     ret 0 (vgactx_init planes_zero)"
proof -
  have "8 + 8 \<le> (0x20000 :: nat)" "length (replicate 8 (0xFF :: uint8)) = 8" by simp_all
  from vram_quad_access [OF vga_wf_zero this] show ?thesis by blast
qed

theorem vram_high_alias_witness:
  "vram_mmio_read 0x1000A0000 1 [0, 0, 0, 0, 0, 0, 0, 0] (vgactx_init planes_zero) = Inl Wild_Access"
  by (rule vram_high_alias [OF vga_wf_zero]) simp_all

end
