(* ===== verification/Vga_Rom.thy ===== *)
theory Vga_Rom
  imports Pci Mmio_Bus
begin

text \<open>
  The VGA expansion ROM, \<^verbatim>\<open>vga/rom.c\<close>: a PCI function whose ROM register maps a 128 KB
  window onto the memory bus. The window's record (\<^verbatim>\<open>ctx.pcirom\<close>) is in the state, since a
  write to the ROM register moves it. \<open>pROMData\<close> holds the image, \<open>pRAMData\<close> the shadow copy
  used when the window is at \<open>0xC0000\<close>; both are \<open>None\<close> while the pointers are NULL.
\<close>

record vgarom =
  rom_conf :: "uint8 list"
  pcirom :: mmio_region
  bIsMapped :: bool
  pROMData :: "uint8 list option"
  pRAMData :: "uint8 list option"
  rom_len :: uint32

text \<open>The size of the file is not checked here; a larger file overruns the buffer.\<close>

definition vgarom_load_bios :: "uint8 list option \<Rightarrow> vgarom \<Rightarrow> fault + int \<times> vgarom" where
  "vgarom_load_bios file s = (case file of
     None \<Rightarrow> Inr (-1, s)
   | Some f \<Rightarrow>
      rbind (wr_bytes (replicate 0x20000 0) 0 f) (\<lambda>rom.
        Inr (0, s\<lparr>pROMData := Some rom, rom_len := of_nat (length f), bIsMapped := False,
                 pRAMData := Some rom\<rparr>)))"

definition remap_bios :: "uint32 \<Rightarrow> vgarom \<Rightarrow> vgarom" where
  "remap_bios newbase s =
     (if newbase \<noteq> 0xC0000
      then s\<lparr>pcirom := (pcirom s)\<lparr>mm_base := newbase\<rparr>, bIsMapped := True\<rparr> else s)"

subsection \<open>Configuration space\<close>

definition vgarom_writeb :: "int \<Rightarrow> uint8 \<Rightarrow> vgarom \<Rightarrow> (vgarom, unit) effect" where
  "vgarom_writeb reg val s = (if reg \<noteq> 4 then assert_failed else ret () s)"

definition vgarom_writew :: "int \<Rightarrow> uint16 \<Rightarrow> vgarom \<Rightarrow> (vgarom, unit) effect" where
  "vgarom_writew reg val s = ret () s"

text \<open>For the base address registers only one byte is cleared: \<^verbatim>\<open>pConf\<close> points to bytes.\<close>

definition vgarom_writel :: "int \<Rightarrow> uint32 \<Rightarrow> vgarom \<Rightarrow> (vgarom, unit) effect" where
  "vgarom_writel reg val s =
     (if reg \<in> {0x10, 0x14, 0x18, 0x1C, 0x20, 0x24} then
        rbind (conf_write 1 reg (0 :: uint8) (rom_conf s)) (\<lambda>f. ret () (s\<lparr>rom_conf := f\<rparr>))
      else if reg = PCI_CFG_REG_EXPROM \<and> val = 0xFFFFF800 then
        rbind (conf_write 4 PCI_CFG_REG_EXPROM (0xFFFE0000 :: uint32) (rom_conf s))
          (\<lambda>f. ret () (s\<lparr>rom_conf := f\<rparr>))
      else if reg = PCI_CFG_REG_EXPROM then
        (let s1 = (if val AND 1 \<noteq> 0 then remap_bios (val AND NOT 1) s else s) in
         rbind (conf_write 4 reg val (rom_conf s1)) (\<lambda>f. ret () (s1\<lparr>rom_conf := f\<rparr>)))
      else assert_failed)"

definition vgarom_conf_read :: "nat \<Rightarrow> int \<Rightarrow> vgarom \<Rightarrow> (vgarom, 'a::len word) effect" where
  "vgarom_conf_read n reg s = rbind (conf_read n reg (rom_conf s)) (\<lambda>v. ret v s)"

definition vgarom_readb :: "int \<Rightarrow> vgarom \<Rightarrow> (vgarom, uint8) effect" where
  "vgarom_readb reg s = vgarom_conf_read 1 reg s"

definition vgarom_readw :: "int \<Rightarrow> vgarom \<Rightarrow> (vgarom, uint16) effect" where
  "vgarom_readw reg s = vgarom_conf_read 2 reg s"

definition vgarom_readl :: "int \<Rightarrow> vgarom \<Rightarrow> (vgarom, uint32) effect" where
  "vgarom_readl reg s = vgarom_conf_read 4 reg s"

definition vgarom_pci_ops :: "vgarom pci_ops" where
  "vgarom_pci_ops = \<lparr> cfg_readb = Some vgarom_readb, cfg_readw = Some vgarom_readw,
     cfg_readl = Some vgarom_readl, cfg_writeb = Some vgarom_writeb,
     cfg_writew = Some vgarom_writew, cfg_writel = Some vgarom_writel \<rparr>"

subsection \<open>The window\<close>

definition rom_off :: "uint32 \<Rightarrow> uint64 \<Rightarrow> int" where
  "rom_off b address = uint (address - ucast b)"

definition bytes_at :: "uint8 list option \<Rightarrow> int \<Rightarrow> nat \<Rightarrow> fault + uint8 list" where
  "bytes_at data off n = (case data of None \<Rightarrow> Inl Wild_Access | Some d \<Rightarrow> rd_bytes d off n)"

definition bios_write :: "nat \<Rightarrow> uint32 \<Rightarrow> uint64 \<Rightarrow> 'a::len word \<Rightarrow> vgarom \<Rightarrow> (vgarom, unit) effect" where
  "bios_write n b address val s =
     (if b = 0xC0000 then
        (case pRAMData s of None \<Rightarrow> Inl Wild_Access
         | Some d \<Rightarrow> rbind (wr_bytes d (rom_off b address) (le_bytes n val))
             (\<lambda>d'. ret () (s\<lparr>pRAMData := Some d'\<rparr>)))
      else ret () s)"

definition bios_read :: "nat \<Rightarrow> uint32 \<Rightarrow> uint64 \<Rightarrow> vgarom \<Rightarrow> (vgarom, 'a::len word) effect" where
  "bios_read n b address s =
     rbind (bytes_at (if b = 0xC0000 then pRAMData s else pROMData s) (rom_off b address) n)
       (\<lambda>bs. ret (le_word bs) s)"

definition vgarom_bios_writeb :: "uint32 \<Rightarrow> uint64 \<Rightarrow> uint8 \<Rightarrow> vgarom \<Rightarrow> (vgarom, unit) effect" where
  "vgarom_bios_writeb b address val s = bios_write 1 b address val s"

definition vgarom_bios_writew :: "uint32 \<Rightarrow> uint64 \<Rightarrow> uint16 \<Rightarrow> vgarom \<Rightarrow> (vgarom, unit) effect" where
  "vgarom_bios_writew b address val s = bios_write 2 b address val s"

definition vgarom_bios_writel :: "uint32 \<Rightarrow> uint64 \<Rightarrow> uint32 \<Rightarrow> vgarom \<Rightarrow> (vgarom, unit) effect" where
  "vgarom_bios_writel b address val s = bios_write 4 b address val s"

definition vgarom_bios_readb :: "uint32 \<Rightarrow> uint64 \<Rightarrow> vgarom \<Rightarrow> (vgarom, uint8) effect" where
  "vgarom_bios_readb b address s = bios_read 1 b address s"

definition vgarom_bios_readw :: "uint32 \<Rightarrow> uint64 \<Rightarrow> vgarom \<Rightarrow> (vgarom, uint16) effect" where
  "vgarom_bios_readw b address s = bios_read 2 b address s"

definition vgarom_bios_readl :: "uint32 \<Rightarrow> uint64 \<Rightarrow> vgarom \<Rightarrow> (vgarom, uint32) effect" where
  "vgarom_bios_readl b address s = bios_read 4 b address s"

definition vgarom_ops :: "vgarom mmio_ops" where
  "vgarom_ops = \<lparr> readb = Some vgarom_bios_readb, readw = Some vgarom_bios_readw,
     readl = Some vgarom_bios_readl, readq = None, writeb = Some vgarom_bios_writeb,
     writew = Some vgarom_bios_writew, writel = Some vgarom_bios_writel, writeq = None \<rparr>"

definition vgarom_zero :: vgarom where
  "vgarom_zero = \<lparr> rom_conf = replicate pci_conf_size 0, pcirom = \<lparr> mm_base = 0, mm_mask = 0 \<rparr>,
     bIsMapped = False, pROMData = None, pRAMData = None, rom_len = 0 \<rparr>"

definition x86_vga_rom_init :: "uint8 list option \<Rightarrow> fault + vgarom" where
  "x86_vga_rom_init file = rbind (vgarom_load_bios file vgarom_zero) (\<lambda>r.
     Inr ((snd r)\<lparr>pcirom := \<lparr> mm_base = 0xFFAA0000, mm_mask = NOT 0x1FFFF \<rparr>,
       rom_conf := pcidev_config 0x1234 0x1111 0x0003 0x0280
         (push_bit 24 0x03 OR push_bit 16 0x00 OR push_bit 8 0x00 OR push_bit 0 0x00) 0xC0000,
       bIsMapped := False\<rparr>))"

lemmas vgarom_defs [dev_defs] = vgarom_readb_def vgarom_readw_def vgarom_readl_def
  vgarom_bios_writeb_def vgarom_bios_writew_def vgarom_bios_writel_def
  vgarom_bios_readb_def vgarom_bios_readw_def vgarom_bios_readl_def

subsection \<open>The invariant\<close>

text \<open>
  The image is \<open>d\<close>, of the size of the window; the window is never at \<open>0xC0000\<close>, so the shadow
  copy is never used.
\<close>

definition rom_wf :: "uint8 list \<Rightarrow> vgarom \<Rightarrow> bool" where
  [wf_simps]: "rom_wf d s \<longleftrightarrow> length d = 0x20000 \<and> pROMData s = Some d \<and>
     length (rom_conf s) = pci_conf_size \<and> mm_mask (pcirom s) = NOT 0x1FFFF \<and>
     mm_base (pcirom s) \<noteq> 0xC0000"

definition rom_image :: "uint8 list \<Rightarrow> uint8 list" where
  "rom_image f = f @ replicate (0x20000 - length f) 0"

lemma x86_vga_rom_init_wf:
  "length f \<le> 0x20000 \<Longrightarrow> \<exists>s. x86_vga_rom_init (Some f) = Inr s \<and> rom_wf (rom_image f) s"
  by (simp add: x86_vga_rom_init_def vgarom_load_bios_def wr_bytes_def in_range_def rom_wf_def
      rom_image_def)

lemma remap_wf: "rom_wf d s \<Longrightarrow> rom_wf d (remap_bios b s)"
  by (simp add: rom_wf_def remap_bios_def)

lemma rom_wf_conf: "rom_wf d s \<Longrightarrow> length f = pci_conf_size \<Longrightarrow> rom_wf d (s\<lparr>rom_conf := f\<rparr>)"
  by (simp add: rom_wf_def)

lemma conf_write_keeps:
  "rom_wf d s \<Longrightarrow> keeps (rom_wf d) (rbind (conf_write n reg v (rom_conf s)) (\<lambda>f. ret () (s\<lparr>rom_conf := f\<rparr>)))"
  by (cases "conf_write n reg v (rom_conf s)")
     (auto dest: conf_write_length intro: rom_wf_conf simp: rom_wf_def)

lemma vgarom_writel_keeps: "rom_wf d s \<Longrightarrow> keeps (rom_wf d) (vgarom_writel reg v s)"
  unfolding vgarom_writel_def Let_def
  by (intro keeps_if) (simp_all add: conf_write_keeps remap_wf)

lemma bios_write_keeps: "rom_wf d s \<Longrightarrow> keeps (rom_wf d) (bios_write n b a v s)"
  by (auto simp: bios_write_def keeps_def rbind_Inr rom_wf_def split: option.splits if_splits)

lemma bios_read_keeps: "rom_wf d s \<Longrightarrow> keeps (rom_wf d) (bios_read n b a s)"
  by (auto simp: bios_read_def keeps_def rbind_Inr)

interpretation vgarom: mmio_device vgarom_ops "rom_wf d" for d
  by unfold_locales
     (auto simp: vgarom_ops_def vgarom_defs dest: keepsD [OF bios_read_keeps] keepsD [OF bios_write_keeps])

lemma vgarom_conf_read_pure:
  "rom_wf d s \<Longrightarrow> 0 \<le> reg \<Longrightarrow> reg \<le> 258 \<Longrightarrow> n \<le> 4 \<Longrightarrow> \<exists>v. vgarom_conf_read n reg s = ret v s"
  by (simp add: vgarom_conf_read_def conf_read_ok rom_wf_def)

lemma vgarom_conf_read_keeps: "rom_wf d s \<Longrightarrow> keeps (rom_wf d) (vgarom_conf_read n reg s)"
  by (auto simp: vgarom_conf_read_def keeps_def rbind_Inr)

interpretation vgarom_cfg: pci_function vgarom_pci_ops "rom_wf d" for d
  by unfold_locales
     (auto simp: vgarom_pci_ops_def vgarom_defs vgarom_writeb_def vgarom_writew_def
       intro: vgarom_conf_read_pure split: if_splits
       dest: keepsD [OF vgarom_conf_read_keeps] keepsD [OF vgarom_writel_keeps])

subsection \<open>Mapping the ROM\<close>

text \<open>The window alone on the bus.\<close>

abbreviation rom_mmio_write :: "uint64 \<Rightarrow> uint32 \<Rightarrow> uint8 list \<Rightarrow> vgarom \<Rightarrow> (vgarom, int) effect" where
  "rom_mmio_write \<equiv> mmio_write (\<lambda>s u. pcirom s) (\<lambda>u :: unit. vgarom_ops) [()]"

abbreviation rom_mmio_read ::
    "uint64 \<Rightarrow> uint32 \<Rightarrow> uint8 list \<Rightarrow> vgarom \<Rightarrow> (vgarom, int \<times> uint8 list) effect" where
  "rom_mmio_read \<equiv> mmio_read (\<lambda>s u. pcirom s) (\<lambda>u :: unit. vgarom_ops) [()]"

lemma rom_match:
  assumes "mm_mask r = NOT 0x1FFFF" and "unat (mm_base r) mod 0x20000 = 0"
  shows "mmio_match r a \<longleftrightarrow> mm_base r \<noteq> 0 \<and> unat (mm_base r) \<le> unat a mod 2 ^ 32 \<and>
     unat a mod 2 ^ 32 < unat (mm_base r) + 0x20000"
proof -
  have "mm_mask r = NOT (mask 17)" using assms(1) by (simp add: mask_eq_exp_minus_1)
  from mmio_match_window [OF this] assms(2) show ?thesis by simp
qed

lemma rom_read_inside:
  assumes wf: "rom_wf d s" and base: "mm_base (pcirom s) = nb" "nb \<noteq> 0" "unat nb mod 0x20000 = 0"
    and n: "n \<in> {1, 2, 4}" and off: "off + n \<le> 0x20000" and len: "n \<le> length pData"
  shows "rom_mmio_read (ucast nb + of_nat off) (of_nat n) pData s =
    ret (0, take n (drop off d) @ drop n pData) s"
proof -
  have nb: "unat nb \<le> 2 ^ 32 - 0x20000"
  proof -
    obtain q where q: "unat nb = q * 0x20000" using base(3) by (metis dvd_def mod_0_imp_dvd mult.commute)
    moreover have "unat nb < 2 ^ 32" using unsigned_less [of nb, where 'a = nat] by simp
    ultimately show ?thesis by simp
  qed
  have "unat (ucast nb :: uint64) = unat nb"
    by (simp only: unsigned_ucast_eq) (use nb in \<open>simp add: take_bit_nat_eq_self\<close>)
  then have a: "unat (ucast nb + of_nat off :: uint64) = unat nb + off"
    using nb off n by (auto simp: unat_word_ariths unat_of_nat)
  have m: "mmio_match (pcirom s) (ucast nb + of_nat off)"
    using wf base nb off n by (subst rom_match) (auto simp: rom_wf_def a)
  have o: "rom_off nb (ucast nb + of_nat off) = int off"
    using off n by (auto simp: rom_off_def uint_nat unat_of_nat)
  have rd: "rd_bytes d (int off) n = Inr (take n (drop off d))"
    using wf off by (simp add: rd_bytes_def in_range_def rom_wf_def)
  have l: "length (take n (drop off d)) = n" using wf off by (simp add: rom_wf_def)
  have c: "nb \<noteq> 0xC0000" using wf base(1) by (auto simp: rom_wf_def)
  have st: "wr_bytes pData 0 (take n (drop off d)) = Inr (take n (drop off d) @ drop n pData)"
    using l len by (simp add: wr_bytes_def in_range_def)
  consider "n = 1" | "n = 2" | "n = 4" using n by blast
  then show ?thesis
  proof cases
    case 1
    with l have "le_bytes n (le_word (take n (drop off d)) :: uint8) = take n (drop off d)"
      using le_bytes_le_word [of "take n (drop off d)", where 'a = 8] by simp
    with 1 rd m o c st base wf show ?thesis
      by (simp add: mmio_read_def vgarom_ops_def vgarom_defs bios_read_def bytes_at_def
          data_store_def rom_wf_def)
  next
    case 2
    with l have "le_bytes n (le_word (take n (drop off d)) :: uint16) = take n (drop off d)"
      using le_bytes_le_word [of "take n (drop off d)", where 'a = 16] by simp
    with 2 rd m o c st base wf show ?thesis
      by (simp add: mmio_read_def vgarom_ops_def vgarom_defs bios_read_def bytes_at_def
          data_store_def rom_wf_def)
  next
    case 3
    with l have "le_bytes n (le_word (take n (drop off d)) :: uint32) = take n (drop off d)"
      using le_bytes_le_word [of "take n (drop off d)", where 'a = 32] by simp
    with 3 rd m o c st base wf show ?thesis
      by (simp add: mmio_read_def vgarom_ops_def vgarom_defs bios_read_def bytes_at_def
          data_store_def rom_wf_def)
  qed
qed

text \<open>
  Mapping the ROM. Writing a 128 KB-aligned address other than 0 and \<open>0xC0000\<close>, with the
  enable bit, to the expansion ROM register makes every read of 1, 2 or 4 bytes inside the
  window at that address deliver the bytes of the image.
\<close>

theorem vgarom_map_and_read:
  assumes wf: "rom_wf d s" and nb: "nb \<noteq> 0" "nb \<noteq> 0xC0000" "unat nb mod 0x20000 = 0"
    and n: "n \<in> {1, 2, 4}" and off: "off + n \<le> 0x20000" and len: "n \<le> length pData"
  shows "\<exists>s'. vgarom_writel 0x30 (nb OR 1) s = ret () s' \<and> rom_wf d s' \<and>
    rom_mmio_read (ucast nb + of_nat off) (of_nat n) pData s' =
      ret (0, take n (drop off d) @ drop n pData) s'"
proof -
  have "even (unat nb)" using nb(3) by (metis dvd_imp_mod_0 dvd_trans even_numeral mod_0_imp_dvd)
  then have "\<not> bit (unat nb) 0" by (simp only: bit_0 not_not)
  then have b0: "\<not> bit nb 0" by (simp only: bit_unsigned_iff) simp
  have one: "(nb OR 1) AND 1 = 1" by (rule bit_word_eqI) (auto simp: bit_simps)
  have even: "(nb OR 1) AND NOT 1 = nb"
  proof (rule bit_word_eqI)
    fix k assume "k < LENGTH(32)"
    then show "bit ((nb OR 1) AND NOT 1) k = bit nb k"
      using b0 by (cases k) (auto simp: bit_simps)
  qed
  have ne: "nb OR 1 \<noteq> 0xFFFFF800"
  proof
    assume "nb OR 1 = 0xFFFFF800"
    then have "(nb OR 1) AND 1 = 0xFFFFF800 AND 1" by (simp only:)
    then show False unfolding one by simp
  qed
  let ?s = "remap_bios nb s"
  have wf1: "rom_wf d ?s" using wf by (rule remap_wf)
  then obtain f where f: "conf_write 4 0x30 (nb OR 1) (rom_conf ?s) = Inr f"
    by (auto simp: conf_write_def wr_bytes_def in_range_def rom_wf_def pci_conf_size_def)
  have w: "vgarom_writel 0x30 (nb OR 1) s = ret () (?s\<lparr>rom_conf := f\<rparr>)"
    using ne one even f by (simp add: vgarom_writel_def PCI_CFG_REG_EXPROM_def Let_def)
  have wf2: "rom_wf d (?s\<lparr>rom_conf := f\<rparr>)"
    using wf1 conf_write_length [OF f] by (simp add: rom_wf_def)
  have "mm_base (pcirom (?s\<lparr>rom_conf := f\<rparr>)) = nb" using nb(2) by (simp add: remap_bios_def)
  with w wf2 rom_read_inside [OF wf2 this nb(1,3) n off len] show ?thesis by blast
qed

lemma data_load_const: "k \<le> length pData \<Longrightarrow> data_load k pData (\<lambda>v. x) = x"
  by (simp add: data_load_def rd_bytes_def in_range_def)

text \<open>
  C33: the image cannot be written. In every state the guest can reach, a write of 1, 2 or 4
  bytes to any address of the window is accepted and changes nothing, neither the image nor
  the configuration; mapping the window to \<open>0xC0000\<close>, where it would be writable, is refused
  and leaves the window where it was.
\<close>

theorem vgarom_write_protected:
  assumes "rom_wf d s" and "mmio_match (pcirom s) a" and "n \<in> {1, 2, 4}" and "4 \<le> length pData"
  shows "rom_mmio_write a n pData s = ret 0 s \<and>
    (\<exists>s'. vgarom_writel 0x30 0xC0001 s = ret () s' \<and> pcirom s' = pcirom s \<and> pROMData s' = pROMData s)"
proof
  have c: "mm_base (pcirom s) \<noteq> 0xC0000" using assms(1) by (simp add: rom_wf_def)
  have "n = 1 \<or> n = 2 \<or> n = 4" using assms(3) by blast
  then show "rom_mmio_write a n pData s = ret 0 s"
    using assms(2,4) c
    by (auto simp: mmio_write_def vgarom_ops_def vgarom_defs bios_write_def data_load_const)
  obtain f where "conf_write 4 0x30 (0xC0001 :: uint32) (rom_conf s) = Inr f"
    using assms(1) by (auto simp: conf_write_def wr_bytes_def in_range_def rom_wf_def pci_conf_size_def)
  then show "\<exists>s'. vgarom_writel 0x30 0xC0001 s = ret () s' \<and> pcirom s' = pcirom s \<and> pROMData s' = pROMData s"
    by (simp add: vgarom_writel_def PCI_CFG_REG_EXPROM_def remap_bios_def Let_def)
qed

text \<open>A function with an image of 64 bytes.\<close>

definition rom_boot :: vgarom where
  "rom_boot = (case x86_vga_rom_init (Some (replicate 64 0x55)) of Inr s \<Rightarrow> s | Inl _ \<Rightarrow> vgarom_zero)"

lemma rom_boot_wf: "rom_wf (rom_image (replicate 64 0x55)) rom_boot"
  using x86_vga_rom_init_wf [of "replicate 64 0x55"] by (auto simp: rom_boot_def)

lemma rom_boot_region: "pcirom rom_boot = \<lparr> mm_base = 0xFFAA0000, mm_mask = NOT 0x1FFFF \<rparr>"
  by (simp add: rom_boot_def x86_vga_rom_init_def vgarom_load_bios_def wr_bytes_def in_range_def)

theorem vgarom_map_and_read_witness:
  "\<exists>s'. vgarom_writel 0x30 (0xE0000000 OR 1) rom_boot = ret () s' \<and>
    rom_mmio_read (ucast (0xE0000000 :: uint32) + of_nat 2) (of_nat 2) [0, 0, 9, 9] s' =
      ret (0, take 2 (drop 2 (rom_image (replicate 64 0x55))) @ drop 2 [0, 0, 9, 9]) s'"
proof -
  have "(0xE0000000 :: uint32) \<noteq> 0" "(0xE0000000 :: uint32) \<noteq> 0xC0000"
    "unat (0xE0000000 :: uint32) mod 0x20000 = 0" "(2 :: nat) \<in> {1, 2, 4}" "2 + 2 \<le> (0x20000 :: nat)"
    "2 \<le> length [0, 0, 9, 9 :: uint8]" by simp_all
  from vgarom_map_and_read [OF rom_boot_wf this] show ?thesis by blast
qed

theorem vgarom_write_protected_witness:
  "rom_mmio_write 0xFFAA0004 4 [1, 2, 3, 4, 0, 0, 0, 0] rom_boot = ret 0 rom_boot"
proof -
  have "mmio_match (pcirom rom_boot) 0xFFAA0004" by (simp add: rom_boot_region mmio_match_def)
  then have "rom_mmio_write 0xFFAA0004 4 [1, 2, 3, 4, 0, 0, 0, 0] rom_boot = ret 0 rom_boot \<and>
    (\<exists>s'. vgarom_writel 0x30 0xC0001 rom_boot = ret () s' \<and> pcirom s' = pcirom rom_boot \<and>
       pROMData s' = pROMData rom_boot)"
    by (rule vgarom_write_protected [OF rom_boot_wf]) simp_all
  then show ?thesis ..
qed

text \<open>
  Sizing the ROM. The probe value of the expansion ROM register makes it read as the
  mask of a 128 KB region and does not move the window.
\<close>

theorem vgarom_sizing:
  assumes "rom_wf d s"
  shows "\<exists>s'. vgarom_writel 0x30 0xFFFFF800 s = ret () s' \<and>
    vgarom_readl 0x30 s' = ret 0xFFFE0000 s' \<and> pcirom s' = pcirom s"
proof -
  obtain f where f: "conf_write 4 0x30 (0xFFFE0000 :: uint32) (rom_conf s) = Inr f"
    using assms by (auto simp: conf_write_def wr_bytes_def in_range_def rom_wf_def pci_conf_size_def)
  with conf_read_write_4 [OF f] show ?thesis
    by (simp add: vgarom_writel_def vgarom_readl_def vgarom_conf_read_def PCI_CFG_REG_EXPROM_def)
qed

theorem vgarom_sizing_witness:
  "\<exists>s'. vgarom_writel 0x30 0xFFFFF800 rom_boot = ret () s' \<and>
    vgarom_readl 0x30 s' = ret 0xFFFE0000 s'"
  using vgarom_sizing [OF rom_boot_wf] by blast

end
