(* ===== verification/Qemu_Paravirt.thy ===== *)
theory Qemu_Paravirt
  imports Io_Bus
begin

text \<open>
  The firmware configuration interface, \<^verbatim>\<open>qemu_paravirt.c\<close>: a selector written as a word to
  port \<open>0x510\<close> prepares a return buffer, which the guest reads byte by byte.
\<close>

record qemu =
  qreg :: uint16
  ret_off :: int
  ret_buff :: "uint8 list"

definition qemupara_inb :: "uint16 \<Rightarrow> qemu \<Rightarrow> (qemu, uint8) effect" where
  "qemupara_inb port q =
     (if ret_off q < 1024 then
        (if 0 \<le> ret_off q \<and> nat (ret_off q) < length (ret_buff q)
         then ret (ret_buff q ! nat (ret_off q)) (q\<lparr>ret_off := ret_off q + 1\<rparr>)
         else Inl Wild_Access)
      else assert_failed)"

text \<open>\<^verbatim>\<open>memcpy\<close> and the pointer stores go to the start of the buffer.\<close>

definition put_buff :: "uint8 list \<Rightarrow> qemu \<Rightarrow> (qemu, unit) effect" where
  "put_buff bs q = rbind (wr_bytes (ret_buff q) 0 bs) (\<lambda>b. ret () (q\<lparr>ret_buff := b\<rparr>))"

definition E820_RAM :: uint32 where "E820_RAM = 1"
definition E820_RESERVED :: uint32 where "E820_RESERVED = 2"

definition e820entry :: "uint64 \<Rightarrow> uint64 \<Rightarrow> uint32 \<Rightarrow> uint8 list" where
  "e820entry addr len typ = le_bytes 8 addr @ le_bytes 8 len @ le_bytes 4 typ"

definition e820table :: "uint8 list" where
  "e820table = le_bytes 4 (3 :: uint32) @
     e820entry 0x0 0xA0000 E820_RAM @
     e820entry 0x100000 (ucast (0xE0000000 - 0x100000 :: uint32)) E820_RAM @
     e820entry 0xFFFBC000 (0x100000000 - 0xFFFBC000) E820_RESERVED"

definition qemupara_outw :: "uint16 \<Rightarrow> uint16 \<Rightarrow> qemu \<Rightarrow> (qemu, unit) effect" where
  "qemupara_outw port val q0 =
     (if port = 0 then
        (let q = q0\<lparr>qreg := val\<rparr>; r = q\<lparr>ret_off := 0\<rparr> in
         if val = 0x00 then put_buff [0x51, 0x45, 0x4D, 0x55] r
         else if val = 0xD then put_buff (le_bytes 4 (1 :: uint32)) q
         else if val = 0xE then put_buff [0, 1] r
         else if val = 0x8000 then ret () r
         else if val = 0x8003 then put_buff e820table r
         else if val = 0x19 then put_buff (le_bytes 4 (0 :: uint32)) r
         else if val = 0x0F then put_buff (le_bytes 4 (32 :: uint32)) r
         else if val = 0x8001 then put_buff (le_bytes 2 (0 :: uint16)) r
         else if val = 0x8002 then put_buff [0] r
         else assert_failed)
      else assert_failed)"

definition qemu_hdl :: "qemu io_handler" where
  "qemu_hdl = \<lparr> base = 0x510, io_mask = 0xFFFE,
     inb = Some qemupara_inb, inw = Some (\<lambda>port q. assert_failed),
     inl = Some (\<lambda>port q. assert_failed),
     outb = Some (\<lambda>port val q. assert_failed), outw = Some qemupara_outw,
     outl = Some (\<lambda>port val q. assert_failed) \<rparr>"

definition qemu_zero :: qemu where
  "qemu_zero = \<lparr> qreg = 0, ret_off = 0, ret_buff = replicate 1024 0 \<rparr>"

definition qemu_wf :: "qemu \<Rightarrow> bool" where
  [wf_simps]: "qemu_wf q \<longleftrightarrow> length (ret_buff q) = 1024 \<and> 0 \<le> ret_off q \<and> ret_off q \<le> 1024"

lemma qemu_wf_zero: "qemu_wf qemu_zero"
  by (simp add: qemu_wf_def qemu_zero_def)

lemma put_buff_keeps: "qemu_wf q \<Longrightarrow> keeps qemu_wf (put_buff bs q)"
  by (auto simp: put_buff_def keeps_def rbind_Inr qemu_wf_def dest: wr_bytes_length)

lemma qemupara_outw_keeps: "qemu_wf q \<Longrightarrow> keeps qemu_wf (qemupara_outw p v q)"
proof -
  assume "qemu_wf q"
  then have "qemu_wf (q\<lparr>qreg := v\<rparr>)" "qemu_wf (q\<lparr>qreg := v, ret_off := 0\<rparr>)"
    by (simp_all add: qemu_wf_def)
  then show ?thesis
    unfolding qemupara_outw_def Let_def
    by (intro keeps_if) (simp_all only: put_buff_keeps keeps_simps)
qed

lemma qemupara_inb_wf: "qemu_wf q \<Longrightarrow> qemupara_inb p q = Inr (v, q', es) \<Longrightarrow> qemu_wf q'"
  by (auto simp: qemupara_inb_def qemu_wf_def split: if_splits)

interpretation qemu: port_device qemu_hdl qemu_wf
  by unfold_locales
     (auto simp: qemu_hdl_def dest: qemupara_inb_wf keepsD [OF qemupara_outw_keeps])

lemma qemu_hdl_simps [simp]:
  "base qemu_hdl = 0x510" "inb qemu_hdl = Some qemupara_inb" "outw qemu_hdl = Some qemupara_outw"
  by (simp_all add: qemu_hdl_def)

subsection \<open>What the guest reads\<close>

lemma qemu_reads:
  assumes "qemu_wf q" and "ret_off q = int i" and "i + n \<le> 1024"
  shows "handler_run qemu_hdl (replicate n (In8 0x511)) q =
    emit [] (map ucast (take n (drop i (ret_buff q)))) (q\<lparr>ret_off := int (i + n)\<rparr>)"
  using assms
proof (induction n arbitrary: q i)
  case 0
  then show ?case by simp
next
  case (Suc n)
  let ?q = "q\<lparr>ret_off := int (Suc i)\<rparr>"
  have step: "qemupara_inb 1 q = ret (ret_buff q ! i) ?q"
    using Suc.prems by (simp add: qemupara_inb_def qemu_wf_def add.commute)
  have d: "drop i (ret_buff q) = ret_buff q ! i # drop (Suc i) (ret_buff q)"
    using Suc.prems by (simp add: Cons_nth_drop_Suc qemu_wf_def)
  have "handler_run qemu_hdl (replicate n (In8 0x511)) ?q =
    emit [] (map ucast (take n (drop (Suc i) (ret_buff ?q)))) (?q\<lparr>ret_off := int (Suc i + n)\<rparr>)"
    by (rule Suc.IH) (use Suc.prems in \<open>auto simp: qemu_wf_def\<close>)
  then show ?case by (simp add: step d)
qed

text \<open>How firmware reads the table: a count, and for each entry address, length and type.\<close>

fun e820_entries :: "nat \<Rightarrow> uint8 list \<Rightarrow> (nat \<times> nat \<times> nat) list" where
  "e820_entries 0 bs = []"
| "e820_entries (Suc k) bs =
     (unat (le_word (take 8 bs) :: uint64), unat (le_word (take 8 (drop 8 bs)) :: uint64),
      unat (le_word (take 4 (drop 16 bs)) :: uint32)) # e820_entries k (drop 20 bs)"

definition e820_parse :: "uint8 list \<Rightarrow> (nat \<times> nat \<times> nat) list" where
  "e820_parse bs = e820_entries (unat (le_word (take 4 bs) :: uint32)) (drop 4 bs)"

lemma length_e820entry [simp]: "length (e820entry a l t) = 20"
  by (simp add: e820entry_def)

lemma e820_entries_Cons:
  "e820_entries (Suc k) (e820entry a l t @ bs) = (unat a, unat l, unat t) # e820_entries k bs"
  by (simp add: e820entry_def)

lemma e820_parse_table:
  "e820_parse e820table =
     [(0, 0xA0000, 1), (0x100000, 0xDFF00000, 1), (0xFFFBC000, 0x44000, 2)]"
proof -
  have u: "unat (ucast (0xE0000000 - 0x100000 :: uint32) :: uint64) = 0xDFF00000"
    by (simp add: unsigned_ucast_eq take_bit_nat_eq_self)
  have "e820_parse e820table = e820_entries 3 (e820entry 0x0 0xA0000 E820_RAM @
     e820entry 0x100000 (ucast (0xE0000000 - 0x100000 :: uint32)) E820_RAM @
     e820entry 0xFFFBC000 (0x100000000 - 0xFFFBC000) E820_RESERVED @ [])"
    by (simp add: e820_parse_def e820table_def)
  also have "3 = Suc (Suc (Suc 0))" by simp
  finally show ?thesis
    unfolding e820_entries_Cons u by (simp add: E820_RAM_def E820_RESERVED_def)
qed

lemma length_e820table: "length e820table = 64"
  by (simp add: e820table_def)

text \<open>
  C32: the memory map. Selecting the E820 table and reading its 64 bytes delivers three entries
  in the format firmware expects: 640 KB of RAM at 0, RAM from 1 MB up to \<open>0xE0000000\<close>,
  and a reserved range from \<open>0xFFFBC000\<close> to 4 GB, whatever was read before.
\<close>

theorem qemu_e820_map:
  assumes "qemu_wf q"
  shows "\<exists>q' tbl. handler_run qemu_hdl (Out16 0x510 0x8003 # replicate 64 (In8 0x511)) q =
      emit [] (0 # map ucast tbl) q' \<and>
    e820_parse tbl = [(0, 0xA0000, 1), (0x100000, 0xE0000000 - 0x100000, 1),
      (0xFFFBC000, 0x100000000 - 0xFFFBC000, 2)]"
proof -
  have len: "length (ret_buff q) = 1024" using assms by (simp add: qemu_wf_def)
  let ?q = "q\<lparr>qreg := 0x8003, ret_off := 0, ret_buff := e820table @ drop 64 (ret_buff q)\<rparr>"
  have sel: "qemupara_outw 0 0x8003 q = ret () ?q"
    using len by (simp add: qemupara_outw_def put_buff_def wr_bytes_def in_range_def length_e820table)
  have "qemu_wf ?q" using len by (simp add: qemu_wf_def length_e820table)
  from qemu_reads [OF this, of 0 64]
  have "handler_run qemu_hdl (replicate 64 (In8 0x511)) ?q =
      emit [] (map ucast e820table) (?q\<lparr>ret_off := 64\<rparr>)"
    by (simp add: length_e820table)
  with sel e820_parse_table show ?thesis by auto
qed

theorem qemu_e820_map_witness:
  "\<exists>q' tbl. handler_run qemu_hdl (Out16 0x510 0x8003 # replicate 64 (In8 0x511)) qemu_zero =
      emit [] (0 # map ucast tbl) q' \<and> length (e820_parse tbl) = 3"
  using qemu_e820_map [OF qemu_wf_zero] by (elim exE conjE) (intro exI conjI, assumption, simp)

text \<open>
  The NUMA selector does not rewind. After another selector and \<open>k\<close> bytes read, selecting
  the NUMA count and reading four bytes delivers the count, 1, only when \<open>k = 0\<close>; for one
  to four bytes read before, the first byte delivered is not the low byte of the count.
\<close>

theorem qemu_numa_not_rewound:
  assumes "qemu_wf q" and "k \<le> 4"
  shows "\<exists>q' bs. handler_run qemu_hdl
      ([Out16 0x510 0x19] @ replicate k (In8 0x511) @ [Out16 0x510 0xD] @ replicate 4 (In8 0x511)) q =
      emit [] (replicate (k + 2) 0 @ map ucast bs) q' \<and>
    bs = take 4 (drop k ([1, 0, 0, 0] @ drop 4 (ret_buff q)))"
proof -
  have len: "length (ret_buff q) = 1024" using assms by (simp add: qemu_wf_def)
  have z: "le_bytes 4 (0 :: uint32) = [0, 0, 0, 0]" "le_bytes 4 (1 :: uint32) = [1, 0, 0, 0]"
    by (simp_all add: le_bytes_def upt_rec)
  have d4: "drop (Suc (Suc (Suc (Suc 0)))) xs = drop 4 xs" for xs :: "uint8 list"
    by (simp add: numeral_eq_Suc)
  let ?q = "q\<lparr>qreg := 0x19, ret_off := 0, ret_buff := [0, 0, 0, 0] @ drop 4 (ret_buff q)\<rparr>"
  let ?r = "?q\<lparr>ret_off := int k, qreg := 0xD, ret_buff := [1, 0, 0, 0] @ drop 4 (ret_buff q)\<rparr>"
  have s1: "handler_run qemu_hdl [Out16 0x510 0x19] q = emit [] [0] ?q"
    using len by (simp add: qemupara_outw_def put_buff_def wr_bytes_def in_range_def z d4)
  have wf1: "qemu_wf ?q" and wf2: "qemu_wf ?r"
    using len assms(2) by (simp_all add: qemu_wf_def)
  have "take k ([0, 0, 0, 0] @ drop 4 (ret_buff q)) = replicate k 0"
    using assms(2) by (auto simp: le_Suc_eq numeral_eq_Suc)
  with qemu_reads [OF wf1, of 0 k] assms(2)
  have s2: "handler_run qemu_hdl (replicate k (In8 0x511)) ?q =
      emit [] (replicate k 0) (?q\<lparr>ret_off := int k\<rparr>)"
    by simp
  have s3: "handler_run qemu_hdl [Out16 0x510 0xD] (?q\<lparr>ret_off := int k\<rparr>) = emit [] [0] ?r"
    using len by (simp add: qemupara_outw_def put_buff_def wr_bytes_def in_range_def z d4)
  have s4: "handler_run qemu_hdl (replicate 4 (In8 0x511)) ?r =
      emit [] (map ucast (take 4 (drop k (ret_buff ?r)))) (?r\<lparr>ret_off := int (k + 4)\<rparr>)"
    by (rule qemu_reads [OF wf2]) (use assms(2) in simp_all)
  have "[0] @ replicate k 0 @ [0] = replicate (k + 2) (0 :: uint32)"
    by (simp add: replicate_append_same flip: replicate_Suc)
  with run_with_append_emit [OF s1 run_with_append_emit [OF s2 run_with_append_emit [OF s3 s4]]]
  show ?thesis
    by (intro exI [of _ "?r\<lparr>ret_off := int (k + 4)\<rparr>"]
        exI [of _ "take 4 (drop k ([1, 0, 0, 0] @ drop 4 (ret_buff q)))"]) simp
qed

theorem qemu_numa_not_rewound_witness:
  "\<exists>q' bs. handler_run qemu_hdl
      ([Out16 0x510 0x19] @ replicate 4 (In8 0x511) @ [Out16 0x510 0xD] @ replicate 4 (In8 0x511)) qemu_zero =
      emit [] (replicate 6 0 @ map ucast bs) q' \<and> bs = [0, 0, 0, 0]"
  using qemu_numa_not_rewound [OF qemu_wf_zero, of 4]
  by (simp add: qemu_zero_def numeral_eq_Suc)

end
