(* ===== verification/Machine.thy ===== *)
theory Machine
  imports Simple_Ports Keyboard Cmos Floppy Ata Vga_Ram Vga_Rom Qemu_Paravirt
begin

text \<open>
  The machine: \<^verbatim>\<open>devices_register_all\<close> and the initialisers it calls (\<^verbatim>\<open>devices.c\<close>,
  \<^verbatim>\<open>vga/vga.c\<close>), which fill the port table, the list of memory-mapped devices and the PCI bus
  in a fixed order, and the handling of virtual-CPU exits in \<^verbatim>\<open>system.c\<close>. Every device's
  handlers are lifted to the record of all device states; the contracts proved for the
  devices instantiate the locales of the three buses.
\<close>

record machine =
  m_cmos :: cmos
  m_ps2 :: ps2pos
  m_kbd :: kbd
  m_fdc :: fdc
  m_dma :: dma
  m_mem :: lowmem
  m_qemu :: qemu
  m_vga :: vgactx
  m_rom :: vgarom
  m_ata :: atactl
  m_pci :: "bool pci_bus"

text \<open>
  The two PCI functions are told apart by a truth value: \<open>False\<close> is the VGA function,
  \<open>True\<close> the ATA controller. They are registered in this order.
\<close>

definition get_fsys :: "machine \<Rightarrow> fsys" where
  "get_fsys m = \<lparr> the_fdc = m_fdc m, the_dma = m_dma m, the_mem = m_mem m \<rparr>"

definition put_fsys :: "fsys \<Rightarrow> machine \<Rightarrow> machine" where
  "put_fsys s m = m\<lparr>m_fdc := the_fdc s, m_dma := the_dma s, m_mem := the_mem s\<rparr>"

definition get_pci :: "machine \<Rightarrow> (bool, vgarom \<times> atactl) pci_sys" where
  "get_pci m = (m_pci m, m_rom m, m_ata m)"

definition put_pci :: "(bool, vgarom \<times> atactl) pci_sys \<Rightarrow> machine \<Rightarrow> machine" where
  "put_pci s m = m\<lparr>m_pci := fst s, m_rom := fst (snd s), m_ata := snd (snd s)\<rparr>"

definition machine_pci_ops :: "bool \<Rightarrow> (vgarom \<times> atactl) pci_ops" where
  "machine_pci_ops p =
     (if p then lift_pci_ops snd (\<lambda>a x. (fst x, a)) ata_pci_ops
      else lift_pci_ops fst (\<lambda>r x. (r, snd x)) vgarom_pci_ops)"

subsection \<open>The port table\<close>

datatype io_dev = IO_CMOS | IO_PS2 | IO_Debug | IO_DMA0 | IO_DMA1 | IO_Page | IO_PCI | IO_QEMU
  | IO_Kbd | IO_LPT1 | IO_LPT2 | IO_COM1 | IO_COM2 | IO_COM3 | IO_COM4
  | IO_VGA_C | IO_VGA_D | IO_VGADbg | IO_VBE | IO_Floppy | IO_ATA

fun handler_of :: "io_dev \<Rightarrow> machine io_handler" where
  "handler_of IO_CMOS = lift_handler m_cmos (\<lambda>s m. m\<lparr>m_cmos := s\<rparr>) cmos_hdl"
| "handler_of IO_PS2 = lift_handler m_ps2 (\<lambda>s m. m\<lparr>m_ps2 := s\<rparr>) ps2pos_hdl"
| "handler_of IO_Debug = lift_handler (\<lambda>m. ()) (\<lambda>s m. m) biosdebug_hdl"
| "handler_of IO_DMA0 = lift_handler m_dma (\<lambda>s m. m\<lparr>m_dma := s\<rparr>) (x86_i8237_dma_init ! 0)"
| "handler_of IO_DMA1 = lift_handler m_dma (\<lambda>s m. m\<lparr>m_dma := s\<rparr>) (x86_i8237_dma_init ! 1)"
| "handler_of IO_Page = lift_handler m_dma (\<lambda>s m. m\<lparr>m_dma := s\<rparr>) (x86_i8237_dma_init ! 2)"
| "handler_of IO_PCI = lift_handler get_pci put_pci (pci_hdl machine_pci_ops)"
| "handler_of IO_QEMU = lift_handler m_qemu (\<lambda>s m. m\<lparr>m_qemu := s\<rparr>) qemu_hdl"
| "handler_of IO_Kbd = lift_handler m_kbd (\<lambda>s m. m\<lparr>m_kbd := s\<rparr>) kbd_hdl"
| "handler_of IO_LPT1 = lift_handler (\<lambda>m. ()) (\<lambda>s m. m) (x86_parallelport_init ! 0)"
| "handler_of IO_LPT2 = lift_handler (\<lambda>m. ()) (\<lambda>s m. m) (x86_parallelport_init ! 1)"
| "handler_of IO_COM1 = lift_handler (\<lambda>m. ()) (\<lambda>s m. m) (x86_serialport_init ! 0)"
| "handler_of IO_COM2 = lift_handler (\<lambda>m. ()) (\<lambda>s m. m) (x86_serialport_init ! 1)"
| "handler_of IO_COM3 = lift_handler (\<lambda>m. ()) (\<lambda>s m. m) (x86_serialport_init ! 2)"
| "handler_of IO_COM4 = lift_handler (\<lambda>m. ()) (\<lambda>s m. m) (x86_serialport_init ! 3)"
| "handler_of IO_VGA_C = lift_handler m_vga (\<lambda>s m. m\<lparr>m_vga := s\<rparr>) (vga_hdl 0x3C0)"
| "handler_of IO_VGA_D = lift_handler m_vga (\<lambda>s m. m\<lparr>m_vga := s\<rparr>) (vga_hdl 0x3D0)"
| "handler_of IO_VGADbg = lift_handler (\<lambda>m. ()) (\<lambda>s m. m) vgadbg_hdl"
| "handler_of IO_VBE = lift_handler (\<lambda>m. ()) (\<lambda>s m. m) vbe_hdl"
| "handler_of IO_Floppy = lift_handler get_fsys put_fsys floppy_hdl"
| "handler_of IO_ATA = lift_handler m_ata (\<lambda>s m. m\<lparr>m_ata := s\<rparr>) ata_hdl"

text \<open>The devices behind the CMOS, in the order their initialisers run.\<close>

definition io_order :: "io_dev list" where
  "io_order = [IO_PS2, IO_Debug, IO_DMA0, IO_DMA1, IO_Page, IO_PCI, IO_QEMU, IO_Kbd,
     IO_LPT1, IO_LPT2, IO_COM1, IO_COM2, IO_COM3, IO_COM4,
     IO_VGA_C, IO_VGA_D, IO_VGADbg, IO_VBE, IO_Floppy, IO_ATA]"

definition register_handlers :: "'s io_handler list \<Rightarrow> 's io_table \<Rightarrow> 's io_table" where
  "register_handlers hs tbl = foldl (\<lambda>t h. snd (io_register_handler h t)) tbl hs"

definition devices_register_all :: "fault + machine io_table" where
  "devices_register_all = rbind (x86_cmos_init (handler_of IO_CMOS) [])
     (\<lambda>tbl. Inr (register_handlers (map handler_of io_order) tbl))"

definition machine_devs :: "io_dev list" where
  "machine_devs = IO_CMOS # io_order"

definition machine_table :: "machine io_table" where
  "machine_table = map handler_of machine_devs"

lemma register_handlers_room:
  "length tbl + length hs < MAX_HANDLERS \<Longrightarrow> register_handlers hs tbl = tbl @ hs"
  by (induction hs arbitrary: tbl) (simp_all add: register_handlers_def io_register_handler_def)

lemma devices_register_all_table: "devices_register_all = Inr machine_table"
proof -
  have "x86_cmos_init (handler_of IO_CMOS) [] = Inr [handler_of IO_CMOS]"
    by (subst x86_cmos_init_eq) (simp_all add: MAX_HANDLERS_def)
  moreover have "register_handlers (map handler_of io_order) [handler_of IO_CMOS] =
      [handler_of IO_CMOS] @ map handler_of io_order"
    by (rule register_handlers_room) (simp add: io_order_def MAX_HANDLERS_def)
  ultimately show ?thesis
    by (simp add: devices_register_all_def machine_table_def machine_devs_def)
qed

subsection \<open>Memory-mapped devices\<close>

text \<open>\<open>False\<close> is the window of the VGA ROM, \<open>True\<close> is video memory.\<close>

definition machine_region :: "machine \<Rightarrow> bool \<Rightarrow> mmio_region" where
  "machine_region m p = (if p then vram_region else pcirom (m_rom m))"

definition machine_mmio_ops :: "bool \<Rightarrow> machine mmio_ops" where
  "machine_mmio_ops p = (if p then lift_ops m_vga (\<lambda>s m. m\<lparr>m_vga := s\<rparr>) vram_ops
     else lift_ops m_rom (\<lambda>s m. m\<lparr>m_rom := s\<rparr>) vgarom_ops)"

definition machine_mmio :: "bool list" where
  "machine_mmio = mmio_register_device True (mmio_register_device False mmio_init)"

subsection \<open>Exits of the virtual CPU\<close>

text \<open>
  The part of \<^verbatim>\<open>struct kvm_run\<close> the code uses. The bytes of the mapped structure itself are
  \<open>run_page\<close>: port data is exchanged at an offset into it. What the kernel delivers is the
  argument of these functions.
\<close>

record kvm_io =
  io_out :: bool
  io_size :: uint8
  io_port :: uint16
  io_count :: uint32
  data_offset :: uint64
  run_page :: "uint8 list"

record kvm_mmio =
  is_write :: bool
  phys_addr :: uint64
  mm_len :: uint32
  mm_data :: "uint8 list"

fun io_out_loop :: "'s io_table \<Rightarrow> nat \<Rightarrow> uint16 \<Rightarrow> nat \<Rightarrow> int \<Rightarrow> uint8 list \<Rightarrow> 's \<Rightarrow> ('s, int) effect" where
  "io_out_loop tbl sz port 0 off page s = ret 0 s"
| "io_out_loop tbl sz port (Suc n) off page s =
     ebind (if sz = 1 then data_load 1 (drop (nat off) page) (\<lambda>v. io_outb tbl port v s)
            else if sz = 2 then data_load 2 (drop (nat off) page) (\<lambda>v. io_outw tbl port v s)
            else if sz = 4 then data_load 4 (drop (nat off) page) (\<lambda>v. io_outl tbl port v s)
            else assert_failed)
       (\<lambda>_. io_out_loop tbl sz port n (off + int sz) page)"

text \<open>The value read is stored into the page.\<close>

definition page_store :: "nat \<Rightarrow> int \<Rightarrow> uint8 list \<Rightarrow> ('s, 'a::len word) effect \<Rightarrow> ('s, uint8 list) effect" where
  "page_store n off page m = ebind m (\<lambda>v s. rbind (wr_bytes page off (le_bytes n v)) (\<lambda>p. ret p s))"

fun io_in_loop :: "'s io_table \<Rightarrow> nat \<Rightarrow> uint16 \<Rightarrow> nat \<Rightarrow> int \<Rightarrow> uint8 list \<Rightarrow> 's
    \<Rightarrow> ('s, int \<times> uint8 list) effect" where
  "io_in_loop tbl sz port 0 off page s = ret (0, page) s"
| "io_in_loop tbl sz port (Suc n) off page s =
     ebind (if sz = 1 then page_store 1 off page (io_inb tbl port s)
            else if sz = 2 then page_store 2 off page (io_inw tbl port s)
            else if sz = 4 then page_store 4 off page (io_inl tbl port s)
            else assert_failed)
       (\<lambda>page'. io_in_loop tbl sz port n (off + int sz) page')"

definition handle_io :: "'s io_table \<Rightarrow> kvm_io \<Rightarrow> 's \<Rightarrow> ('s, int \<times> uint8 list) effect" where
  "handle_io tbl k s =
     (if io_out k then
        ebind (io_out_loop tbl (unat (io_size k)) (io_port k) (unat (io_count k))
                 (uint (data_offset k)) (run_page k) s)
          (\<lambda>r s. ret (r, run_page k) s)
      else io_in_loop tbl (unat (io_size k)) (io_port k) (unat (io_count k))
             (uint (data_offset k)) (run_page k) s)"

definition handle_mmio :: "('s \<Rightarrow> 'p \<Rightarrow> mmio_region) \<Rightarrow> ('p \<Rightarrow> 's mmio_ops) \<Rightarrow> 'p list
    \<Rightarrow> kvm_mmio \<Rightarrow> 's \<Rightarrow> ('s, int \<times> uint8 list) effect" where
  "handle_mmio rg ops ps k s =
     ebind (if is_write k
            then ebind (mmio_write rg ops ps (phys_addr k) (mm_len k) (mm_data k) s)
                   (\<lambda>r s. ret (r, mm_data k) s)
            else mmio_read rg ops ps (phys_addr k) (mm_len k) (mm_data k) s)
       (\<lambda>(r, d) s. if r \<noteq> 0 then assert_failed else ret (0, d) s)"

text \<open>
  One turn of the loop of \<^verbatim>\<open>sys_run_vcpu\<close>: the outcome of \<^verbatim>\<open>KVM_RUN\<close> is an error, or an exit with
  its reason. The result says whether the loop ends. The loop is the run over the outcomes
  the kernel delivers one after the other.
\<close>

datatype kvm_exit = Run_Error int | Exit_IO kvm_io | Exit_Debug | Exit_MMIO kvm_mmio | Exit_Other uint32

fun vcpu_turn :: "machine io_table \<Rightarrow> kvm_exit \<Rightarrow> machine \<Rightarrow> (machine, bool) effect" where
  "vcpu_turn tbl (Run_Error r) m = ret True m"
| "vcpu_turn tbl (Exit_IO k) m =
     ebind (handle_io tbl k m) (\<lambda>(r, d) m. if r \<noteq> 0 then assert_failed else ret False m)"
| "vcpu_turn tbl Exit_Debug m = assert_failed"
| "vcpu_turn tbl (Exit_MMIO k) m =
     ebind (handle_mmio machine_region machine_mmio_ops machine_mmio k m)
       (\<lambda>(r, d) m. if r \<noteq> 0 then assert_failed else ret False m)"
| "vcpu_turn tbl (Exit_Other n) m = assert_failed"

fun sys_run_vcpu :: "machine io_table \<Rightarrow> kvm_exit list \<Rightarrow> machine \<Rightarrow> (machine, bool) effect" where
  "sys_run_vcpu tbl [] m = ret False m"
| "sys_run_vcpu tbl (x # xs) m =
     ebind (vcpu_turn tbl x m) (\<lambda>bDone m. if bDone then ret True m else sys_run_vcpu tbl xs m)"

subsection \<open>The invariant of the machine\<close>

definition machine_wf :: "uint8 list \<Rightarrow> uint64 \<Rightarrow> machine \<Rightarrow> bool" where
  "machine_wf rom ram m \<longleftrightarrow> cmos_wf ram (m_cmos m) \<and> ps2pos_wf (m_ps2 m) \<and> kbd_wf (m_kbd m) \<and>
     fdc_wf (m_fdc m) \<and> dma_wf (m_dma m) \<and> lowmem_wf (m_mem m) \<and> qemu_wf (m_qemu m) \<and>
     vga_wf (m_vga m) \<and> rom_wf rom (m_rom m) \<and> ata_wf (m_ata m)"

interpretation machine_pci: pci_functions machine_pci_ops "\<lambda>x. rom_wf rom (fst x) \<and> ata_wf (snd x)" for rom
proof (rule pci_functions.intro)
  fix p
  have a: "pci_function (lift_pci_ops snd (\<lambda>a x. (fst x, a)) ata_pci_ops)
      (\<lambda>x :: vgarom \<times> atactl. rom_wf rom (fst x) \<and> ata_wf (snd x))"
    by (rule pci_function_lift [OF ata_cfg.pci_function_axioms]) auto
  have r: "pci_function (lift_pci_ops fst (\<lambda>r x. (r, snd x)) vgarom_pci_ops)
      (\<lambda>x :: vgarom \<times> atactl. rom_wf rom (fst x) \<and> ata_wf (snd x))"
    by (rule pci_function_lift [OF vgarom_cfg.pci_function_axioms]) auto
  show "pci_function (machine_pci_ops p) (\<lambda>x. rom_wf rom (fst x) \<and> ata_wf (snd x))"
    using a r by (simp add: machine_pci_ops_def)
qed

lemma x86_i8237_dma_init_nth:
  "x86_i8237_dma_init ! 0 = dma_hdl 0x00 (NOT 0x0F)" "x86_i8237_dma_init ! 1 = dma_hdl 0xC0 (NOT 0x1F)"
  "x86_i8237_dma_init ! 2 = dma_page_hdl"
  by (simp_all add: x86_i8237_dma_init_def)

lemma x86_port_init_nth:
  "x86_parallelport_init ! 0 = parport_hdl 0x378" "x86_parallelport_init ! 1 = parport_hdl 0x278"
  "x86_serialport_init ! 0 = serport_hdl 0x3F8" "x86_serialport_init ! 1 = serport_hdl 0x2F8"
  "x86_serialport_init ! 2 = serport_hdl 0x3E8" "x86_serialport_init ! 3 = serport_hdl 0x2E8"
  by (simp_all add: x86_parallelport_init_def x86_serialport_init_def)

lemma handler_of_device: "port_device (handler_of d) (machine_wf rom ram)"
proof -
  have unit_dev: "port_device (lift_handler (\<lambda>m. ()) (\<lambda>s m. m) h) (machine_wf rom ram)"
    if "port_device h (\<lambda>_. True)" for h :: "unit io_handler"
    by (rule port_device_lift [OF that]) simp_all
  show ?thesis
  proof (cases d)
    case IO_CMOS
    show ?thesis unfolding IO_CMOS handler_of.simps
      by (rule port_device_lift [OF cmos.port_device_axioms]) (auto simp: machine_wf_def)
  next
    case IO_PS2
    show ?thesis unfolding IO_PS2 handler_of.simps
      by (rule port_device_lift [OF ps2pos.port_device_axioms]) (auto simp: machine_wf_def)
  next
    case IO_DMA0
    show ?thesis unfolding IO_DMA0 handler_of.simps x86_i8237_dma_init_nth
      by (rule port_device_lift [OF dma_ctrl.port_device_axioms]) (auto simp: machine_wf_def)
  next
    case IO_DMA1
    show ?thesis unfolding IO_DMA1 handler_of.simps x86_i8237_dma_init_nth
      by (rule port_device_lift [OF dma_ctrl.port_device_axioms]) (auto simp: machine_wf_def)
  next
    case IO_Page
    show ?thesis unfolding IO_Page handler_of.simps x86_i8237_dma_init_nth
      by (rule port_device_lift [OF dma_page.port_device_axioms]) (auto simp: machine_wf_def)
  next
    case IO_PCI
    show ?thesis unfolding IO_PCI handler_of.simps
      by (rule port_device_lift [OF machine_pci.bridge])
         (auto simp: machine_wf_def get_pci_def put_pci_def)
  next
    case IO_QEMU
    show ?thesis unfolding IO_QEMU handler_of.simps
      by (rule port_device_lift [OF qemu.port_device_axioms]) (auto simp: machine_wf_def)
  next
    case IO_Kbd
    show ?thesis unfolding IO_Kbd handler_of.simps
      by (rule port_device_lift [OF kbd.port_device_axioms]) (auto simp: machine_wf_def)
  next
    case IO_VGA_C
    show ?thesis unfolding IO_VGA_C handler_of.simps
      by (rule port_device_lift [OF vga.port_device_axioms]) (auto simp: machine_wf_def)
  next
    case IO_VGA_D
    show ?thesis unfolding IO_VGA_D handler_of.simps
      by (rule port_device_lift [OF vga.port_device_axioms]) (auto simp: machine_wf_def)
  next
    case IO_Floppy
    show ?thesis unfolding IO_Floppy handler_of.simps
      by (rule port_device_lift [OF floppy.port_device_axioms])
         (auto simp: machine_wf_def get_fsys_def put_fsys_def fsys_wf_def)
  next
    case IO_ATA
    show ?thesis unfolding IO_ATA handler_of.simps
      by (rule port_device_lift [OF ata.port_device_axioms]) (auto simp: machine_wf_def)
  qed (simp_all only: handler_of.simps x86_port_init_nth, (rule unit_dev, rule biosdebug.port_device_axioms
        parport.port_device_axioms serport.port_device_axioms vgadbg.port_device_axioms
        vbe.port_device_axioms)+)
qed

interpretation machine_io: io_bus machine_table "machine_wf rom ram" for rom ram
  by (rule io_bus.intro) (auto simp: machine_table_def handler_of_device)

interpretation machine_mem: mmio_bus machine_mmio_ops machine_region "machine_wf rom ram" for rom ram
proof (rule mmio_bus.intro)
  fix p
  have v: "mmio_device (lift_ops m_vga (\<lambda>s m. m\<lparr>m_vga := s\<rparr>) vram_ops) (machine_wf rom ram)"
    by (rule mmio_device_lift [OF vram.mmio_device_axioms]) (auto simp: machine_wf_def)
  have r: "mmio_device (lift_ops m_rom (\<lambda>s m. m\<lparr>m_rom := s\<rparr>) vgarom_ops) (machine_wf rom ram)"
    by (rule mmio_device_lift [OF vgarom.mmio_device_axioms]) (auto simp: machine_wf_def)
  show "mmio_device (machine_mmio_ops p) (machine_wf rom ram)"
    using v r by (simp add: machine_mmio_ops_def)
qed

subsection \<open>Which device answers a port\<close>

fun dev_ports :: "io_dev \<Rightarrow> nat \<Rightarrow> bool" where
  "dev_ports IO_CMOS p \<longleftrightarrow> p mod 256 \<in> {0x70, 0x71}"
| "dev_ports IO_PS2 p \<longleftrightarrow> 0x90 \<le> p \<and> p < 0x98"
| "dev_ports IO_Debug p \<longleftrightarrow> p = 0x402"
| "dev_ports IO_DMA0 p \<longleftrightarrow> p < 0x10"
| "dev_ports IO_DMA1 p \<longleftrightarrow> 0xC0 \<le> p \<and> p < 0xE0"
| "dev_ports IO_Page p \<longleftrightarrow> 0x80 \<le> p \<and> p < 0x90"
| "dev_ports IO_PCI p \<longleftrightarrow> 0xCF8 \<le> p \<and> p < 0xD00"
| "dev_ports IO_QEMU p \<longleftrightarrow> 0x510 \<le> p \<and> p < 0x512"
| "dev_ports IO_Kbd p \<longleftrightarrow> 0x60 \<le> p \<and> p < 0x68"
| "dev_ports IO_LPT1 p \<longleftrightarrow> 0x378 \<le> p \<and> p < 0x37C"
| "dev_ports IO_LPT2 p \<longleftrightarrow> 0x278 \<le> p \<and> p < 0x27C"
| "dev_ports IO_COM1 p \<longleftrightarrow> 0x3F8 \<le> p \<and> p < 0x400"
| "dev_ports IO_COM2 p \<longleftrightarrow> 0x2F8 \<le> p \<and> p < 0x300"
| "dev_ports IO_COM3 p \<longleftrightarrow> 0x3E8 \<le> p \<and> p < 0x3F0"
| "dev_ports IO_COM4 p \<longleftrightarrow> 0x2E8 \<le> p \<and> p < 0x2F0"
| "dev_ports IO_VGA_C p \<longleftrightarrow> 0x3C0 \<le> p \<and> p < 0x3D0"
| "dev_ports IO_VGA_D p \<longleftrightarrow> 0x3D0 \<le> p \<and> p < 0x3E0"
| "dev_ports IO_VGADbg p \<longleftrightarrow> p = 0x500"
| "dev_ports IO_VBE p \<longleftrightarrow> 0x1CE \<le> p \<and> p < 0x1D0"
| "dev_ports IO_Floppy p \<longleftrightarrow> 0x3F0 \<le> p \<and> p < 0x3F8"
| "dev_ports IO_ATA p \<longleftrightarrow> (0x1F0 \<le> p \<and> p < 0x1F8) \<or> (0x3F0 \<le> p \<and> p < 0x3F8)"

lemma io_match_interval:
  assumes "io_mask h = NOT (mask k)" and "unat (base h) mod 2 ^ k = 0"
  shows "io_match p h \<longleftrightarrow> unat (base h) \<le> unat p \<and> unat p < unat (base h) + 2 ^ k"
  using decode_interval [OF assms(2), of p] by (simp add: io_match_def assms(1))

lemma cmos_match: "io_match p cmos_hdl \<longleftrightarrow> unat p mod 256 \<in> {0x70, 0x71}"
proof -
  have "p AND 0xFE = take_bit 8 p AND NOT (mask 1)"
  proof (rule bit_word_eqI)
    fix n assume "n < LENGTH(16)"
    then have "n \<in> set [0..<16]" by simp
    then show "bit (p AND 0xFE) n = bit (take_bit 8 p AND NOT (mask 1)) n"
      by (simp add: upt_rec bit_simps, elim disjE; simp add: bit_simps)
  qed
  moreover have "unat (take_bit 8 p) = unat p mod 256"
    by (simp only: unsigned_take_bit_eq) (simp add: take_bit_eq_mod)
  moreover have "unat (0x70 :: uint16) mod 2 ^ 1 = 0" by simp
  ultimately show ?thesis
    using decode_interval [of "0x70 :: uint16" 1 "take_bit 8 p"]
    by (auto simp: io_match_def cmos_hdl_def)
qed

lemma ata_match:
  "io_match p ata_hdl \<longleftrightarrow> (0x1F0 \<le> unat p \<and> unat p < 0x1F8) \<or> (0x3F0 \<le> unat p \<and> unat p < 0x3F8)"
proof -
  let ?x = "p AND NOT (mask 3)"
  have "p AND 0xFDF8 = ?x AND NOT 0x200"
  proof (rule bit_word_eqI)
    fix n assume "n < LENGTH(16)"
    then have "n \<in> set [0..<16]" by simp
    then show "bit (p AND 0xFDF8) n = bit (?x AND NOT 0x200) n"
      by (simp add: upt_rec bit_simps, elim disjE; simp add: bit_simps)
  qed
  moreover have "?x AND NOT 0x200 = 0x1F0 \<longleftrightarrow> ?x = 0x1F0 \<or> ?x = 0x3F0"
  proof
    assume a: "?x AND NOT 0x200 = 0x1F0"
    have "?x = (?x AND NOT 0x200) OR (?x AND 0x200)" by (rule bit_word_eqI) (auto simp: bit_simps)
    moreover have "?x AND 0x200 = of_bool (bit ?x 9) * 0x200" using and_exp_eq [of ?x 9] by simp
    ultimately show "?x = 0x1F0 \<or> ?x = 0x3F0" unfolding a by (cases "bit ?x 9") simp_all
  qed (elim disjE, simp_all)
  moreover have "unat (0x1F0 :: uint16) mod 2 ^ 3 = 0" "unat (0x3F0 :: uint16) mod 2 ^ 3 = 0" by simp_all
  ultimately show ?thesis
    using decode_interval [of "0x1F0 :: uint16" 3 p] decode_interval [of "0x3F0 :: uint16" 3 p]
    by (simp add: io_match_def ata_hdl_def)
qed

lemma handler_match: "io_match p (handler_of d) \<longleftrightarrow> dev_ports d (unat p)"
proof -
  note defs = mask_eq_exp_minus_1 ps2pos_hdl_def biosdebug_hdl_def dma_hdl_def dma_page_hdl_def
    pci_hdl_def qemu_hdl_def kbd_hdl_def parport_hdl_def serport_hdl_def vga_hdl_def
    vgadbg_hdl_def vbe_hdl_def floppy_hdl_def x86_i8237_dma_init_nth x86_port_init_nth
  have one: "unat p = n \<longleftrightarrow> n \<le> unat p \<and> unat p < n + 1" for n by auto
  show ?thesis
  proof (cases d)
    case IO_CMOS then show ?thesis by (simp add: cmos_match)
  next
    case IO_ATA then show ?thesis by (simp add: ata_match)
  next
    case IO_PS2 then show ?thesis by (simp, subst io_match_interval [where k = 3]) (simp_all add: defs)
  next
    case IO_Debug then show ?thesis by (simp, subst io_match_interval [where k = 0]) (auto simp: defs)
  next
    case IO_DMA0 then show ?thesis by (simp, subst io_match_interval [where k = 4]) (simp_all add: defs)
  next
    case IO_DMA1 then show ?thesis
      unfolding IO_DMA1 handler_of.simps x86_i8237_dma_init_nth
      by (simp, subst io_match_interval [where k = 5]) (simp_all add: defs)
  next
    case IO_Page then show ?thesis by (simp, subst io_match_interval [where k = 4]) (simp_all add: defs)
  next
    case IO_PCI then show ?thesis by (simp, subst io_match_interval [where k = 3]) (simp_all add: defs)
  next
    case IO_QEMU then show ?thesis by (simp, subst io_match_interval [where k = 1]) (simp_all add: defs)
  next
    case IO_Kbd then show ?thesis by (simp, subst io_match_interval [where k = 3]) (simp_all add: defs)
  next
    case IO_LPT1 then show ?thesis by (simp, subst io_match_interval [where k = 2]) (simp_all add: defs)
  next
    case IO_LPT2 then show ?thesis
      unfolding IO_LPT2 handler_of.simps x86_port_init_nth
      by (simp, subst io_match_interval [where k = 2]) (simp_all add: defs)
  next
    case IO_COM1 then show ?thesis by (simp, subst io_match_interval [where k = 3]) (simp_all add: defs)
  next
    case IO_COM2 then show ?thesis
      unfolding IO_COM2 handler_of.simps x86_port_init_nth
      by (simp, subst io_match_interval [where k = 3]) (simp_all add: defs)
  next
    case IO_COM3 then show ?thesis by (simp, subst io_match_interval [where k = 3]) (simp_all add: defs)
  next
    case IO_COM4 then show ?thesis by (simp, subst io_match_interval [where k = 3]) (simp_all add: defs)
  next
    case IO_VGA_C then show ?thesis by (simp, subst io_match_interval [where k = 4]) (simp_all add: defs)
  next
    case IO_VGA_D then show ?thesis by (simp, subst io_match_interval [where k = 4]) (simp_all add: defs)
  next
    case IO_VGADbg then show ?thesis by (simp, subst io_match_interval [where k = 0]) (auto simp: defs)
  next
    case IO_VBE then show ?thesis by (simp, subst io_match_interval [where k = 1]) (simp_all add: defs)
  next
    case IO_Floppy then show ?thesis by (simp, subst io_match_interval [where k = 3]) (simp_all add: defs)
  qed
qed

text \<open>The device that answers: the first in the table that claims the port.\<close>

definition port_owner :: "nat \<Rightarrow> io_dev option" where
  "port_owner p = List.find (\<lambda>d. dev_ports d p) machine_devs"

lemma lookup_machine: "lookup_handler machine_table p = map_option handler_of (port_owner (unat p))"
proof -
  have "lookup_handler (map handler_of ds) p =
      map_option handler_of (List.find (\<lambda>d. dev_ports d (unat p)) ds)" for ds
    by (induction ds) (simp_all add: handler_match)
  then show ?thesis by (simp only: machine_table_def port_owner_def)
qed

lemma page_offset: "256 * k \<le> q \<Longrightarrow> q < 256 * k + 256 \<Longrightarrow> q mod 256 = q - 256 * k" for q k :: nat
  by (metis add_less_cancel_left le_add_diff_inverse mod_less mod_mult_self4)

lemma not_cmos:
  assumes "256 * k + a \<le> q" and "q < 256 * k + b" and "b \<le> 256" and "b \<le> 0x70 \<or> 0x72 \<le> a"
  shows "\<not> dev_ports IO_CMOS q"
  using page_offset [of k q] assms by auto

lemma cmos_ports_alone:
  assumes c: "dev_ports IO_CMOS q" and d: "dev_ports e q"
  shows "e = IO_CMOS"
proof (rule ccontr)
  assume "e \<noteq> IO_CMOS"
  with d obtain k a b where "256 * k + a \<le> q" "q < 256 * k + b" "b \<le> 256" "b \<le> 0x70 \<or> 0x72 \<le> a"
  proof (cases e)
    case IO_PS2 with d that [of 0 144 152] show ?thesis by simp
  next
    case IO_Debug with d that [of 4 2 3] show ?thesis by simp
  next
    case IO_DMA0 with d that [of 0 0 16] show ?thesis by simp
  next
    case IO_DMA1 with d that [of 0 192 224] show ?thesis by simp
  next
    case IO_Page with d that [of 0 128 144] show ?thesis by simp
  next
    case IO_PCI with d that [of 12 248 256] show ?thesis by simp
  next
    case IO_QEMU with d that [of 5 16 18] show ?thesis by simp
  next
    case IO_Kbd with d that [of 0 96 104] show ?thesis by simp
  next
    case IO_LPT1 with d that [of 3 120 124] show ?thesis by simp
  next
    case IO_LPT2 with d that [of 2 120 124] show ?thesis by simp
  next
    case IO_COM1 with d that [of 3 248 256] show ?thesis by simp
  next
    case IO_COM2 with d that [of 2 248 256] show ?thesis by simp
  next
    case IO_COM3 with d that [of 3 232 240] show ?thesis by simp
  next
    case IO_COM4 with d that [of 2 232 240] show ?thesis by simp
  next
    case IO_VGA_C with d that [of 3 192 208] show ?thesis by simp
  next
    case IO_VGA_D with d that [of 3 208 224] show ?thesis by simp
  next
    case IO_VGADbg with d that [of 5 0 1] show ?thesis by simp
  next
    case IO_VBE with d that [of 1 206 208] show ?thesis by simp
  next
    case IO_Floppy with d that [of 3 240 248] show ?thesis by simp
  next
    case IO_ATA with d that [of 1 240 248] that [of 3 240 248] show ?thesis by auto
  qed simp
  from not_cmos [OF this] c show False ..
qed

lemma ports_overlap:
  assumes "dev_ports d q" and "dev_ports e q" and "d \<noteq> e"
  shows "d \<in> {IO_ATA, IO_Floppy} \<and> e \<in> {IO_ATA, IO_Floppy}"
proof -
  have "d \<noteq> IO_CMOS" "e \<noteq> IO_CMOS" using assms cmos_ports_alone by blast+
  with assms show ?thesis by (cases d; cases e; simp; linarith?)
qed

lemma port_owner_Some:
  "port_owner q = Some d \<longleftrightarrow> dev_ports d q \<and> \<not> (d = IO_ATA \<and> dev_ports IO_Floppy q)"
proof -
  have in_devs: "d \<in> set machine_devs" for d by (cases d) (simp_all add: machine_devs_def io_order_def)
  have first: "port_owner q = Some IO_ATA \<Longrightarrow> \<not> dev_ports IO_Floppy q"
    unfolding port_owner_def machine_devs_def io_order_def by (simp del: dev_ports.simps split: if_splits)
  have sound: "port_owner q = Some e \<Longrightarrow> dev_ports e q" for e
    by (auto simp: port_owner_def find_Some_iff)
  show ?thesis
  proof
    assume "port_owner q = Some d"
    with sound first show "dev_ports d q \<and> \<not> (d = IO_ATA \<and> dev_ports IO_Floppy q)" by blast
  next
    assume d: "dev_ports d q \<and> \<not> (d = IO_ATA \<and> dev_ports IO_Floppy q)"
    then have "port_owner q \<noteq> None" using in_devs by (auto simp: port_owner_def find_None_iff)
    then obtain e where e: "port_owner q = Some e" by blast
    with sound have "dev_ports e q" by blast
    with d e first ports_overlap [of d q e] have "e = d" by blast
    with e show "port_owner q = Some d" by simp
  qed
qed

text \<open>
  C11: port decoding of the whole machine. An access to a port is answered by the first
  registered device that claims it, which gives the map below: each port has at most one
  owner except \<open>0x3F0\<close> to \<open>0x3F7\<close>, claimed by the floppy and the ATA controller, which go to
  the floppy, and every port whose low byte is \<open>0x70\<close> or \<open>0x71\<close>, which goes to the CMOS.
\<close>

theorem machine_decode:
  "lookup_handler machine_table p = map_option handler_of (port_owner (unat p)) \<and>
   (\<forall>d. port_owner (unat p) = Some d \<longleftrightarrow>
      dev_ports d (unat p) \<and> \<not> (d = IO_ATA \<and> dev_ports IO_Floppy (unat p)))"
  by (intro conjI allI lookup_machine port_owner_Some)

end
