(* ===== verification/Viewer.thy ===== *)
theory Viewer
  imports Keyboard Vga_Registers Vga_Font "HOL-Library.Signed_Division"
begin

text \<open>
  The viewer, \<^verbatim>\<open>vga/viewer.c\<close>: the text and graphics renderers, the cursor, the translation of
  key symbols to scan codes, and one round of the loop of its thread. The surface
  SDL returns is a pitch in bytes and an array of pixels; the numbers SDL gives to keys are a
  parameter. The renderers read the VGA context and change pixels only; a renderer is
  therefore a function from the pixels to the pixels or a fault.
\<close>

subsection \<open>Loops over pixels\<close>

text \<open>A loop whose body changes the pixels, over the values its counter takes.\<close>

fun for_each :: "('a \<Rightarrow> 'p \<Rightarrow> fault + 'p) \<Rightarrow> 'a list \<Rightarrow> 'p \<Rightarrow> fault + 'p" where
  "for_each f [] p = Inr p"
| "for_each f (x # xs) p = rbind (f x p) (for_each f xs)"

definition put_pixel :: "int \<Rightarrow> uint32 \<Rightarrow> uint32 list \<Rightarrow> fault + uint32 list" where
  "put_pixel i v p = (if 0 \<le> i \<and> nat i < length p then Inr (p[nat i := v]) else Inl Wild_Access)"

lemma for_each_append: "for_each f (xs @ ys) p = rbind (for_each f xs p) (for_each f ys)"
  by (induction xs arbitrary: p) (auto simp: rbind_def split: sum.splits)

lemma for_each_map: "for_each f (map g xs) p = for_each (\<lambda>x. f (g x)) xs p"
  by (induction xs arbitrary: p) (auto simp: rbind_def split: sum.splits)

lemma for_each_cong:
  "(\<And>x p. x \<in> set xs \<Longrightarrow> f x p = g x p) \<Longrightarrow> for_each f xs p = for_each g xs p"
  by (induction xs arbitrary: p) (auto simp: rbind_def split: sum.splits)

lemma rbind_id: "rbind m (\<lambda>p. if (80 :: nat) = 128 then f p else Inr p) = m"
  by (cases m) simp_all

text \<open>A loop in a loop is one loop over the pairs.\<close>

lemma for_each_product:
  "for_each (\<lambda>x. for_each (f x) ys) xs p = for_each (\<lambda>(x, y). f x y) (List.product xs ys) p"
proof (induction xs arbitrary: p)
  case (Cons x xs)
  have "for_each (\<lambda>(x, y). f x y) (map (Pair x) ys) p = for_each (f x) ys p" for p
    by (simp add: for_each_map)
  moreover have "for_each (\<lambda>x. for_each (f x) ys) xs =
      for_each (\<lambda>(x, y). f x y) (List.product xs ys)"
    by (rule ext) (rule Cons.IH)
  ultimately show ?case by (simp add: for_each_append)
qed simp

text \<open>Writes to different pixels, all inside the surface.\<close>

lemma for_each_put:
  assumes "distinct xs" and "inj_on g (set xs)"
    and "\<And>x. x \<in> set xs \<Longrightarrow> 0 \<le> g x \<and> nat (g x) < length p"
  shows "\<exists>p'. for_each (\<lambda>x. put_pixel (g x) (v x)) xs p = Inr p' \<and> length p' = length p \<and>
    (\<forall>x \<in> set xs. p' ! nat (g x) = v x) \<and>
    (\<forall>i. (\<forall>x \<in> set xs. g x \<noteq> int i) \<longrightarrow> p' ! i = p ! i)"
  using assms
proof (induction xs arbitrary: p)
  case (Cons x xs)
  let ?p = "p[nat (g x) := v x]"
  have x: "0 \<le> g x" "nat (g x) < length p" using Cons.prems(3) [of x] by simp_all
  have "\<exists>p'. for_each (\<lambda>x. put_pixel (g x) (v x)) xs ?p = Inr p' \<and> length p' = length ?p \<and>
    (\<forall>x \<in> set xs. p' ! nat (g x) = v x) \<and>
    (\<forall>i. (\<forall>x \<in> set xs. g x \<noteq> int i) \<longrightarrow> p' ! i = ?p ! i)"
    by (rule Cons.IH) (use Cons.prems in \<open>auto simp: inj_on_def\<close>)
  then obtain p' where p': "for_each (\<lambda>x. put_pixel (g x) (v x)) xs ?p = Inr p'"
    "length p' = length ?p" "\<forall>x \<in> set xs. p' ! nat (g x) = v x"
    "\<And>i. \<forall>x \<in> set xs. g x \<noteq> int i \<Longrightarrow> p' ! i = ?p ! i" by blast
  have "\<forall>y \<in> set xs. g y \<noteq> int (nat (g x))"
    using Cons.prems(1,2) x by (auto simp: inj_on_def)
  then have "p' ! nat (g x) = v x" using p'(4) x by simp
  moreover have "p' ! i = p ! i" if "\<forall>y \<in> set (x # xs). g y \<noteq> int i" for i
    using that p'(4) [of i] x by (auto simp: nth_list_update)
  moreover have "for_each (\<lambda>x. put_pixel (g x) (v x)) (x # xs) p = Inr p'"
    using x p'(1) by (simp add: put_pixel_def [of "g x"])
  ultimately show ?case using p'(2,3) by (intro exI [of _ p'] conjI) simp_all
qed simp

lemma for_each_fault:
  assumes "a \<in> set xs" and "Q p" and "\<And>p. Q p \<Longrightarrow> f a p = Inl e"
    and "\<And>x p. x \<in> set xs \<Longrightarrow> Q p \<Longrightarrow> f x p = Inl e \<or> (\<exists>p'. f x p = Inr p' \<and> Q p')"
  shows "for_each f xs p = Inl e"
  using assms
proof (induction xs arbitrary: p)
  case (Cons x xs)
  from Cons.prems(4) [of x p] Cons.prems(2) consider "f x p = Inl e"
    | p' where "f x p = Inr p'" "Q p'" by auto
  then show ?case
  proof cases
    case 2
    show ?thesis
    proof (cases "a = x")
      case True
      with Cons.prems(2,3) show ?thesis by simp
    next
      case False
      have "for_each f xs p' = Inl e"
        by (rule Cons.IH) (use Cons.prems False 2 in auto)
      with 2 show ?thesis by simp
    qed
  qed simp
qed simp

subsection \<open>Colours and modes\<close>

definition isTextMode :: "vgactx \<Rightarrow> bool" where
  "isTextMode c \<longleftrightarrow> gcont_reg c ! 6 AND 1 = 0"

definition pel_at :: "vgactx \<Rightarrow> nat \<Rightarrow> fault + uint8" where
  "pel_at c i = (if i < length (pel c) then Inr (pel c ! i) else Inl Wild_Access)"

text \<open>The 32-bit colour of the palette entry whose first component has index \<open>col\<close>.\<close>

definition pel_colour :: "vgactx \<Rightarrow> nat \<Rightarrow> fault + uint32" where
  "pel_colour c col =
     rbind (pel_at c (col + 0)) (\<lambda>r. rbind (pel_at c (col + 1)) (\<lambda>g. rbind (pel_at c (col + 2)) (\<lambda>b.
       Inr (push_bit 18 (ucast r) OR push_bit 10 (ucast g) OR push_bit 2 (ucast b)))))"

definition palette_colour :: "vgactx \<Rightarrow> nat \<Rightarrow> uint32" where
  "palette_colour c k = push_bit 18 (ucast (pel c ! (3 * k))) OR
     push_bit 10 (ucast (pel c ! (3 * k + 1))) OR push_bit 2 (ucast (pel c ! (3 * k + 2)))"

lemma pel_colour_entry:
  "vga_wf c \<Longrightarrow> k < 256 \<Longrightarrow> pel_colour c (k * 3) = Inr (palette_colour c k)"
  by (simp add: pel_colour_def pel_at_def vga_wf_def palette_colour_def mult.commute)

subsection \<open>Text mode\<close>

definition font_row :: "uint8 \<Rightarrow> nat \<Rightarrow> fault + uint8" where
  "font_row ch y = (if unat ch < length font8x16 \<and> y < length (font8x16 ! unat ch)
     then Inr (font8x16 ! unat ch ! y) else Inl Wild_Access)"

text \<open>
  \<open>pitch\<close> is \<^verbatim>\<open>pScreen->pitch / 4\<close>. The product \<^verbatim>\<open>(sy*16) * pitch\<close> is computed on unsigned
  32-bit integers.
\<close>

definition drawGlyphAt :: "vgactx \<Rightarrow> uint32 \<Rightarrow> uint8 \<Rightarrow> uint8 \<Rightarrow> int \<Rightarrow> int \<Rightarrow> uint32 list
    \<Rightarrow> fault + uint32 list" where
  "drawGlyphAt c pitch ch attr sx sy pixels =
     (let pFB = uint (word_of_int (sy * 16) * pitch) + sx * 8 in
      rbind (pel_colour c (unat (attr AND 0x0F) * 3)) (\<lambda>fgcol.
      rbind (pel_colour c (unat (drop_bit 4 attr AND 0x0F) * 3)) (\<lambda>bgcol.
      for_each (\<lambda>y. for_each (\<lambda>x p.
          rbind (font_row ch y) (\<lambda>row.
            put_pixel (pFB + int y * uint pitch + int x)
              (if row AND drop_bit x 0x80 \<noteq> 0 then fgcol else bgcol) p))
        [0..<8]) [0..<16] pixels)))"

text \<open>\<^verbatim>\<open>/\<close> and \<^verbatim>\<open>%\<close> of C round towards zero: \<open>location\<close> may be negative.\<close>

definition drawCursor :: "vgactx \<Rightarrow> uint32 \<Rightarrow> uint32 list \<Rightarrow> fault + uint32 list" where
  "drawCursor c pitch pixels =
     (let r = (\<lambda>i. uint (crtc_reg c ! i));
          location = (r 0xE * 256 + r 0xF) - (r 0xC * 256 + r 0xD);
          sl_start = unat (crtc_reg c ! 0xA AND 0x1F);
          sl_end = unat (crtc_reg c ! 0xB AND 0x1F);
          cy = location sdiv 80; cx = location smod 80;
          pFB = uint (word_of_int (cy * 16) * pitch) + cx * 8 + uint (pitch * of_nat sl_start) in
      for_each (\<lambda>y. for_each (\<lambda>x.
          put_pixel (pFB + int (y - sl_start) * uint pitch + int x) 0xFFFFFF)
        [0..<8]) [sl_start..<sl_end] pixels)"

definition plane_at :: "vgactx \<Rightarrow> nat \<Rightarrow> nat \<Rightarrow> fault + uint8" where
  "plane_at c p i = (if i < length (pVRAM c ! p) then Inr (pVRAM c ! p ! i) else Inl Wild_Access)"

definition start_address :: "vgactx \<Rightarrow> uint32" where
  "start_address c = push_bit 8 (ucast (crtc_reg c ! 0xC)) OR ucast (crtc_reg c ! 0xD)"

text \<open>
  When the loops have ended, \<^verbatim>\<open>x\<close> is 80; the cursor is drawn only if it is 128.
\<close>

definition updateTextmode :: "vgactx \<Rightarrow> uint32 \<Rightarrow> uint32 list \<Rightarrow> fault + uint32 list" where
  "updateTextmode c pitch pixels =
     (let vram_off = start_address c * 2; x_end = 80 :: nat in
      rbind (for_each (\<lambda>y. for_each (\<lambda>x p.
          rbind (plane_at c 0 (unat (0x18000 + vram_off + of_nat ((y * 80 + x) * 2 + 0)))) (\<lambda>ch.
          rbind (plane_at c 0 (unat (0x18000 + vram_off + of_nat ((y * 80 + x) * 2 + 1)))) (\<lambda>attr.
          drawGlyphAt c pitch ch attr (int x) (int y) p)))
        [0..<x_end]) [0..<25] pixels)
      (\<lambda>p. if x_end = 128 then drawCursor c pitch p else Inr p))"

subsection \<open>Graphics mode\<close>

text \<open>
  The width and height computed from the CRTC registers are overwritten with 320 and 200, so
  the branch for other sizes is never taken. Each pixel is drawn as a square of four, in the
  order of the code, at a fixed distance of 640 pixels between rows.
\<close>

definition updateGraphics :: "vgactx \<Rightarrow> uint32 list \<Rightarrow> fault + uint32 list" where
  "updateGraphics c pixels =
     (let w = 320; h = 200; off = unat (start_address c) in
      if w = 320 \<and> h = 200 then
        for_each (\<lambda>y. for_each (\<lambda>x p.
            rbind (plane_at c (x mod 4) ((y * w + x) div 1 + off)) (\<lambda>ci.
            rbind (pel_colour c (unat ci * 3)) (\<lambda>col.
            for_each (\<lambda>(dy, dx). put_pixel ((int y * 2 + int dy) * 640 + (int x * 2 + int dx)) col)
              [(0 :: nat, 0 :: nat), (0, 1), (1, 0), (1, 1)] p)))
          [0..<w]) [0..<h] pixels
      else
        for_each (\<lambda>y. for_each (\<lambda>x p.
            rbind (plane_at c (x mod 4) ((y * w + x) div 1 + off)) (\<lambda>palndx.
            rbind (pel_colour c (unat palndx * 3)) (\<lambda>col. put_pixel (int y * 640 + int x) col p)))
          [0..<w]) [0..<h] pixels)"

subsection \<open>What the guest sees\<close>

definition start_nat :: "vgactx \<Rightarrow> nat" where
  "start_nat c = unat (crtc_reg c ! 0xC) * 256 + unat (crtc_reg c ! 0xD)"

lemma unat_start_address: "unat (start_address c) = start_nat c"
  unfolding start_address_def start_nat_def
  by (subst unat_push_or) (simp_all add: unat_ucast_8_32 unat_byte_less)

lemma start_nat_less: "start_nat c < 65536"
  using unat_byte [of "crtc_reg c ! 0xC"] unat_byte [of "crtc_reg c ! 0xD"]
  by (simp add: start_nat_def)

lemma text_index:
  assumes "k < 4000"
  shows "unat (0x18000 + start_address c * 2 + of_nat k) = 0x18000 + 2 * start_nat c + k"
proof -
  have "start_address c = of_nat (start_nat c)" by (simp add: unat_start_address [symmetric])
  then have "0x18000 + start_address c * 2 + of_nat k = of_nat (0x18000 + 2 * start_nat c + k)"
    by simp
  moreover have "unat (of_nat (0x18000 + 2 * start_nat c + k) :: uint32) = 0x18000 + 2 * start_nat c + k"
    unfolding unat_of_nat by (rule mod_less) (use assms start_nat_less [of c] in simp)
  ultimately show ?thesis by (simp only:)
qed

text \<open>The colour of the pixel in row \<open>ry\<close> and column \<open>rx\<close> of a character cell.\<close>

definition glyph_colour :: "vgactx \<Rightarrow> uint8 \<Rightarrow> uint8 \<Rightarrow> nat \<Rightarrow> nat \<Rightarrow> uint32" where
  "glyph_colour c ch attr ry rx =
     palette_colour c (if bit (font8x16 ! unat ch ! ry) (7 - rx) then unat attr mod 16
                       else unat attr div 16)"

lemma font_mask: "rx < 8 \<Longrightarrow> (row AND drop_bit rx 0x80 \<noteq> 0) = bit (row :: uint8) (7 - rx)"
proof -
  assume rx: "rx < 8"
  then have "rx \<in> set [0..<8]" by simp
  then have "drop_bit rx (0x80 :: uint8) = 2 ^ (7 - rx)"
    by (simp add: upt_rec, elim disjE; simp add: drop_bit_eq_div)
  moreover have "7 - rx < LENGTH(8)" by simp
  ultimately show ?thesis by (simp only: and_exp_eq) (simp del: len_num0 add: exp_eq_zero_iff)
qed

lemma attr_parts: "unat (attr AND 0x0F :: uint8) = unat attr mod 16"
  "unat (drop_bit 4 attr AND 0x0F :: uint8) = unat attr div 16"
proof -
  have m: "v AND 0x0F = take_bit 4 v" for v :: uint8
    by (simp add: take_bit_eq_mask mask_eq_exp_minus_1)
  show "unat (attr AND 0x0F) = unat attr mod 16"
    unfolding m by (simp only: unsigned_take_bit_eq) (simp add: take_bit_eq_mod)
  have "unat attr div 16 < 16" using unat_byte [of attr] by simp
  then show "unat (drop_bit 4 attr AND 0x0F) = unat attr div 16"
    unfolding m by (simp only: unsigned_take_bit_eq unsigned_drop_bit_eq)
      (simp add: take_bit_eq_mod drop_bit_eq_div)
qed

lemma uint_numeral_32: "uint (640 :: uint32) = 640"
  by simp

lemma drawGlyph_pixels:
  assumes c: "vga_wf c" and "sx < 80" and "sy < 25"
  shows "drawGlyphAt c 640 ch attr (int sx) (int sy) p =
    for_each (\<lambda>(ry, rx). put_pixel (int ((sy * 16 + ry) * 640 + (sx * 8 + rx)))
        (glyph_colour c ch attr ry rx)) (List.product [0..<16] [0..<8]) p"
proof -
  have "word_of_int (int sy * 16) * 640 = (of_nat (sy * 16 * 640) :: uint32)" by simp
  moreover have "uint (of_nat (sy * 16 * 640) :: uint32) = int (sy * 16 * 640)"
    unfolding unsigned_of_nat using assms(3) by (subst take_bit_nat_eq_self) simp_all
  ultimately have "uint (word_of_int (int sy * 16) * 640 :: uint32) = int (sy * 16 * 640)"
    by (simp only:)
  then have idx: "uint (word_of_int (int sy * 16) * 640 :: uint32) + int sx * 8 +
      int ry * uint (640 :: uint32) + int rx = int ((sy * 16 + ry) * 640 + (sx * 8 + rx))" for ry rx
    by (simp only: uint_numeral_32) (simp add: algebra_simps)
  have b: "unat attr mod 16 < 256" "unat attr div 16 < 256"
    using unat_byte [of attr] by (simp_all add: less_mult_imp_div_less)
  have cols: "pel_colour c (unat (attr AND 0x0F) * 3) = Inr (palette_colour c (unat attr mod 16))"
    "pel_colour c (unat (drop_bit 4 attr AND 0x0F) * 3) = Inr (palette_colour c (unat attr div 16))"
    unfolding attr_parts(2) unfolding attr_parts(1)
    by (rule pel_colour_entry [OF c b(1)]) (rule pel_colour_entry [OF c b(2)])
  show ?thesis
    unfolding drawGlyphAt_def Let_def cols rbind_simps for_each_product
  proof (rule for_each_cong)
    fix z q assume "z \<in> set (List.product [0..<16] [0..<8])"
    then obtain ry rx where z: "z = (ry, rx)" "ry < 16" "rx < 8" by auto
    then have "font_row ch ry = Inr (font8x16 ! unat ch ! ry)"
      using unat_byte [of ch] by (simp add: font_row_def font_size)
    with z show "(case z of (y, x) \<Rightarrow> \<lambda>p. rbind (font_row ch y) (\<lambda>row.
        put_pixel (uint (word_of_int (int sy * 16) * 640 :: uint32) + int sx * 8 +
            int y * uint (640 :: uint32) + int x)
          (if row AND drop_bit x 0x80 \<noteq> 0 then palette_colour c (unat attr mod 16)
           else palette_colour c (unat attr div 16)) p)) q =
      (case z of (ry, rx) \<Rightarrow> put_pixel (int ((sy * 16 + ry) * 640 + (sx * 8 + rx)))
        (glyph_colour c ch attr ry rx)) q"
      by (simp only: split_conv rbind_simps idx font_mask glyph_colour_def if_distrib)
  qed
qed

text \<open>The screen as pairs of a character cell and a pixel of it.\<close>

definition screen_cells :: "((nat \<times> nat) \<times> (nat \<times> nat)) list" where
  "screen_cells = List.product (List.product [0..<25] [0..<80]) (List.product [0..<16] [0..<8])"

definition cell_pixel :: "(nat \<times> nat) \<times> (nat \<times> nat) \<Rightarrow> int" where
  "cell_pixel z = int ((fst (fst z) * 16 + fst (snd z)) * 640 + (snd (fst z) * 8 + snd (snd z)))"

lemma screen_cells_set:
  "z \<in> set screen_cells \<longleftrightarrow> fst (fst z) < 25 \<and> snd (fst z) < 80 \<and> fst (snd z) < 16 \<and> snd (snd z) < 8"
  by (cases z) (auto simp: screen_cells_def)

lemma screen_cells_distinct: "distinct screen_cells"
  by (simp add: screen_cells_def distinct_product)

lemma cell_pixel_inj: "inj_on cell_pixel (set screen_cells)"
proof (rule inj_on_inverseI)
  fix z assume "z \<in> set screen_cells"
  moreover obtain y x ry rx where z: "z = ((y, x), (ry, rx))" by (metis surj_pair)
  ultimately have b: "x < 80" "ry < 16" "rx < 8" by (simp_all add: screen_cells_set)
  let ?n = "(y * 16 + ry) * 640 + (x * 8 + rx)"
  have "x * 8 + rx < 640" using b by simp
  then have "?n div 640 = y * 16 + ry" "?n mod 640 = x * 8 + rx"
    by (simp_all only: div_mult_self3 mod_mult_self3 mod_less div_less)
  moreover have "(y * 16 + ry) div 16 = y" "(y * 16 + ry) mod 16 = ry"
    "(x * 8 + rx) div 8 = x" "(x * 8 + rx) mod 8 = rx" using b by simp_all
  ultimately show "(\<lambda>i. ((nat i div 640 div 16, nat i mod 640 div 8),
      (nat i div 640 mod 16, nat i mod 640 mod 8))) (cell_pixel z) = z"
    unfolding z cell_pixel_def fst_conv snd_conv nat_int by simp
qed

text \<open>The colour the text mode gives to pixel \<open>X\<close> of line \<open>Y\<close>.\<close>

definition text_pixel :: "vgactx \<Rightarrow> nat \<Rightarrow> nat \<Rightarrow> uint32" where
  "text_pixel c X Y =
     (let a = 0x18000 + 2 * start_nat c + 2 * (Y div 16 * 80 + X div 8) in
      glyph_colour c (pVRAM c ! 0 ! a) (pVRAM c ! 0 ! (a + 1)) (Y mod 16) (X mod 8))"

lemma text_cell:
  assumes c: "vga_wf c" and x: "x < 80" and y: "y < 25" and s: "start_nat c \<le> 14384"
  shows "rbind (plane_at c 0 (unat (0x18000 + start_address c * 2 + of_nat ((y * 80 + x) * 2 + 0)))) (\<lambda>ch.
      rbind (plane_at c 0 (unat (0x18000 + start_address c * 2 + of_nat ((y * 80 + x) * 2 + 1)))) (\<lambda>attr.
      drawGlyphAt c 640 ch attr (int x) (int y) p)) =
    for_each (\<lambda>(ry, rx). put_pixel (cell_pixel ((y, x), (ry, rx)))
        (text_pixel c (x * 8 + rx) (y * 16 + ry))) (List.product [0..<16] [0..<8]) p"
proof -
  have k: "(y * 80 + x) * 2 + 1 < 4000" using x y by simp
  then have k0: "(y * 80 + x) * 2 + 0 < 4000" by simp
  moreover have "length (pVRAM c ! 0) = 0x20000" using c by (simp add: vga_wf_def)
  ultimately show ?thesis
    using k s unfolding drawGlyph_pixels [OF c x y] plane_at_def text_index [OF k] text_index [OF k0]
    by (simp, intro for_each_cong)
       (auto simp: cell_pixel_def text_pixel_def algebra_simps)
qed

lemma text_screen:
  assumes c: "vga_wf c" and s: "start_nat c \<le> 14384"
  shows "updateTextmode c 640 p =
    for_each (\<lambda>z. put_pixel (cell_pixel z)
      (text_pixel c (snd (fst z) * 8 + snd (snd z)) (fst (fst z) * 16 + fst (snd z)))) screen_cells p"
proof -
  have "updateTextmode c 640 p = for_each (\<lambda>y. for_each (\<lambda>x p.
      for_each (\<lambda>(ry, rx). put_pixel (cell_pixel ((y, x), (ry, rx)))
        (text_pixel c (x * 8 + rx) (y * 16 + ry))) (List.product [0..<16] [0..<8]) p) [0..<80]) [0..<25] p"
    unfolding updateTextmode_def Let_def rbind_id
    by (intro for_each_cong) (simp only: text_cell [OF c _ _ s] set_upt atLeastLessThan_iff)
  also have "\<dots> = for_each (\<lambda>yx. for_each (\<lambda>r. put_pixel (cell_pixel (yx, r))
        (text_pixel c (snd yx * 8 + snd r) (fst yx * 16 + fst r))) (List.product [0..<16] [0..<8]))
      (List.product [0..<25] [0..<80]) p"
    unfolding for_each_product [of _ "[0..<80]" "[0..<25]"]
    by (rule for_each_cong) (auto intro!: for_each_cong)
  also have "\<dots> = for_each (\<lambda>z. put_pixel (cell_pixel z)
      (text_pixel c (snd (fst z) * 8 + snd (snd z)) (fst (fst z) * 16 + fst (snd z)))) screen_cells p"
    unfolding for_each_product screen_cells_def by (rule for_each_cong) (simp add: split_def)
  finally show ?thesis .
qed

text \<open>The only fault of the renderers is an access outside an array.\<close>

definition only_wild :: "fault + 'a \<Rightarrow> bool" where
  "only_wild m \<longleftrightarrow> (\<forall>e. m = Inl e \<longrightarrow> e = Wild_Access)"

lemma only_wild_simps [simp]:
  "only_wild (Inr x)" "only_wild (Inl Wild_Access)" "only_wild (put_pixel i v p)"
  "only_wild (plane_at c q j)" "only_wild (font_row ch y)" "only_wild (pel_at c j)"
  by (simp_all add: only_wild_def put_pixel_def plane_at_def font_row_def pel_at_def)

lemma only_wild_rbind: "only_wild m \<Longrightarrow> (\<And>x. only_wild (f x)) \<Longrightarrow> only_wild (rbind m f)"
  by (cases m) (simp_all add: only_wild_def)

lemma only_wild_for_each: "(\<And>x p. only_wild (f x p)) \<Longrightarrow> only_wild (for_each f xs p)"
  by (induction xs arbitrary: p) (simp_all add: only_wild_rbind)

lemma only_wild_draw: "only_wild (drawGlyphAt c pitch ch attr sx sy p)"
  by (simp add: drawGlyphAt_def Let_def pel_colour_def only_wild_rbind only_wild_for_each)

lemma for_each_wild:
  assumes "a \<in> set xs" and "\<And>p. f a p = Inl Wild_Access" and "\<And>x p. only_wild (f x p)"
  shows "for_each f xs p = Inl Wild_Access"
proof (rule for_each_fault [OF assms(1), of "\<lambda>_. True"])
  fix x p
  show "f x p = Inl Wild_Access \<or> (\<exists>p'. f x p = Inr p' \<and> True)"
    using assms(3) [of x p] by (cases "f x p") (simp_all add: only_wild_def)
qed (simp_all add: assms(2))

lemma text_runs:
  assumes "vga_wf c" and "length p = 640 * 400" and s: "start_nat c \<le> 14384"
  obtains p' where "updateTextmode c 640 p = Inr p'" "length p' = length p"
    "\<And>z. z \<in> set screen_cells \<Longrightarrow> p' ! nat (cell_pixel z) =
       text_pixel c (snd (fst z) * 8 + snd (snd z)) (fst (fst z) * 16 + fst (snd z))"
proof -
  let ?v = "\<lambda>z. text_pixel c (snd (fst z) * 8 + snd (snd z)) (fst (fst z) * 16 + fst (snd z))"
  have "0 \<le> cell_pixel z \<and> nat (cell_pixel z) < length p" if "z \<in> set screen_cells" for z
    using that assms(2)
    by (simp only: screen_cells_set cell_pixel_def nat_int of_nat_0_le_iff) simp
  then obtain p' where "for_each (\<lambda>z. put_pixel (cell_pixel z) (?v z)) screen_cells p = Inr p'"
    "length p' = length p" "\<forall>z \<in> set screen_cells. p' ! nat (cell_pixel z) = ?v z"
    using for_each_put [OF screen_cells_distinct cell_pixel_inj, of p ?v] by blast
  then show ?thesis by (intro that [of p']) (simp_all add: text_screen [OF assms(1) s])
qed

text \<open>The pixels of a frame by their coordinates.\<close>

lemma text_frame:
  assumes "vga_wf c" and "length p = 640 * 400"
    and "256 * unat (crtc_reg c ! 0xC) + unat (crtc_reg c ! 0xD) \<le> 14384"
  shows "\<exists>p'. updateTextmode c 640 p = Inr p' \<and> length p' = length p \<and>
    (\<forall>X < 640. \<forall>Y < 400. p' ! (Y * 640 + X) = text_pixel c X Y)"
proof -
  let ?v = "\<lambda>z. text_pixel c (snd (fst z) * 8 + snd (snd z)) (fst (fst z) * 16 + fst (snd z))"
  have s: "start_nat c \<le> 14384" using assms(3) by (simp add: start_nat_def mult.commute)
  obtain p' where p': "updateTextmode c 640 p = Inr p'" "length p' = length p"
    "\<And>z. z \<in> set screen_cells \<Longrightarrow> p' ! nat (cell_pixel z) = ?v z"
    using text_runs [OF assms(1,2) s] by blast
  have "p' ! (Y * 640 + X) = text_pixel c X Y" if "X < 640" "Y < 400" for X Y
  proof -
    let ?z = "((Y div 16, X div 8), (Y mod 16, X mod 8))"
    have "?z \<in> set screen_cells" using that by (simp add: screen_cells_set less_mult_imp_div_less)
    then have "p' ! nat (cell_pixel ?z) = ?v ?z" by (rule p'(3))
    moreover have "nat (cell_pixel ?z) = Y * 640 + X"
      by (simp only: cell_pixel_def nat_int fst_conv snd_conv div_mult_mod_eq)
    ultimately show ?thesis by simp
  qed
  with p' show ?thesis by auto
qed

text \<open>
  With a display start address above 14384, which the guest can set with two register
  writes, the renderer reads behind the end of plane 0 before the screen is complete.
\<close>

lemma text_overrun:
  assumes "vga_wf c" and "14384 < start_nat c"
  shows "updateTextmode c pitch p = Inl Wild_Access"
proof -
  let ?rd = "\<lambda>y x. plane_at c 0 (unat (0x18000 + start_address c * 2 + of_nat ((y * 80 + x) * 2 + 0)))"
  let ?rda = "\<lambda>y x. plane_at c 0 (unat (0x18000 + start_address c * 2 + of_nat ((y * 80 + x) * 2 + 1)))"
  let ?f = "\<lambda>y x p. rbind (?rd y x) (\<lambda>ch. rbind (?rda y x) (\<lambda>attr.
      drawGlyphAt c pitch ch attr (int x) (int y) p))"
  have wild: "only_wild (?f y x p)" for y x p
    by (intro only_wild_rbind only_wild_simps only_wild_draw)
  have i: "unat (0x18000 + start_address c * 2 + of_nat ((24 * 80 + 79) * 2 + 1)) =
      0x18000 + 2 * start_nat c + ((24 * 80 + 79) * 2 + 1)" by (rule text_index) simp
  have "length (pVRAM c ! 0) = 0x20000" using assms(1) by (simp add: vga_wf_def)
  then have "?rda 24 79 = Inl Wild_Access"
    using assms(2) unfolding plane_at_def i by simp
  moreover have "only_wild (?rd 24 79)" by simp
  ultimately have "?f 24 79 p = Inl Wild_Access" for p
    by (cases "?rd 24 79") (simp_all add: only_wild_def)
  then have row: "for_each (?f 24) [0..<80] p = Inl Wild_Access" for p
    by (intro for_each_wild [of 79]) (simp_all only: wild, simp)
  have "for_each (\<lambda>y. for_each (?f y) [0..<80]) [0..<25] p = Inl Wild_Access"
    by (rule for_each_wild [where a = 24], simp, rule row, rule only_wild_for_each, rule wild)
  then show ?thesis by (simp add: updateTextmode_def Let_def)
qed

text \<open>
  C15: the text screen. With the VGA registers and memory in any state the guest can reach
  and a surface of 640 by 400 pixels: when the display start address is at most 14384, the text
  renderer stays inside video memory, the font, the palette and the surface, and every
  pixel gets the foreground or the background colour of the attribute of its character
  cell, as the row of the glyph of the character in that cell says; above 14384, the frame reads
  past the end of plane 0.
\<close>

theorem viewer_text_screen:
  assumes "vga_wf c" and "length p = 640 * 400"
  shows "if 256 * unat (crtc_reg c ! 0xC) + unat (crtc_reg c ! 0xD) \<le> 14384
    then \<exists>p'. updateTextmode c 640 p = Inr p' \<and> length p' = length p \<and>
      (\<forall>X < 640. \<forall>Y < 400. p' ! (Y * 640 + X) = text_pixel c X Y)
    else updateTextmode c 640 p = Inl Wild_Access"
  using text_frame [OF assms] text_overrun [OF assms(1), of 640 p]
  by (simp add: start_nat_def mult.commute not_le)

theorem viewer_text_screen_witness:
  "\<exists>p'. updateTextmode (vgactx_init planes_zero) 640 (replicate 256000 7) = Inr p' \<and>
    p' ! 0 = text_pixel (vgactx_init planes_zero) 0 0"
  using viewer_text_screen [OF vga_wf_zero, of "replicate 256000 7"]
  by (simp add: vgactx_init_def) (metis add_0 mult_0 zero_less_numeral)

subsection \<open>The graphics screen\<close>

text \<open>The colour the graphics mode gives to pixel \<open>X\<close> of line \<open>Y\<close>.\<close>

definition graphics_pixel :: "vgactx \<Rightarrow> nat \<Rightarrow> nat \<Rightarrow> uint32" where
  "graphics_pixel c X Y = palette_colour c (unat (pVRAM c ! (X div 2 mod 4) !
     (Y div 2 * 320 + X div 2 + start_nat c)))"

definition quad :: "(nat \<times> nat) list" where
  "quad = [(0, 0), (0, 1), (1, 0), (1, 1)]"

definition quad_cells :: "((nat \<times> nat) \<times> (nat \<times> nat)) list" where
  "quad_cells = List.product (List.product [0..<200] [0..<320]) quad"

definition quad_pixel :: "(nat \<times> nat) \<times> (nat \<times> nat) \<Rightarrow> int" where
  "quad_pixel z = int ((fst (fst z) * 2 + fst (snd z)) * 640 + (snd (fst z) * 2 + snd (snd z)))"

lemma quad_set: "(a, b) \<in> set quad \<longleftrightarrow> a < 2 \<and> b < 2"
  by (auto simp: quad_def)

lemma quad_cells_set:
  "z \<in> set quad_cells \<longleftrightarrow> fst (fst z) < 200 \<and> snd (fst z) < 320 \<and> fst (snd z) < 2 \<and> snd (snd z) < 2"
  by (cases z) (auto simp: quad_cells_def quad_set)

lemma quad_cells_distinct: "distinct quad_cells"
  by (simp add: quad_cells_def distinct_product quad_def)

lemma quad_pixel_inj: "inj_on quad_pixel (set quad_cells)"
proof (rule inj_on_inverseI)
  fix z assume "z \<in> set quad_cells"
  moreover obtain y x ry rx where z: "z = ((y, x), (ry, rx))" by (metis surj_pair)
  ultimately have b: "x < 320" "ry < 2" "rx < 2" by (simp_all add: quad_cells_set)
  let ?n = "(y * 2 + ry) * 640 + (x * 2 + rx)"
  have "x * 2 + rx < 640" using b by simp
  then have "?n div 640 = y * 2 + ry" "?n mod 640 = x * 2 + rx"
    by (simp_all only: div_mult_self3 mod_mult_self3 mod_less div_less)
  moreover have "(y * 2 + ry) div 2 = y" "(y * 2 + ry) mod 2 = ry"
    "(x * 2 + rx) div 2 = x" "(x * 2 + rx) mod 2 = rx" using b by simp_all
  ultimately show "(\<lambda>i. ((nat i div 640 div 2, nat i mod 640 div 2),
      (nat i div 640 mod 2, nat i mod 640 mod 2))) (quad_pixel z) = z"
    unfolding z quad_pixel_def fst_conv snd_conv nat_int by simp
qed

lemma graphics_cell:
  assumes c: "vga_wf c" and x: "x < 320" and y: "y < 200"
  shows "rbind (plane_at c (x mod 4) ((y * 320 + x) div 1 + unat (start_address c))) (\<lambda>ci.
      rbind (pel_colour c (unat ci * 3)) (\<lambda>col.
      for_each (\<lambda>(dy, dx). put_pixel ((int y * 2 + int dy) * 640 + (int x * 2 + int dx)) col)
        [(0, 0), (0, 1), (1, 0), (1, 1)] p)) =
    for_each (\<lambda>r. put_pixel (quad_pixel ((y, x), r))
      (graphics_pixel c (x * 2 + snd r) (y * 2 + fst r))) quad p"
proof -
  have "x mod 4 < 6" using mod_less_divisor [of 4 x] by linarith
  then have "length (pVRAM c ! (x mod 4)) = 0x20000" using c by (simp add: vga_wf_def)
  moreover have "y * 320 + x + start_nat c < 0x20000" using x y start_nat_less [of c] by simp
  ultimately have rd: "plane_at c (x mod 4) ((y * 320 + x) div 1 + unat (start_address c)) =
      Inr (pVRAM c ! (x mod 4) ! (y * 320 + x + start_nat c))"
    by (simp add: plane_at_def unat_start_address)
  show ?thesis
    unfolding rd rbind_simps pel_colour_entry [OF c unat_byte] quad_def [symmetric]
  proof (rule for_each_cong)
    fix r q assume "r \<in> set quad"
    moreover obtain a b where r: "r = (a, b)" by (metis surj_pair)
    ultimately have "a < 2" "b < 2" by (simp_all add: quad_set)
    then have "(x * 2 + b) div 2 = x" "(y * 2 + a) div 2 = y" by simp_all
    with r show "(case r of (dy, dx) \<Rightarrow>
        put_pixel ((int y * 2 + int dy) * 640 + (int x * 2 + int dx))
          (palette_colour c (unat (pVRAM c ! (x mod 4) ! (y * 320 + x + start_nat c))))) q =
      put_pixel (quad_pixel ((y, x), r)) (graphics_pixel c (x * 2 + snd r) (y * 2 + fst r)) q"
      by (simp add: quad_pixel_def graphics_pixel_def)
  qed
qed

lemma graphics_screen:
  assumes c: "vga_wf c"
  shows "updateGraphics c p = for_each (\<lambda>z. put_pixel (quad_pixel z)
      (graphics_pixel c (snd (fst z) * 2 + snd (snd z)) (fst (fst z) * 2 + fst (snd z)))) quad_cells p"
proof -
  have "updateGraphics c p = for_each (\<lambda>y. for_each (\<lambda>x.
      for_each (\<lambda>r. put_pixel (quad_pixel ((y, x), r))
        (graphics_pixel c (x * 2 + snd r) (y * 2 + fst r))) quad) [0..<320]) [0..<200] p"
    unfolding updateGraphics_def Let_def simp_thms if_True
    by (intro for_each_cong) (simp only: graphics_cell [OF c] set_upt atLeastLessThan_iff)
  also have "\<dots> = for_each (\<lambda>yx. for_each (\<lambda>r. put_pixel (quad_pixel (yx, r))
        (graphics_pixel c (snd yx * 2 + snd r) (fst yx * 2 + fst r))) quad)
      (List.product [0..<200] [0..<320]) p"
    unfolding for_each_product [of _ "[0..<320]" "[0..<200]"]
    by (rule for_each_cong) (auto intro!: for_each_cong)
  also have "\<dots> = for_each (\<lambda>z. put_pixel (quad_pixel z)
      (graphics_pixel c (snd (fst z) * 2 + snd (snd z)) (fst (fst z) * 2 + fst (snd z)))) quad_cells p"
    unfolding for_each_product quad_cells_def by (rule for_each_cong) (simp add: split_def)
  finally show ?thesis .
qed

lemma graphics_runs:
  assumes "vga_wf c" and "length p = 640 * 400"
  obtains p' where "updateGraphics c p = Inr p'" "length p' = length p"
    "\<And>z. z \<in> set quad_cells \<Longrightarrow> p' ! nat (quad_pixel z) =
       graphics_pixel c (snd (fst z) * 2 + snd (snd z)) (fst (fst z) * 2 + fst (snd z))"
proof -
  let ?v = "\<lambda>z. graphics_pixel c (snd (fst z) * 2 + snd (snd z)) (fst (fst z) * 2 + fst (snd z))"
  have "0 \<le> quad_pixel z \<and> nat (quad_pixel z) < length p" if "z \<in> set quad_cells" for z
    using that assms(2)
    by (simp only: quad_cells_set quad_pixel_def nat_int of_nat_0_le_iff) simp
  then obtain p' where "for_each (\<lambda>z. put_pixel (quad_pixel z) (?v z)) quad_cells p = Inr p'"
    "length p' = length p" "\<forall>z \<in> set quad_cells. p' ! nat (quad_pixel z) = ?v z"
    using for_each_put [OF quad_cells_distinct quad_pixel_inj, of p ?v] by blast
  then show ?thesis by (intro that [of p']) (simp_all add: graphics_screen [OF assms(1)])
qed

text \<open>
  C37: the graphics screen. With the VGA registers and memory in any state the guest can reach
  and a surface of 640 by 400 pixels, the graphics renderer stays inside video memory, the
  palette and the surface whatever the display start address, and shows 320 by 200 pixels,
  each as a square of four: the colour is the palette entry named by the byte at the pixel's
  number, counted from the start address, in the plane given by the column modulo 4.
\<close>

theorem viewer_graphics_screen:
  assumes "vga_wf c" and "length p = 640 * 400"
  shows "\<exists>p'. updateGraphics c p = Inr p' \<and> length p' = length p \<and>
    (\<forall>X < 640. \<forall>Y < 400. p' ! (Y * 640 + X) = graphics_pixel c X Y)"
proof -
  let ?v = "\<lambda>z. graphics_pixel c (snd (fst z) * 2 + snd (snd z)) (fst (fst z) * 2 + fst (snd z))"
  obtain p' where p': "updateGraphics c p = Inr p'" "length p' = length p"
    "\<And>z. z \<in> set quad_cells \<Longrightarrow> p' ! nat (quad_pixel z) = ?v z"
    using graphics_runs [OF assms] by blast
  have "p' ! (Y * 640 + X) = graphics_pixel c X Y" if "X < 640" "Y < 400" for X Y
  proof -
    let ?z = "((Y div 2, X div 2), (Y mod 2, X mod 2))"
    have "?z \<in> set quad_cells" using that by (simp add: quad_cells_set less_mult_imp_div_less)
    then have "p' ! nat (quad_pixel ?z) = ?v ?z" by (rule p'(3))
    moreover have "nat (quad_pixel ?z) = Y * 640 + X"
      by (simp only: quad_pixel_def nat_int fst_conv snd_conv div_mult_mod_eq)
    ultimately show ?thesis by simp
  qed
  with p' show ?thesis by auto
qed

theorem viewer_graphics_screen_witness:
  "\<exists>p'. updateGraphics (vgactx_init planes_zero) (replicate 256000 7) = Inr p' \<and>
    p' ! 641 = graphics_pixel (vgactx_init planes_zero) 1 1"
proof -
  obtain p' where "updateGraphics (vgactx_init planes_zero) (replicate 256000 7) = Inr p'"
    and px: "\<forall>X < 640. \<forall>Y < 400. p' ! (Y * 640 + X) = graphics_pixel (vgactx_init planes_zero) X Y"
    using viewer_graphics_screen [OF vga_wf_zero, of "replicate 256000 7"] by auto
  moreover have "p' ! (1 * 640 + 1) = graphics_pixel (vgactx_init planes_zero) 1 1"
    by (rule px [rule_format]) simp_all
  ultimately show ?thesis by simp
qed

end
