(* ===== verification/Viewer_Input.thy ===== *)
theory Viewer_Input
  imports Viewer
begin

text \<open>
  The input side of \<^verbatim>\<open>vga/viewer.c\<close>: the table of key symbols and scan codes, its search, and one
  round of the loop of the viewer's thread, which draws a frame and hands the pending
  key events to the keyboard controller. The numbers behind SDL's key symbols are the
  argument \<open>code\<close>; what the code relies on is that they are distinct and not 0, the mark of
  the end of the table. \<^verbatim>\<open>SDL_PollEvent\<close> is the list of the events it delivers in the round.
\<close>

subsection \<open>The key table\<close>

datatype sdl_key =
    SDLK_1 | SDLK_2 | SDLK_3 | SDLK_4 | SDLK_5 | SDLK_6 | SDLK_7 | SDLK_8 | SDLK_9 | SDLK_0 |
    SDLK_a | SDLK_b | SDLK_c | SDLK_d | SDLK_e | SDLK_f | SDLK_g | SDLK_h | SDLK_i | SDLK_j |
    SDLK_k | SDLK_l | SDLK_m | SDLK_n | SDLK_o | SDLK_p | SDLK_q | SDLK_r | SDLK_s | SDLK_t |
    SDLK_u | SDLK_v | SDLK_w | SDLK_x | SDLK_y | SDLK_z | SDLK_F1 | SDLK_F2 | SDLK_F3 |
    SDLK_F4 | SDLK_F5 | SDLK_F6 | SDLK_F7 | SDLK_F8 | SDLK_F9 | SDLK_F10 | SDLK_F11 |
    SDLK_F12 | SDLK_RETURN | SDLK_SPACE | SDLK_LALT | SDLK_LSHIFT | SDLK_LCTRL | SDLK_ESCAPE |
    SDLK_TAB | SDLK_BACKSPACE | SDLK_DOWN | SDLK_UP | SDLK_LEFT | SDLK_RIGHT | SDLK_COMMA |
    SDLK_PERIOD | SDLK_SEMICOLON

definition kssc_keys :: "(sdl_key \<times> uint8) list" where
  "kssc_keys =
    [(SDLK_1, 0x02), (SDLK_2, 0x03), (SDLK_3, 0x04), (SDLK_4, 0x05), (SDLK_5, 0x06),
     (SDLK_6, 0x07), (SDLK_7, 0x08), (SDLK_8, 0x09), (SDLK_9, 0x0A), (SDLK_0, 0x0B),
     (SDLK_a, 0x1E), (SDLK_b, 0x30), (SDLK_c, 0x2E), (SDLK_d, 0x20), (SDLK_e, 0x12),
     (SDLK_f, 0x21), (SDLK_g, 0x22), (SDLK_h, 0x23), (SDLK_i, 0x17), (SDLK_j, 0x24),
     (SDLK_k, 0x25), (SDLK_l, 0x26), (SDLK_m, 0x32), (SDLK_n, 0x31), (SDLK_o, 0x18),
     (SDLK_p, 0x19), (SDLK_q, 0x10), (SDLK_r, 0x13), (SDLK_s, 0x1F), (SDLK_t, 0x14),
     (SDLK_u, 0x16), (SDLK_v, 0x2F), (SDLK_w, 0x11), (SDLK_x, 0x2D), (SDLK_y, 0x15),
     (SDLK_z, 0x2C), (SDLK_F1, 0x3B), (SDLK_F2, 0x3C), (SDLK_F3, 0x3D), (SDLK_F4, 0x3E),
     (SDLK_F5, 0x3F), (SDLK_F6, 0x40), (SDLK_F7, 0x41), (SDLK_F8, 0x42), (SDLK_F9, 0x43),
     (SDLK_F10, 0x44), (SDLK_F11, 0x45), (SDLK_F12, 0x46), (SDLK_RETURN, 0x1C),
     (SDLK_SPACE, 0x39), (SDLK_LALT, 0x38), (SDLK_LSHIFT, 0x2A), (SDLK_LCTRL, 0x1D),
     (SDLK_ESCAPE, 0x01), (SDLK_TAB, 0x0F), (SDLK_BACKSPACE, 0x0E), (SDLK_DOWN, 0x50),
     (SDLK_UP, 0x48), (SDLK_LEFT, 0x4B), (SDLK_RIGHT, 0x4D), (SDLK_COMMA, 0x33),
     (SDLK_PERIOD, 0x34), (SDLK_SEMICOLON, 0x27)]"

text \<open>The array \<^verbatim>\<open>kssc\<close>, for the numbers SDL gives to the keys.\<close>

definition kssc :: "(sdl_key \<Rightarrow> int) \<Rightarrow> (int \<times> uint8) list" where
  "kssc code = map (\<lambda>(k, sc). (code k, sc)) kssc_keys @ [(0, 0)]"

text \<open>The loop of \<^verbatim>\<open>keysym_to_scancode\<close>, from index \<open>i\<close> on; \<open>None\<close> is the result -1.\<close>

function kssc_scan :: "(int \<times> uint8) list \<Rightarrow> int \<Rightarrow> nat \<Rightarrow> fault + uint8 option" where
  "kssc_scan tbl key i =
     (if i < length tbl then
        (if fst (tbl ! i) \<noteq> 0 then
           (if fst (tbl ! i) = key then Inr (Some (snd (tbl ! i))) else kssc_scan tbl key (i + 1))
         else Inr None)
      else Inl Wild_Access)"
  by pat_completeness auto
termination by (relation "measure (\<lambda>(tbl, key, i). length tbl - i)") auto

declare kssc_scan.simps [simp del]

definition keysym_to_scancode :: "(sdl_key \<Rightarrow> int) \<Rightarrow> int \<Rightarrow> fault + uint8 option" where
  "keysym_to_scancode code key = kssc_scan (kssc code) key 0"

lemma kssc_scan_Cons: "kssc_scan (x # tbl) key (Suc i) = kssc_scan tbl key i"
proof (induction tbl key i rule: kssc_scan.induct)
  case (1 tbl key i)
  then show ?case by (subst (1 2) kssc_scan.simps) simp
qed

lemma kssc_scan_map:
  "0 \<notin> code ` fst ` set ks \<Longrightarrow>
   kssc_scan (map (\<lambda>(k, sc). (code k, sc)) ks @ [(0, 0)]) key 0 =
     Inr (map_of (map (\<lambda>(k, sc). (code k, sc)) ks) key)"
proof (induction ks)
  case Nil
  then show ?case by (subst kssc_scan.simps) simp
next
  case (Cons x ks)
  then show ?case by (subst kssc_scan.simps) (auto simp: kssc_scan_Cons split: prod.splits)
qed

text \<open>What the code relies on: the numbers of the listed keys are distinct and not 0.\<close>

definition key_numbers_ok :: "(sdl_key \<Rightarrow> int) \<Rightarrow> bool" where
  "key_numbers_ok code \<longleftrightarrow> distinct (map (\<lambda>(k, sc). code k) kssc_keys) \<and>
     0 \<notin> code ` fst ` set kssc_keys"

lemma keysym_listed:
  assumes "key_numbers_ok code" and "(k, sc) \<in> set kssc_keys"
  shows "keysym_to_scancode code (code k) = Inr (Some sc)"
proof -
  have "map fst (map (\<lambda>(k, sc). (code k, sc)) kssc_keys) = map (\<lambda>(k, sc). code k) kssc_keys"
    by (simp add: split_def)
  moreover have "(code k, sc) \<in> set (map (\<lambda>(k, sc). (code k, sc)) kssc_keys)"
    using assms(2) by force
  ultimately have "map_of (map (\<lambda>(k, sc). (code k, sc)) kssc_keys) (code k) = Some sc"
    using assms(1) by (metis key_numbers_ok_def map_of_is_SomeI)
  with assms(1) show ?thesis
    by (simp add: keysym_to_scancode_def kssc_def key_numbers_ok_def kssc_scan_map)
qed

lemma keysym_other:
  assumes "key_numbers_ok code" and "key \<notin> code ` fst ` set kssc_keys"
  shows "keysym_to_scancode code key = Inr None"
proof -
  have "map_of (map (\<lambda>(k, sc). (code k, sc)) kssc_keys) key = None"
    using assms(2) by (auto simp: map_of_eq_None_iff image_iff)
  with assms(1) show ?thesis
    by (simp add: keysym_to_scancode_def kssc_def key_numbers_ok_def kssc_scan_map)
qed

subsection \<open>A round of the viewer\<close>

datatype sdl_event = Key_Down int | Key_Up int | Other_Event

text \<open>Pressing the key that prints a report of the registers has no other effect.\<close>

definition viewer_event :: "(sdl_key \<Rightarrow> int) \<Rightarrow> sdl_event \<Rightarrow> kbd \<Rightarrow> (kbd, unit) effect" where
  "viewer_event code ev r = (case ev of
     Key_Down key \<Rightarrow> rbind (keysym_to_scancode code key)
       (\<lambda>x. case x of Some sc \<Rightarrow> kbd_inject sc True r | None \<Rightarrow> ret () r)
   | Key_Up key \<Rightarrow> rbind (keysym_to_scancode code key)
       (\<lambda>x. case x of Some sc \<Rightarrow> kbd_inject sc False r | None \<Rightarrow> ret () r)
   | Other_Event \<Rightarrow> ret () r)"

fun viewer_events :: "(sdl_key \<Rightarrow> int) \<Rightarrow> sdl_event list \<Rightarrow> kbd \<Rightarrow> (kbd, unit) effect" where
  "viewer_events code [] r = ret () r"
| "viewer_events code (ev # evs) r = ebind (viewer_event code ev r) (\<lambda>_. viewer_events code evs)"

definition viewer_draw :: "vgactx \<Rightarrow> uint32 \<Rightarrow> uint32 list \<Rightarrow> fault + uint32 list" where
  "viewer_draw c pitch p = (if isTextMode c then updateTextmode c pitch p else updateGraphics c p)"

definition viewer_round :: "(sdl_key \<Rightarrow> int) \<Rightarrow> sdl_event list \<Rightarrow> vgactx \<Rightarrow> uint32
    \<Rightarrow> uint32 list \<times> kbd \<Rightarrow> (uint32 list \<times> kbd, unit) effect" where
  "viewer_round code evs c pitch s = rbind (viewer_draw c pitch (fst s)) (\<lambda>p.
     case viewer_events code evs (snd s) of Inl e \<Rightarrow> Inl e | Inr (u, r, es) \<Rightarrow> emit es () (p, r))"

text \<open>The byte a listed key puts into the output buffer.\<close>

definition key_byte :: "uint8 \<Rightarrow> bool \<Rightarrow> uint8" where
  "key_byte sc down = (if down then sc else sc OR 0x80)"

definition key_event :: "(sdl_key \<Rightarrow> int) \<Rightarrow> sdl_key \<Rightarrow> bool \<Rightarrow> sdl_event" where
  "key_event code k down = (if down then Key_Down (code k) else Key_Up (code k))"

lemma viewer_event_listed:
  "key_numbers_ok code \<Longrightarrow> (k, sc) \<in> set kssc_keys \<Longrightarrow>
   viewer_event code (key_event code k down) r = kbd_inject sc down r"
  by (simp add: viewer_event_def key_event_def keysym_listed)

text \<open>After any number of listed keys, only the last is in the output buffer.\<close>

definition keys_typed :: "(sdl_key \<times> uint8 \<times> bool) list \<Rightarrow> kbd \<Rightarrow> kbd" where
  "keys_typed ks r = (if ks = [] then r else (case last ks of (k, sc, down) \<Rightarrow>
     r\<lparr>buf_output := (buf_output r)[0 := key_byte sc down], ndx_output := 0,
       kb_status := kb_status r OR 1\<rparr>))"

lemma viewer_events_listed:
  assumes "key_numbers_ok code" and "\<forall>(k, sc, down) \<in> set ks. (k, sc) \<in> set kssc_keys"
  shows "viewer_events code (map (\<lambda>(k, sc, down). key_event code k down) ks) r =
    emit (replicate (length ks) (Irq_Set 1 1)) () (keys_typed ks r)"
  using assms(2)
proof (induction ks arbitrary: r)
  case (Cons x ks)
  obtain k sc down where x: "x = (k, sc, down)" by (cases x)
  then have "viewer_event code (key_event code k down) r = kbd_inject sc down r"
    using Cons.prems viewer_event_listed [OF assms(1)] by simp
  with Cons x show ?case
    by (simp add: kbd_inject_def ebind_emit keys_typed_def key_byte_def or.assoc split: prod.splits)
qed (simp add: keys_typed_def)

text \<open>
  C38: the search of the key table. For every assignment of numbers to SDL's keys that
  keeps them distinct and not 0, the search ends inside the table: it finds the scan code
  of every listed key, and nothing for any other number.
\<close>

theorem keysym_search:
  assumes "key_numbers_ok code"
  shows "((k, sc) \<in> set kssc_keys \<longrightarrow> keysym_to_scancode code (code k) = Inr (Some sc)) \<and>
    (key \<notin> code ` fst ` set kssc_keys \<longrightarrow> keysym_to_scancode code key = Inr None)"
  using keysym_listed [OF assms] keysym_other [OF assms] by blast

text \<open>The numbers of SDL 1.2.\<close>

primrec sdl12 :: "sdl_key \<Rightarrow> int" where
  "sdl12 SDLK_1 = 49" | "sdl12 SDLK_2 = 50" | "sdl12 SDLK_3 = 51"
| "sdl12 SDLK_4 = 52" | "sdl12 SDLK_5 = 53" | "sdl12 SDLK_6 = 54"
| "sdl12 SDLK_7 = 55" | "sdl12 SDLK_8 = 56" | "sdl12 SDLK_9 = 57"
| "sdl12 SDLK_0 = 48" | "sdl12 SDLK_a = 97" | "sdl12 SDLK_b = 98"
| "sdl12 SDLK_c = 99" | "sdl12 SDLK_d = 100" | "sdl12 SDLK_e = 101"
| "sdl12 SDLK_f = 102" | "sdl12 SDLK_g = 103" | "sdl12 SDLK_h = 104"
| "sdl12 SDLK_i = 105" | "sdl12 SDLK_j = 106" | "sdl12 SDLK_k = 107"
| "sdl12 SDLK_l = 108" | "sdl12 SDLK_m = 109" | "sdl12 SDLK_n = 110"
| "sdl12 SDLK_o = 111" | "sdl12 SDLK_p = 112" | "sdl12 SDLK_q = 113"
| "sdl12 SDLK_r = 114" | "sdl12 SDLK_s = 115" | "sdl12 SDLK_t = 116"
| "sdl12 SDLK_u = 117" | "sdl12 SDLK_v = 118" | "sdl12 SDLK_w = 119"
| "sdl12 SDLK_x = 120" | "sdl12 SDLK_y = 121" | "sdl12 SDLK_z = 122"
| "sdl12 SDLK_F1 = 282" | "sdl12 SDLK_F2 = 283" | "sdl12 SDLK_F3 = 284"
| "sdl12 SDLK_F4 = 285" | "sdl12 SDLK_F5 = 286" | "sdl12 SDLK_F6 = 287"
| "sdl12 SDLK_F7 = 288" | "sdl12 SDLK_F8 = 289" | "sdl12 SDLK_F9 = 290"
| "sdl12 SDLK_F10 = 291" | "sdl12 SDLK_F11 = 292" | "sdl12 SDLK_F12 = 293"
| "sdl12 SDLK_RETURN = 13" | "sdl12 SDLK_SPACE = 32" | "sdl12 SDLK_LALT = 308"
| "sdl12 SDLK_LSHIFT = 304" | "sdl12 SDLK_LCTRL = 306" | "sdl12 SDLK_ESCAPE = 27"
| "sdl12 SDLK_TAB = 9" | "sdl12 SDLK_BACKSPACE = 8" | "sdl12 SDLK_DOWN = 274"
| "sdl12 SDLK_UP = 273" | "sdl12 SDLK_LEFT = 276" | "sdl12 SDLK_RIGHT = 275"
| "sdl12 SDLK_COMMA = 44" | "sdl12 SDLK_PERIOD = 46" | "sdl12 SDLK_SEMICOLON = 59"

lemma sdl12_ok: "key_numbers_ok sdl12"
  unfolding key_numbers_ok_def kssc_keys_def by simp

theorem keysym_search_witness:
  "keysym_to_scancode sdl12 97 = Inr (Some 0x1E) \<and> keysym_to_scancode sdl12 96 = Inr None"
proof -
  have "(SDLK_a, 0x1E) \<in> set kssc_keys" "96 \<notin> sdl12 ` fst ` set kssc_keys"
    by (simp_all add: kssc_keys_def)
  then show ?thesis using keysym_search [OF sdl12_ok, of SDLK_a "0x1E" 96] by simp
qed

text \<open>
  C39: keys typed faster than the guest reads. Of any non-empty sequence of presses and
  releases of listed keys that the viewer hands over before the guest reads the keyboard,
  the guest gets only the last, as its scan code with the release bit, and then an empty
  buffer. Each key asserts the interrupt line, and the one read releases it.
\<close>

theorem viewer_last_key_wins:
  assumes "key_numbers_ok code" and "kbd_wf r" and "ks \<noteq> []"
    and "\<forall>(k, sc, down) \<in> set ks. (k, sc) \<in> set kssc_keys"
  shows "\<exists>r'. ebind (viewer_events code (map (\<lambda>(k, sc, down). key_event code k down) ks) r)
      (\<lambda>_. handler_run kbd_hdl [In8 0x60, In8 0x60]) =
    emit (replicate (length ks) (Irq_Set 1 1) @ [Irq_Set 1 0])
      [(case last ks of (k, sc, down) \<Rightarrow> ucast (key_byte sc down)), 0] r'"
proof -
  obtain k sc down where l: "last ks = (k, sc, down)" by (cases "last ks")
  have len: "length (buf_output r) = 8" using assms(2) by (simp add: kbd_wf_def)
  have "\<exists>r'. handler_run kbd_hdl [In8 0x60, In8 0x60] (keys_typed ks r) =
      emit [Irq_Set 1 0] [ucast (key_byte sc down), 0] r'"
    using len assms(3)
    by (simp add: keys_typed_def l kbd_hdl_def kbd_inb_def arr_get_def ebind_emit Let_def)
  then show ?thesis
    unfolding viewer_events_listed [OF assms(1,4)] by (auto simp: ebind_emit l)
qed

theorem viewer_last_key_wins_witness:
  "\<exists>r'. ebind (viewer_events sdl12 [Key_Down 97, Key_Up 97, Key_Down 98] kbd_zero)
      (\<lambda>_. handler_run kbd_hdl [In8 0x60, In8 0x60]) =
    emit [Irq_Set 1 1, Irq_Set 1 1, Irq_Set 1 1, Irq_Set 1 0] [0x30, 0] r'"
proof -
  have "(SDLK_a, 0x1E) \<in> set kssc_keys" "(SDLK_b, 0x30) \<in> set kssc_keys"
    by (simp_all add: kssc_keys_def)
  then show ?thesis
    using viewer_last_key_wins [OF sdl12_ok kbd_wf_zero,
        of "[(SDLK_a, 0x1E, True), (SDLK_a, 0x1E, False), (SDLK_b, 0x30, True)]"]
    by (simp add: key_event_def key_byte_def)
qed

lemma viewer_event_keeps:
  assumes "key_numbers_ok code" and "kbd_wf r"
  shows "\<exists>r' es. viewer_event code ev r = Inr ((), r', es) \<and> kbd_wf r'"
proof -
  have inj: "\<exists>r' es. kbd_inject sc d r = Inr ((), r', es) \<and> kbd_wf r'" for sc d
    using kbd_wf_inject [OF assms(2)] by (simp add: kbd_inject_def emit_def)
  have key: "keysym_to_scancode code k = Inr None \<or> (\<exists>x. keysym_to_scancode code k = Inr (Some x))" for k
    using keysym_listed [OF assms(1)] keysym_other [OF assms(1), of k] by fastforce
  show ?thesis
  proof (cases ev)
    case (Key_Down k)
    with key [of k] show ?thesis using inj assms(2) by (auto simp: viewer_event_def emit_def)
  next
    case (Key_Up k)
    with key [of k] show ?thesis using inj assms(2) by (auto simp: viewer_event_def emit_def)
  qed (use assms(2) in \<open>simp add: viewer_event_def emit_def\<close>)
qed

lemma viewer_events_keep:
  assumes "key_numbers_ok code" and "kbd_wf r"
  shows "\<exists>r' es. viewer_events code evs r = Inr ((), r', es) \<and> kbd_wf r'"
  using assms(2)
proof (induction evs arbitrary: r)
  case (Cons e evs)
  obtain r1 es1 where 1: "viewer_event code e r = Inr ((), r1, es1)" "kbd_wf r1"
    using viewer_event_keeps [OF assms(1) Cons.prems] by blast
  with Cons.IH [OF 1(2)] show ?case by (force simp: ebind_def)
qed (simp add: emit_def)

lemma round_faults:
  assumes "key_numbers_ok code" and "vga_wf c" and "kbd_wf r" and "length p = 640 * 400"
  shows "if isTextMode c \<and> 14384 < unat (crtc_reg c ! 0xC) * 256 + unat (crtc_reg c ! 0xD)
    then viewer_round code evs c 640 (p, r) = Inl Wild_Access
    else \<exists>p' r' es. viewer_round code evs c 640 (p, r) = Inr ((), (p', r'), es) \<and>
           length p' = length p \<and> kbd_wf r'"
proof (cases "isTextMode c \<and> 14384 < start_nat c")
  case True
  then show ?thesis
    using text_overrun [OF assms(2), of 640 p] by (simp add: viewer_round_def viewer_draw_def start_nat_def)
next
  case False
  then have "\<exists>p'. viewer_draw c 640 p = Inr p' \<and> length p' = length p"
    using text_runs [OF assms(2,4)] graphics_runs [OF assms(2,4)]
    by (metis viewer_draw_def not_less)
  with viewer_events_keep [OF assms(1,3), of evs] False show ?thesis
    by (auto simp: viewer_round_def start_nat_def emit_def)
qed

text \<open>
  A round of the viewer ends in a fault in one case only. With a surface of 640 by
  400 pixels, VGA and keyboard in any state the guest can reach, and any events, a round
  leaves an array exactly when the text mode is on and the display start address is above
  14384; otherwise it returns and the keyboard keeps its invariant.
\<close>

theorem viewer_round_faults:
  assumes "key_numbers_ok code" and "vga_wf c" and "kbd_wf r" and "length p = 640 * 400"
  shows "if isTextMode c \<and> 14384 < unat (crtc_reg c ! 0xC) * 256 + unat (crtc_reg c ! 0xD)
    then viewer_round code evs c 640 (p, r) = Inl Wild_Access
    else \<exists>p' r' es. viewer_round code evs c 640 (p, r) = Inr ((), (p', r'), es) \<and>
           length p' = length p \<and> kbd_wf r'"
  using assms by (rule round_faults)

theorem viewer_round_faults_witness:
  "viewer_round sdl12 [] ((vgactx_init planes_zero)\<lparr>crtc_reg := (replicate 0x19 0)[0xC := 0x40]\<rparr>)
     640 (replicate 256000 0, kbd_zero) = Inl Wild_Access"
proof -
  let ?c = "(vgactx_init planes_zero)\<lparr>crtc_reg := (replicate 0x19 0)[0xC := 0x40]\<rparr>"
  have "vga_wf ?c" using vga_wf_zero by (simp add: vga_wf_def)
  moreover have "isTextMode ?c \<and> 14384 < unat (crtc_reg ?c ! 0xC) * 256 + unat (crtc_reg ?c ! 0xD)"
    by (simp add: isTextMode_def vgactx_init_def)
  ultimately show ?thesis
    using viewer_round_faults [OF sdl12_ok _ kbd_wf_zero, of ?c "replicate 256000 0" "[]"] by simp
qed

end
