(* ===== verification/System_Create.thy ===== *)
theory System_Create
  imports Guest_Memory
begin

text \<open>
  The creation and the destruction of a system in \<^verbatim>\<open>system.c\<close>: \<^verbatim>\<open>sys_create\<close> with its error
  paths, \<^verbatim>\<open>fixupCPUID\<close>, \<^verbatim>\<open>checkExtensions\<close> and \<^verbatim>\<open>sys_destroy\<close>. The kernel's replies to \<^verbatim>\<open>open\<close>,
  \<^verbatim>\<open>ioctl\<close> and \<^verbatim>\<open>mmap\<close> are the argument of type \<open>kvm_replies\<close>; the calls made are recorded in order. The memory slots
  are those of \<open>create_memory\<close>.
\<close>

subsection \<open>CPUID\<close>

record cpuid_entry =
  cp_function :: uint32
  cp_eax :: uint32
  cp_ebx :: uint32
  cp_ecx :: uint32
  cp_edx :: uint32

definition cpuid_leaf :: "uint32 \<Rightarrow> uint32 \<Rightarrow> uint32 \<Rightarrow> uint32 \<Rightarrow> uint32 \<Rightarrow> cpuid_entry" where
  "cpuid_leaf f a b c d = \<lparr> cp_function = f, cp_eax = a, cp_ebx = b, cp_ecx = c, cp_edx = d \<rparr>"

text \<open>
  The array \<^verbatim>\<open>cpuid_data[100]\<close> after \<^verbatim>\<open>fixupCPUID\<close>. The counter \<^verbatim>\<open>nent\<close> is cleared with the
  rest of the header and incremented once per entry.
\<close>

definition cpuid_data :: "cpuid_entry list" where
  "cpuid_data = (replicate 100 (cpuid_leaf 0 0 0 0 0))
     [0 := cpuid_leaf 0x0 0x4 0x756e6547 0x6c65746e 0x49656e69,
      1 := cpuid_leaf 0x80000000 0x8000000a 0x756e6547 0x6c65746e 0x49656e69,
      2 := cpuid_leaf 0x80000002 0x554d4551 0x72695620 0x6c617574 0x55504320,
      3 := cpuid_leaf 0x80000003 0x72657620 0x6e6f6973 0x342e3120 0x302e,
      4 := cpuid_leaf 0x80000001 0x623 0x0 0x1 0x2191abfd,
      5 := cpuid_leaf 0x1 0x623 0x800 0x80802001 0x78bfbfd]"

definition cpuid_nent :: nat where
  "cpuid_nent = 0 + 1 + 1 + 1 + 1 + 1 + 1"

text \<open>The entries the kernel takes over, by function number.\<close>

definition cpuid_lookup :: "uint32 \<Rightarrow> cpuid_entry option" where
  "cpuid_lookup f = List.find (\<lambda>e. cp_function e = f) (take cpuid_nent cpuid_data)"

subsection \<open>Replies and calls\<close>

record kvm_replies =
  r_open :: int
  r_api_version :: int
  r_create_vm :: int
  r_tss_addr :: int
  r_irqchip :: int
  r_pit :: int
  r_create_vcpu :: "nat \<Rightarrow> int"
  r_mmap_size :: "nat \<Rightarrow> int"
  r_mmap :: "nat \<Rightarrow> int"
  r_cpuid2 :: "nat \<Rightarrow> int"

datatype kvm_call = Open_KVM | Get_API_Version | Create_VM | Set_TSS_Addr uint64 | Create_IRQChip
  | Create_PIT | Create_VCPU nat int | Get_Mmap_Size nat | Mmap_VCPU nat nat | Set_CPUID2 nat
  | Close_FD int | Free_VCPUs | Free_System

record vcpu =
  vc_id :: int
  vc_fd :: int
  vc_stat :: int
  vc_stat_sz :: nat

record sys =
  kvmfd :: int
  vmfd :: int
  uNumVCPUs :: uint8
  vcpus :: "vcpu list"
  memory :: sysmem

definition checkExtensions :: "int \<Rightarrow> int" where
  "checkExtensions fd = 0"

text \<open>
  One turn of the loop over the virtual CPUs: the calls made, and the CPU, or \<open>None\<close> for the
  jump to \<^verbatim>\<open>err_exit\<close>. A failing \<^verbatim>\<open>KVM_SET_CPUID2\<close> aborts. Every CPU is created with the
  number 0.
\<close>

definition create_vcpu :: "kvm_replies \<Rightarrow> nat \<Rightarrow> fault + vcpu option \<times> kvm_call list" where
  "create_vcpu kvm cpu =
     (if r_create_vcpu kvm cpu < 0 then Inr (None, [Create_VCPU cpu 0])
      else if r_mmap_size kvm cpu < 0 then Inr (None, [Create_VCPU cpu 0, Get_Mmap_Size cpu])
      else let sz = nat (r_mmap_size kvm cpu);
               calls = [Create_VCPU cpu 0, Get_Mmap_Size cpu, Mmap_VCPU cpu sz] in
        if r_mmap kvm cpu = -1 then Inr (None, calls)
        else if r_cpuid2 kvm cpu < 0 then Inl Assert_Failed
        else Inr (Some \<lparr> vc_id = int cpu, vc_fd = r_create_vcpu kvm cpu, vc_stat = r_mmap kvm cpu,
                         vc_stat_sz = sz \<rparr>, calls @ [Set_CPUID2 cpu]))"

text \<open>The loop, with \<open>k\<close> CPUs to go from number \<open>cpu\<close> on.\<close>

fun create_vcpus :: "kvm_replies \<Rightarrow> nat \<Rightarrow> nat \<Rightarrow> fault + vcpu list option \<times> kvm_call list" where
  "create_vcpus kvm cpu 0 = Inr (Some [], [])"
| "create_vcpus kvm cpu (Suc k) =
     rbind (create_vcpu kvm cpu) (\<lambda>(v, calls). case v of
        None \<Rightarrow> Inr (None, calls)
      | Some v \<Rightarrow> rbind (create_vcpus kvm (cpu + 1) k) (\<lambda>(vs, calls').
          Inr (map_option (Cons v) vs, calls @ calls')))"

text \<open>\<^verbatim>\<open>KVM_API_VERSION\<close> is a constant of the kernel's header.\<close>

definition sys_create :: "int \<Rightarrow> kvm_replies \<Rightarrow> uint8 list option \<Rightarrow> uint8 list option \<Rightarrow> uint32 \<Rightarrow> uint8
    \<Rightarrow> fault + sys option \<times> kvm_call list" where
  "sys_create KVM_API_VERSION kvm seabios vgabios uNumMegsRAM n =
     (let identity_base = 0xfffbc000 :: uint64; c1 = [Open_KVM]; c2 = c1 @ [Get_API_Version];
          c3 = c2 @ [Create_VM]; c4 = c3 @ [Set_TSS_Addr (identity_base + 0x1000)];
          c5 = c4 @ [Create_IRQChip]; c6 = c5 @ [Create_PIT] in
      if r_open kvm = -1 then Inr (None, c1)
      else if r_api_version kvm \<noteq> KVM_API_VERSION then Inr (None, c2)
      else if r_create_vm kvm < 0 then Inr (None, c3)
      else if checkExtensions (r_create_vm kvm) \<noteq> 0 then Inr (None, c3)
      else if r_tss_addr kvm < 0 then Inr (None, c4)
      else if r_irqchip kvm \<noteq> 0 then Inr (None, c5)
      else if r_pit kvm \<noteq> 0 then Inr (None, c6)
      else rbind (create_vcpus kvm 0 (unat n)) (\<lambda>(vs, calls). case vs of
          None \<Rightarrow> Inr (None, c6 @ calls)
        | Some vs \<Rightarrow> rbind (create_memory seabios vgabios uNumMegsRAM) (\<lambda>mem. case mem of
            None \<Rightarrow> Inr (None, c6 @ calls)
          | Some mem \<Rightarrow> Inr (Some \<lparr> kvmfd = r_open kvm, vmfd = r_create_vm kvm, uNumVCPUs = n,
                vcpus = vs, memory = mem \<rparr>, c6 @ calls))))"

text \<open>
  \<^verbatim>\<open>sys_destroy\<close> reads the system before it tests the pointer; \<open>None\<close> is NULL. The array of
  CPUs is never NULL in a system \<^verbatim>\<open>sys_create\<close> returns.
\<close>

definition sys_destroy :: "sys option \<Rightarrow> fault + kvm_call list" where
  "sys_destroy s = (case s of None \<Rightarrow> Inl Wild_Access
     | Some s \<Rightarrow> Inr ((if kvmfd s > 0 then [Close_FD (kvmfd s)] else []) @ [Free_VCPUs, Free_System]))"

subsection \<open>What is created\<close>

text \<open>
  The reference: the steps of the creation in order, each with whether its reply is a
  success. The calls made are those up to and with the first failure.
\<close>

definition vcpu_steps :: "kvm_replies \<Rightarrow> nat \<Rightarrow> (kvm_call \<times> bool) list" where
  "vcpu_steps kvm cpu = [(Create_VCPU cpu 0, r_create_vcpu kvm cpu \<ge> 0),
     (Get_Mmap_Size cpu, r_mmap_size kvm cpu \<ge> 0),
     (Mmap_VCPU cpu (nat (r_mmap_size kvm cpu)), r_mmap kvm cpu \<noteq> -1),
     (Set_CPUID2 cpu, r_cpuid2 kvm cpu \<ge> 0)]"

definition create_steps :: "int \<Rightarrow> kvm_replies \<Rightarrow> nat \<Rightarrow> (kvm_call \<times> bool) list" where
  "create_steps v kvm n = [(Open_KVM, r_open kvm \<noteq> -1), (Get_API_Version, r_api_version kvm = v),
     (Create_VM, r_create_vm kvm \<ge> 0), (Set_TSS_Addr 0xfffbd000, r_tss_addr kvm \<ge> 0),
     (Create_IRQChip, r_irqchip kvm = 0), (Create_PIT, r_pit kvm = 0)] @
     concat (map (vcpu_steps kvm) [0..<n])"

fun upto_failure :: "('a \<times> bool) list \<Rightarrow> 'a list" where
  "upto_failure [] = []"
| "upto_failure ((x, ok) # xs) = x # (if ok then upto_failure xs else [])"

lemma upto_failure_append:
  "upto_failure (xs @ ys) = upto_failure xs @ (if \<forall>x \<in> set xs. snd x then upto_failure ys else [])"
  by (induction xs rule: upto_failure.induct) auto

text \<open>What a creation stopped at the last of these calls gives: a refused CPUID table aborts.\<close>

definition stopped :: "kvm_call list \<Rightarrow> fault + 'a option \<times> kvm_call list" where
  "stopped calls = (case last calls of Set_CPUID2 cpu \<Rightarrow> Inl Assert_Failed | _ \<Rightarrow> Inr (None, calls))"

lemma stopped_after:
  "cs \<noteq> [] \<Longrightarrow> rbind (stopped cs) (\<lambda>(vs, cs'). Inr (map_option f vs, calls @ cs')) = stopped (calls @ cs)"
  by (simp add: stopped_def split: kvm_call.split)

lemma stopped_through:
  "(\<And>cs'. f (None, cs') = Inr (None, calls @ cs')) \<Longrightarrow> cs \<noteq> [] \<Longrightarrow> rbind (stopped cs) f = stopped (calls @ cs)"
  by (simp add: stopped_def split: kvm_call.split)

lemma upto_failure_Nil: "upto_failure xs = [] \<longleftrightarrow> xs = []"
  by (cases xs rule: upto_failure.cases) auto

lemma create_vcpu_steps:
  "if \<forall>x \<in> set (vcpu_steps kvm cpu). snd x
   then \<exists>c. create_vcpu kvm cpu = Inr (Some c, upto_failure (vcpu_steps kvm cpu)) \<and> vc_id c = int cpu
   else create_vcpu kvm cpu = stopped (upto_failure (vcpu_steps kvm cpu))"
  by (auto simp: create_vcpu_def vcpu_steps_def stopped_def Let_def)

lemma create_vcpus_steps:
  "if \<forall>x \<in> set (concat (map (vcpu_steps kvm) [cpu..<cpu + k])). snd x
   then \<exists>l. create_vcpus kvm cpu k = Inr (Some l, upto_failure (concat (map (vcpu_steps kvm) [cpu..<cpu + k]))) \<and>
     map vc_id l = map int [cpu..<cpu + k]
   else create_vcpus kvm cpu k = stopped (upto_failure (concat (map (vcpu_steps kvm) [cpu..<cpu + k])))"
proof (induction k arbitrary: cpu)
  case (Suc k)
  let ?v = "vcpu_steps kvm cpu" and ?t = "concat (map (vcpu_steps kvm) [cpu + 1..<cpu + 1 + k])"
  have up: "[cpu..<cpu + Suc k] = cpu # [cpu + 1..<cpu + 1 + k]" by (simp add: upt_rec)
  then have tr: "concat (map (vcpu_steps kvm) [cpu..<cpu + Suc k]) = ?v @ ?t" by simp
  have all: "(\<forall>x \<in> set (?v @ ?t). snd x) \<longleftrightarrow> (\<forall>x \<in> set ?v. snd x) \<and> (\<forall>x \<in> set ?t. snd x)" by auto
  show ?case
  proof (cases "\<forall>x \<in> set ?v. snd x")
    case False
    then have "create_vcpu kvm cpu = stopped (upto_failure ?v)" using create_vcpu_steps [of kvm cpu] by auto
    moreover have "upto_failure ?v \<noteq> []" by (simp add: upto_failure_Nil vcpu_steps_def)
    ultimately have "create_vcpus kvm cpu (Suc k) = stopped ([] @ upto_failure ?v)"
      by (simp only: create_vcpus.simps) (rule stopped_through, simp_all)
    then show ?thesis
      unfolding tr all upto_failure_append by (simp only: False if_False simp_thms append_Nil append_Nil2)
  next
    case True
    then obtain c where c: "create_vcpu kvm cpu = Inr (Some c, upto_failure ?v)" "vc_id c = int cpu"
      using create_vcpu_steps [of kvm cpu] by auto
    show ?thesis
    proof (cases "\<forall>x \<in> set ?t. snd x")
      case rest: True
      then obtain l where "create_vcpus kvm (cpu + 1) k = Inr (Some l, upto_failure ?t)"
        "map vc_id l = map int [cpu + 1..<cpu + 1 + k]"
        using Suc.IH [of "cpu + 1"] by (simp only: eqTrueI [OF rest] if_True) blast
      then have "create_vcpus kvm cpu (Suc k) = Inr (Some (c # l), upto_failure ?v @ upto_failure ?t)"
        "map vc_id (c # l) = map int [cpu..<cpu + Suc k]" unfolding up using c by simp_all
      then show ?thesis unfolding tr all upto_failure_append
        by (simp only: eqTrueI [OF True] eqTrueI [OF rest] if_True simp_thms) blast
    next
      case rest: False
      then have "create_vcpus kvm (cpu + 1) k = stopped (upto_failure ?t)"
        using Suc.IH [of "cpu + 1"] by (simp only: if_False)
      moreover have "upto_failure ?t \<noteq> []" using rest by (metis ball_empty list.set(1) upto_failure_Nil)
      ultimately have "create_vcpus kvm cpu (Suc k) = stopped (upto_failure ?v @ upto_failure ?t)"
        by (simp only: create_vcpus.simps c(1) rbind_simps prod.case option.case) (rule stopped_after)
      then show ?thesis unfolding tr all upto_failure_append
        by (simp only: eqTrueI [OF True] rest if_True if_False simp_thms)
    qed
  qed
qed simp

lemma sys_create_outcome:
  "if \<forall>x \<in> set (create_steps v kvm (unat n)). snd x then
     (case create_memory seabios vgabios megs of
        Inl e \<Rightarrow> sys_create v kvm seabios vgabios megs n = Inl e
      | Inr None \<Rightarrow> sys_create v kvm seabios vgabios megs n =
          Inr (None, upto_failure (create_steps v kvm (unat n)))
      | Inr (Some mem) \<Rightarrow> \<exists>s. sys_create v kvm seabios vgabios megs n =
          Inr (Some s, upto_failure (create_steps v kvm (unat n))) \<and> memory s = mem \<and>
          map vc_id (vcpus s) = map int [0..<unat n] \<and> kvmfd s = r_open kvm \<and> vmfd s = r_create_vm kvm)
   else sys_create v kvm seabios vgabios megs n = stopped (upto_failure (create_steps v kvm (unat n)))"
proof -
  let ?p = "[(Open_KVM, r_open kvm \<noteq> -1), (Get_API_Version, r_api_version kvm = v),
     (Create_VM, r_create_vm kvm \<ge> 0), (Set_TSS_Addr 0xfffbd000, r_tss_addr kvm \<ge> 0),
     (Create_IRQChip, r_irqchip kvm = 0), (Create_PIT, r_pit kvm = 0)]"
  let ?t = "concat (map (vcpu_steps kvm) [0..<0 + unat n])"
  have st: "create_steps v kvm (unat n) = ?p @ ?t" by (simp add: create_steps_def)
  have all: "(\<forall>x \<in> set (?p @ ?t). snd x) \<longleftrightarrow> (\<forall>x \<in> set ?p. snd x) \<and> (\<forall>x \<in> set ?t. snd x)" by auto
  show ?thesis
  proof (cases "\<forall>x \<in> set ?p. snd x")
    case False
    then have "sys_create v kvm seabios vgabios megs n = stopped (upto_failure ?p)"
      by (auto simp: sys_create_def checkExtensions_def stopped_def Let_def not_le)
    then show ?thesis unfolding st all upto_failure_append by (simp only: False if_False simp_thms append_Nil2)
  next
    case True
    let ?f = "\<lambda>(vs, calls). case vs of
          None \<Rightarrow> Inr (None, map fst ?p @ calls)
        | Some vs \<Rightarrow> rbind (create_memory seabios vgabios megs) (\<lambda>mem. case mem of
            None \<Rightarrow> Inr (None, map fst ?p @ calls)
          | Some mem \<Rightarrow> Inr (Some \<lparr> kvmfd = r_open kvm, vmfd = r_create_vm kvm, uNumVCPUs = n,
                vcpus = vs, memory = mem \<rparr>, map fst ?p @ calls))"
    have run: "sys_create v kvm seabios vgabios megs n = rbind (create_vcpus kvm 0 (unat n)) ?f"
      using True by (cases "create_vcpus kvm 0 (unat n)")
        (auto simp: sys_create_def checkExtensions_def Let_def split: option.split)
    have pre: "upto_failure ?p = map fst ?p" using True by simp
    show ?thesis
    proof (cases "\<forall>x \<in> set ?t. snd x")
      case rest: True
      then obtain l where "create_vcpus kvm 0 (unat n) = Inr (Some l, upto_failure ?t)"
        "map vc_id l = map int [0..<0 + unat n]" using create_vcpus_steps [of kvm 0 "unat n"] by auto
      then show ?thesis unfolding st all upto_failure_append run pre
        by (simp only: eqTrueI [OF True] eqTrueI [OF rest] if_True simp_thms)
           (cases "create_memory seabios vgabios megs", auto split: option.split)
    next
      case rest: False
      then have "create_vcpus kvm 0 (unat n) = stopped (upto_failure ?t)"
        using create_vcpus_steps [of kvm 0 "unat n"] by (simp only: if_False)
      moreover have "upto_failure ?t \<noteq> []" using rest by (metis ball_empty list.set(1) upto_failure_Nil)
      ultimately have "sys_create v kvm seabios vgabios megs n = stopped (map fst ?p @ upto_failure ?t)"
        unfolding run by (simp only:) (rule stopped_through, simp_all)
      then show ?thesis unfolding st all upto_failure_append pre
        by (simp only: eqTrueI [OF True] rest if_True if_False simp_thms)
    qed
  qed
qed


text \<open>A kernel that accepts everything.\<close>

definition willing_kernel :: kvm_replies where
  "willing_kernel = \<lparr> r_open = 3, r_api_version = 12, r_create_vm = 4, r_tss_addr = 0, r_irqchip = 0,
     r_pit = 0, r_create_vcpu = (\<lambda>i. 5), r_mmap_size = (\<lambda>i. 12288), r_mmap = (\<lambda>i. 4096),
     r_cpuid2 = (\<lambda>i. 0) \<rparr>"


text \<open>The characters of registers, lowest byte first.\<close>

definition register_text :: "uint32 list \<Rightarrow> uint8 list" where
  "register_text rs = concat (map (le_bytes 4) rs)"

lemma cpuid_entries:
  "take cpuid_nent cpuid_data =
    [cpuid_leaf 0x0 0x4 0x756e6547 0x6c65746e 0x49656e69,
     cpuid_leaf 0x80000000 0x8000000a 0x756e6547 0x6c65746e 0x49656e69,
     cpuid_leaf 0x80000002 0x554d4551 0x72695620 0x6c617574 0x55504320,
     cpuid_leaf 0x80000003 0x72657620 0x6e6f6973 0x342e3120 0x302e,
     cpuid_leaf 0x80000001 0x623 0x0 0x1 0x2191abfd,
     cpuid_leaf 0x1 0x623 0x800 0x80802001 0x78bfbfd]"
  by (simp add: cpuid_data_def cpuid_nent_def numeral_eq_Suc)

text \<open>
  The CPUID table. The vendor leaves 0 and \<open>0x80000000\<close> spell GenuineIntel in the
  order of registers the processor defines, and the brand string leaves spell the name of
  the CPU; but of the leaves announced by the two maxima, only leaf 1 and
  \<open>0x80000001\<close> to \<open>0x80000003\<close> are there: the third brand string leaf is missing.
\<close>

theorem cpuid_strings:
  "map_option (\<lambda>e. register_text [cp_ebx e, cp_edx e, cp_ecx e]) (cpuid_lookup 0) =
     Some (map of_char ''GenuineIntel'') \<and>
   map_option (\<lambda>e. register_text [cp_ebx e, cp_edx e, cp_ecx e]) (cpuid_lookup 0x80000000) =
     Some (map of_char ''GenuineIntel'') \<and>
   map_option (\<lambda>e. register_text [cp_eax e, cp_ebx e, cp_ecx e, cp_edx e]) (cpuid_lookup 0x80000002) =
     Some (map of_char ''QEMU Virtual CPU'') \<and>
   map_option (\<lambda>e. register_text [cp_eax e, cp_ebx e, cp_ecx e, cp_edx e]) (cpuid_lookup 0x80000003) =
     Some (map of_char '' version 1.4.0'' @ [0, 0]) \<and>
   (\<forall>f. cpuid_lookup f \<noteq> None \<longleftrightarrow> f \<in> {0, 1, 0x80000000, 0x80000001, 0x80000002, 0x80000003})"
proof (intro conjI allI)
  show "cpuid_lookup f \<noteq> None \<longleftrightarrow> f \<in> {0, 1, 0x80000000, 0x80000001, 0x80000002, 0x80000003}" for f
    by (auto simp: cpuid_lookup_def cpuid_entries cpuid_leaf_def)
qed (code_simp)+

end
