(* ===== verification/Boot.thy ===== *)
theory Boot
  imports Machine Viewer_Input System_Create
begin

text \<open>
  The start of the program and its run: what \<^verbatim>\<open>devices_register_all\<close> leaves behind (the
  devices' initial states; the port table is \<open>machine_table\<close>), the whole of \<^verbatim>\<open>sys_create\<close>,
  \<^verbatim>\<open>sys_run\<close> and \<^verbatim>\<open>main\<close>. The files the program opens and the contents of freshly allocated
  memory are the record \<open>host\<close>; a file that cannot be opened is \<open>None\<close>. The running machine is
  the relation \<open>machine_run\<close> of theory \<^verbatim>\<open>Machine_Reach\<close>.
\<close>

record host =
  seabios_rom :: "uint8 list option"
  vgabios_rom :: "uint8 list option"
  floppy_img :: "uint8 list option"
  hdd_img :: "uint8 list option"
  host_clock :: tm
  fresh_planes :: "uint8 list list"
  fresh_dma_buffer :: "uint8 list"
  fresh_low :: lowmem

text \<open>The allocations have the size asked for.\<close>

definition host_ok :: "host \<Rightarrow> bool" where
  "host_ok h \<longleftrightarrow> length (fresh_planes h) = 6 \<and> (\<forall>p < 6. length (fresh_planes h ! p) = 0x20000) \<and>
     length (fresh_dma_buffer h) = 65536 \<and> lowmem_wf (fresh_low h)"

subsection \<open>The devices at the start\<close>

text \<open>
  The VGA ROM is the first PCI function to register and the disk controller the second; the
  address fields of their static records are zero before.
\<close>

definition devices_start :: "host \<Rightarrow> uint64 \<Rightarrow> fault + machine" where
  "devices_start h ram =
     rbind (x86_vga_rom_init (vgabios_rom h)) (\<lambda>rom.
     rbind (pci_register_dev (-1) False (pci_bus_init (\<lambda>_. (0, 0, 0)))) (\<lambda>(r, bus).
     rbind (x86_ata_init (hdd_img h)) (\<lambda>ata.
     rbind (pci_register_dev (-1) True bus) (\<lambda>(r, bus').
       Inr \<lparr> m_cmos = cmos_start ram (host_clock h), m_ps2 = x86_ps2_POS_init,
         m_kbd = x86_keyboard_init kbd_zero,
         m_fdc = x86_floppy_init (floppy_img h) (fresh_dma_buffer h), m_dma = dma_zero,
         m_mem = fresh_low h, m_qemu = qemu_zero, m_vga = vgactx_init (fresh_planes h),
         m_rom = rom, m_ata = ata, m_pci = bus' \<rparr>))))"

text \<open>
  \<^verbatim>\<open>sys_create\<close> with its last two calls, \<^verbatim>\<open>mmio_init\<close> and \<^verbatim>\<open>devices_register_all\<close>: the system,
  the port table and the devices.
\<close>

definition sys_create_devices :: "int \<Rightarrow> kvm_replies \<Rightarrow> host \<Rightarrow> uint32 \<Rightarrow> uint8
    \<Rightarrow> fault + (sys \<times> machine io_table \<times> machine) option \<times> kvm_call list" where
  "sys_create_devices v kvm h megs n =
     rbind (sys_create v kvm (seabios_rom h) (vgabios_rom h) megs n) (\<lambda>(s, calls). case s of
         None \<Rightarrow> Inr (None, calls)
       | Some s \<Rightarrow> rbind (devices_start h (sys_ramsize (memory s))) (\<lambda>m.
           rbind devices_register_all (\<lambda>tbl. Inr (Some (s, tbl, m), calls))))"

text \<open>The first CPU only is run; the result is whether the loop has ended.\<close>

definition sys_run :: "machine io_table \<Rightarrow> kvm_exit list \<Rightarrow> machine \<Rightarrow> (machine, bool) effect" where
  "sys_run tbl exits m = sys_run_vcpu tbl exits m"

text \<open>
  \<^verbatim>\<open>main\<close>, over the exits the kernel delivers: its exit code and all calls to the kernel when
  the loop has ended, \<open>None\<close> while it still runs.
\<close>

definition kvmulate_main :: "int \<Rightarrow> kvm_replies \<Rightarrow> host \<Rightarrow> kvm_exit list
    \<Rightarrow> fault + (int \<times> kvm_call list) option" where
  "kvmulate_main v kvm h exits =
     rbind (sys_create_devices v kvm h (1024 * 8) 1) (\<lambda>(r, calls). case r of
         None \<Rightarrow> Inl Assert_Failed
       | Some (s, tbl, m) \<Rightarrow> rbind (sys_run tbl exits m) (\<lambda>(bDone, m', es).
           if bDone then rbind (sys_destroy (Some s)) (\<lambda>cs. Inr (Some (0, calls @ cs)))
           else Inr None))"

subsection \<open>The start is well formed\<close>

text \<open>The bridge after both registrations.\<close>

definition start_bus :: "bool pci_bus" where
  "start_bus = (case pci_register_all [False, True] (pci_bus_init (\<lambda>_. (0, 0, 0))) of
     Inr b \<Rightarrow> b | Inl _ \<Rightarrow> undefined)"

lemma start_bus:
  "pci_register_all [False, True] (pci_bus_init (\<lambda>_. (0, 0, 0))) = Inr start_bus"
  "pci_registered [False, True] start_bus"
  using pci_register_all_ok [of "[False, True]" "\<lambda>_. (0, 0, 0)"]
  by (auto simp: start_bus_def MAX_FPB_def)

lemma devices_start_wf:
  assumes "host_ok h" and rom: "vgabios_rom h = Some f" "length f \<le> 0x20000"
    and hdd: "hdd_img h = Some img"
  shows "\<exists>m. devices_start h ram = Inr m \<and> machine_wf (rom_image f) ram m \<and>
     pci_registered [False, True] (m_pci m) \<and> m_ata m = ata_boot img"
proof -
  obtain r where r: "x86_vga_rom_init (Some f) = Inr r" "rom_wf (rom_image f) r"
    using x86_vga_rom_init_wf [OF rom(2)] by blast
  obtain x b1 y where b: "pci_register_dev (-1) False (pci_bus_init (\<lambda>_. (0, 0, 0))) = Inr (x, b1)"
    "pci_register_dev (-1) True b1 = Inr (y, start_bus)"
    using start_bus(1) by (auto simp: pci_register_all_def rbind_Inr)
  have "kbd_wf (x86_keyboard_init kbd_zero)" using kbd_wf_zero by (simp add: x86_keyboard_init_def)
  with assms r(2) show ?thesis
    by (simp add: devices_start_def rom hdd r(1) b x86_ata_init_boot machine_wf_def start_bus(2)
        cmos_wf_start ps2pos_wf_def x86_ps2_POS_init_def fdc_wf_init dma_wf_zero qemu_wf_zero
        vga_wf_init ata_boot_wf host_ok_def)
qed

end
