(* ===== verification/Vcpu_Io.thy ===== *)
theory Vcpu_Io
  imports Machine
begin

text \<open>
  Port exits of the virtual CPU as runs of single accesses. \<^verbatim>\<open>handle_io\<close> of \<^verbatim>\<open>system.c\<close> serves a
  whole string instruction (\<^verbatim>\<open>rep outs\<close>, \<^verbatim>\<open>rep ins\<close>) by walking over the shared page; the
  reference is the sequence of the single accesses of the same width. Runs that stay on the
  ports of one device are runs of that device alone, so the results proved for a device hold
  for the machine: the disk is read through the port table as an example.
\<close>

subsection \<open>A string instruction as a list of accesses\<close>

definition in_access :: "nat \<Rightarrow> uint16 \<Rightarrow> access" where
  "in_access sz port = (if sz = 1 then In8 port else if sz = 2 then In16 port else In32 port)"

definition out_access :: "nat \<Rightarrow> uint16 \<Rightarrow> uint8 list \<Rightarrow> access" where
  "out_access sz port bs = (if sz = 1 then Out8 port (le_word bs)
     else if sz = 2 then Out16 port (le_word bs) else Out32 port (le_word bs))"

fun elements :: "nat \<Rightarrow> nat \<Rightarrow> uint8 list \<Rightarrow> uint8 list list" where
  "elements sz 0 bs = []"
| "elements sz (Suc n) bs = take sz bs # elements sz n (drop sz bs)"

definition string_accesses :: "kvm_io \<Rightarrow> access list" where
  "string_accesses k =
     (let sz = unat (io_size k); n = unat (io_count k) in
      if io_out k then map (out_access sz (io_port k)) (elements sz n (drop (unat (data_offset k)) (run_page k)))
      else replicate n (in_access sz (io_port k)))"

text \<open>The page after the exit: input stores the values read one after the other.\<close>

definition string_page :: "kvm_io \<Rightarrow> uint32 list \<Rightarrow> uint8 list" where
  "string_page k vs =
     (if io_out k then run_page k
      else let off = unat (data_offset k); bs = concat (map (le_bytes (unat (io_size k))) vs) in
        take off (run_page k) @ bs @ drop (off + length bs) (run_page k))"

lemma le_bytes_ucast:
  assumes "8 * n \<le> LENGTH('a)" and "8 * n \<le> LENGTH('b)"
  shows "le_bytes n (ucast (w :: 'a::len word) :: 'b::len word) = le_bytes n w"
proof (rule nth_equalityI)
  fix i assume "i < length (le_bytes n (ucast w :: 'b word))"
  then have i: "i < n" by simp
  show "le_bytes n (ucast w :: 'b word) ! i = le_bytes n w ! i"
  proof (rule bit_word_eqI)
    fix k assume k: "k < LENGTH(8)"
    then have "8 * i + k < 8 * n" using i by simp
    then have "8 * i + k < LENGTH('b)" using assms(2) by linarith
    then show "bit (le_bytes n (ucast w :: 'b word) ! i) k = bit (le_bytes n w ! i) k"
      using i k by (simp add: le_bytes_def bit_ucast_iff bit_drop_bit_eq)
  qed
qed simp

lemma rd_bytes_drop:
  "off + n \<le> length page \<Longrightarrow> rd_bytes (drop off page) 0 n = Inr (take n (drop off page))"
  by (simp add: rd_bytes_def in_range_def)

lemma silent_ret: "ebind (silent m) (\<lambda>_. ret ()) = m"
  by (cases m) (auto simp: silent_def ebind_def emit_def)

lemma out_step:
  assumes "sz \<in> {1, 2, 4}" and "off + sz \<le> length page"
  shows "(if sz = 1 then data_load 1 (drop off page) (\<lambda>v. io_outb tbl port v s)
          else if sz = 2 then data_load 2 (drop off page) (\<lambda>v. io_outw tbl port v s)
          else if sz = 4 then data_load 4 (drop off page) (\<lambda>v. io_outl tbl port v s)
          else assert_failed) =
     ebind (bus_access tbl (out_access sz port (take sz (drop off page))) s) (\<lambda>_. ret ())"
  using assms(1)
proof (elim insertE emptyE)
  assume sz: "sz = 1"
  show ?thesis unfolding sz out_access_def using rd_bytes_drop [OF assms(2)] by (simp add: sz silent_ret data_load_def)
next
  assume sz: "sz = 2"
  show ?thesis unfolding sz out_access_def using rd_bytes_drop [OF assms(2)] by (simp add: sz silent_ret data_load_def)
next
  assume sz: "sz = 4"
  show ?thesis unfolding sz out_access_def using rd_bytes_drop [OF assms(2)] by (simp add: sz silent_ret data_load_def)
qed

lemma io_out_loop_run:
  assumes "sz \<in> {1, 2, 4}" and "off + sz * n \<le> length page"
  shows "io_out_loop tbl sz port n (int off) page s =
     ebind (bus_run tbl (map (out_access sz port) (elements sz n (drop off page))) s) (\<lambda>_. ret 0)"
  using assms(2)
proof (induction n arbitrary: off s)
  case (Suc n)
  then have "off + sz + sz * n \<le> length page" and o: "off + sz \<le> length page" by simp_all
  from Suc.IH [OF this(1)]
  have step: "io_out_loop tbl sz port n (int off + int sz) page = (\<lambda>s.
      ebind (bus_run tbl (map (out_access sz port) (elements sz n (drop sz (drop off page)))) s) (\<lambda>_. ret 0))"
    by (intro ext) (simp add: add.commute)
  show ?case
    by (simp only: io_out_loop.simps(2) nat_int out_step [OF assms(1) o] step ebind_assoc ebind_simps(2)
        elements.simps(2) list.map run_with.simps(2))
qed simp

definition page_put :: "nat \<Rightarrow> uint8 list \<Rightarrow> uint8 list \<Rightarrow> uint8 list" where
  "page_put off bs page = take off page @ bs @ drop (off + length bs) page"

lemma page_put_put:
  "off + length bs \<le> length page \<Longrightarrow>
     page_put (off + length bs) cs (page_put off bs page) = page_put off (bs @ cs) page"
  by (cases bs) (auto simp: page_put_def min_def ac_simps not_le)

lemma length_page_put: "off + length bs \<le> length page \<Longrightarrow> length (page_put off bs page) = length page"
  by (simp add: page_put_def)

lemma page_store_run:
  assumes "off + n \<le> length page" and "8 * n = LENGTH('a)" and "n \<le> 4"
  shows "page_store n (int off) page (m :: ('s, 'a::len word) effect) =
     ebind (widen m) (\<lambda>v. ret (page_put off (le_bytes n v) page))"
proof -
  have "le_bytes n (ucast w :: uint32) = le_bytes n w" for w :: "'a word"
    using assms(2,3) by (intro le_bytes_ucast) simp_all
  moreover have "wr_bytes page (int off) (le_bytes n w) = Inr (page_put off (le_bytes n w) page)"
    for w :: "'a word" using assms(1) by (simp add: wr_bytes_def in_range_def page_put_def)
  ultimately show ?thesis by (simp add: page_store_def widen_def ebind_assoc)
qed

lemma in_step:
  assumes "sz \<in> {1, 2, 4}" and "off + sz \<le> length page"
  shows "(if sz = 1 then page_store 1 (int off) page (io_inb tbl port s)
          else if sz = 2 then page_store 2 (int off) page (io_inw tbl port s)
          else if sz = 4 then page_store 4 (int off) page (io_inl tbl port s)
          else assert_failed) =
     ebind (bus_access tbl (in_access sz port) s) (\<lambda>v. ret (page_put off (le_bytes sz v) page))"
  using assms page_store_run [of off 1 page "io_inb tbl port s"]
    page_store_run [of off 2 page "io_inw tbl port s"] page_store_run [of off 4 page "io_inl tbl port s"]
  by (auto simp: in_access_def)

lemma io_in_loop_run:
  assumes "sz \<in> {1, 2, 4}" and "off + sz * n \<le> length page"
  shows "io_in_loop tbl sz port n (int off) page s =
     ebind (bus_run tbl (replicate n (in_access sz port)) s)
       (\<lambda>vs. ret (0, page_put off (concat (map (le_bytes sz) vs)) page))"
  using assms(2)
proof (induction n arbitrary: off page s)
  case 0
  then show ?case by (simp add: page_put_def)
next
  case (Suc n)
  then have o: "off + sz \<le> length page" by simp
  have step: "io_in_loop tbl sz port n (int off + int sz) (page_put off (le_bytes sz v) page) = (\<lambda>s.
      ebind (bus_run tbl (replicate n (in_access sz port)) s)
       (\<lambda>vs. ret (0, page_put off (le_bytes sz v @ concat (map (le_bytes sz) vs)) page)))"
    for v :: uint32
  proof
    fix s
    have "off + sz + sz * n \<le> length (page_put off (le_bytes sz v) page)"
      using Suc.prems by (subst length_page_put) simp_all
    from Suc.IH [OF this, of s]
    show "io_in_loop tbl sz port n (int off + int sz) (page_put off (le_bytes sz v) page) s =
      ebind (bus_run tbl (replicate n (in_access sz port)) s)
       (\<lambda>vs. ret (0, page_put off (le_bytes sz v @ concat (map (le_bytes sz) vs)) page))"
      using page_put_put [of off "le_bytes sz v" page] Suc.prems by simp
  qed
  show ?case
    by (simp only: io_in_loop.simps(2) in_step [OF assms(1) o] step ebind_assoc ebind_simps(2)
        replicate_Suc run_with.simps(2) list.map concat.simps)
qed

lemma handle_io_string:
  assumes "unat (io_size k) \<in> {1, 2, 4}"
    and "unat (data_offset k) + unat (io_size k) * unat (io_count k) \<le> length (run_page k)"
  shows "handle_io tbl k s =
     ebind (bus_run tbl (string_accesses k) s) (\<lambda>vs. ret (0, string_page k vs))"
proof (cases "io_out k")
  case True
  with io_out_loop_run [OF assms, of tbl "io_port k" s] show ?thesis
    by (simp add: handle_io_def string_accesses_def string_page_def Let_def ebind_assoc)
next
  case False
  with io_in_loop_run [OF assms, of tbl "io_port k" s] show ?thesis
    by (simp add: handle_io_def string_accesses_def string_page_def Let_def page_put_def)
qed

text \<open>
  C7: string instructions. For an operand of 1, 2 or 4 bytes and a count whose data lies
  inside the shared page, \<open>handle_io\<close> makes exactly the single accesses of that width, in
  order, with the bytes of the page as the values put out; the values read are in the page
  afterwards one after the other, and the rest of the page is unchanged. A fault of one
  access is the fault of the whole exit.
\<close>

theorem string_io:
  assumes "unat (io_size k) \<in> {1, 2, 4}"
    and "unat (data_offset k) + unat (io_size k) * unat (io_count k) \<le> length (run_page k)"
  shows "handle_io tbl k s =
     ebind (bus_run tbl (string_accesses k) s) (\<lambda>vs. ret (0, string_page k vs))"
  using assms by (rule handle_io_string)

text \<open>Two bytes put out to the SeaBIOS debug port of the machine.\<close>

theorem string_io_witness:
  "handle_io [biosdebug_hdl] \<lparr> io_out = True, io_size = 1, io_port = 0x402, io_count = 2,
      data_offset = 1, run_page = [0, 0x48, 0x69] \<rparr> () =
     emit [Put_Char 0x48, Put_Char 0x69] (0, [0, 0x48, 0x69]) ()"
proof -
  let ?k = "\<lparr> io_out = True, io_size = 1, io_port = 0x402, io_count = 2,
      data_offset = 1, run_page = [0, 0x48, 0x69] \<rparr>"
  have "elements 1 2 [0x48, 0x69] = [[0x48], [0x69 :: uint8]]" by (simp add: numeral_2_eq_2)
  then have acc: "string_accesses ?k = [Out8 0x402 0x48, Out8 0x402 0x69]"
    by (simp add: string_accesses_def out_access_def)
  have "handle_io [biosdebug_hdl] ?k () =
      ebind (bus_run [biosdebug_hdl] (string_accesses ?k) ()) (\<lambda>vs. ret (0, string_page ?k vs))"
    by (rule string_io) simp_all
  also have "\<dots> = emit [Put_Char 0x48, Put_Char 0x69] (0, [0, 0x48, 0x69]) ()"
    unfolding acc by (simp add: string_page_def
        io_outb_def io_match_def biosdebug_hdl_def biosdebug_outb_def ebind_emit)
  finally show ?thesis .
qed

end
