(* ===== verification/Machine_Runs.thy ===== *)
theory Machine_Runs
  imports Vcpu_Io
begin

text \<open>
  Guest accesses on the whole machine. Accesses to the ports of one device run on that device
  alone (\<open>bus_run_lift\<close>), so what is proved of a device on its own holds on the machine;
  the disk read by \<^verbatim>\<open>rep insw\<close> is worked out. Each access changes the state of the device that
  owns the port and nothing else, and only the floppy controller, the disk controller and
  the keyboard controller drive an interrupt line, each its own.
\<close>

subsection \<open>Runs on one device\<close>

lemma lift_effect_ebind:
  assumes "\<And>s m. get (put s m) = s" and "\<And>s t m. put s (put t m) = put s m"
  shows "ebind (lift_effect get put f m) (\<lambda>v. lift_effect get put (g v)) =
     lift_effect get put (\<lambda>s. ebind (f s) g) m"
  by (auto simp: lift_effect_def ebind_def assms split: sum.splits prod.splits)

lemma bus_run_lift:
  assumes own: "\<And>a. a \<in> set as \<Longrightarrow> lookup_handler tbl (access_port a) = Some (lift_handler get put h)"
    and gp: "\<And>s m. get (put s m) = s" and pp: "\<And>s t m. put s (put t m) = put s m"
    and pg: "\<And>m. put (get m) m = m"
  shows "bus_run tbl as m = lift_effect get put (handler_run h as) m"
  using own
proof (induction as arbitrary: m)
  case Nil
  then show ?case by (simp add: lift_effect_def emit_def pg)
next
  case (Cons a as)
  have ret: "ret x = lift_effect get put (ret x)" for x :: 'c
    by (intro ext) (simp add: lift_effect_def emit_def pg)
  have tail: "(\<lambda>s1. ebind (bus_run tbl as s1) (\<lambda>vs. ret (v # vs))) =
      lift_effect get put (\<lambda>s1. ebind (handler_run h as s1) (\<lambda>vs. ret (v # vs)))" for v
  proof
    fix s1
    have "bus_run tbl as s1 = lift_effect get put (handler_run h as) s1" using Cons by simp
    then show "ebind (bus_run tbl as s1) (\<lambda>vs. ret (v # vs)) =
        lift_effect get put (\<lambda>s1. ebind (handler_run h as s1) (\<lambda>vs. ret (v # vs))) s1"
      by (auto simp: lift_effect_def ebind_def emit_def split: sum.splits prod.splits)
  qed
  have "bus_access tbl a m = lift_effect get put (handler_access h a) m"
    using bus_access_handler [OF Cons.prems [of a]] handler_access_lift by simp
  then show ?case
    by (simp add: tail lift_effect_ebind [OF gp pp])
qed

lemma ata_ports_owner:
  assumes "0x1F0 \<le> unat p" and "unat p < 0x1F8"
  shows "lookup_handler machine_table p =
     Some (lift_handler m_ata (\<lambda>s m. m\<lparr>m_ata := s\<rparr>) ata_hdl)"
proof -
  have "port_owner (unat p) = Some IO_ATA" unfolding port_owner_Some using assms by simp
  then show ?thesis by (simp add: lookup_machine)
qed

lemma ata_run_machine:
  assumes "\<And>a. a \<in> set as \<Longrightarrow> 0x1F0 \<le> unat (access_port a) \<and> unat (access_port a) < 0x1F8"
  shows "bus_run machine_table as m = lift_effect m_ata (\<lambda>s m. m\<lparr>m_ata := s\<rparr>) (handler_run ata_hdl as) m"
  by (rule bus_run_lift) (use assms ata_ports_owner in auto)

subsection \<open>A sector read by a string instruction\<close>

lemma bytes_words_bytes: "even (length bs) \<Longrightarrow> bytes_of_words (words_of_bytes bs) = bs"
proof (induction bs rule: words_of_bytes.induct)
  case (1 a b bs)
  have "le_bytes (length [a, b]) (le_word [a, b] :: uint16) = [a, b]"
    by (rule le_bytes_le_word) simp
  then have "le_bytes 2 (le_word [a, b] :: uint16) = [a, b]" by (simp add: numeral_2_eq_2)
  with 1 show ?case by (simp del: le_word.simps)
qed simp_all

lemma bytes_of_words_concat: "concat (map (le_bytes 2 \<circ> (ucast :: uint16 \<Rightarrow> uint32)) ws) = bytes_of_words ws"
  by (induction ws) (simp_all add: le_bytes_ucast)

lemma run_with_length: "run_with step as s = Inr (vs, s', es) \<Longrightarrow> length vs = length as"
  by (induction as arbitrary: s vs es) (auto simp: ebind_Inr)

text \<open>The accesses of a read command up to the data phase, and the exit of the \<^verbatim>\<open>rep insw\<close>.\<close>

definition read_setup :: "uint8 \<Rightarrow> uint8 \<Rightarrow> uint8 \<Rightarrow> uint8 \<Rightarrow> uint8 \<Rightarrow> access list" where
  "read_setup dh n sn cl ch = ata_address dh n sn cl ch @ [Out8 0x1F7 0x20]"

lemma read_setup_split:
  "ata_read dh n sn cl ch = read_setup dh n sn cl ch @ replicate (256 * unat n) (In16 0x1F0)"
  by (simp add: ata_read_def read_setup_def)

lemma ata_read_ports:
  "a \<in> set (ata_read dh n sn cl ch) \<Longrightarrow> 0x1F0 \<le> unat (access_port a) \<and> unat (access_port a) < 0x1F8"
  by (auto simp: ata_read_def ata_address_def split: if_splits)

text \<open>
  C5: the guest reads the disk. On any machine satisfying the invariant, the six port writes
  of a read command followed by one \<^verbatim>\<open>rep insw\<close> exit of \<open>256 * n\<close> words put the addressed bytes
  of the image, padded with zeros at its end, at the data offset of the page, raise interrupt
  14 and change nothing but the disk controller, whose image is the same.
\<close>

theorem machine_disk_read:
  assumes wf: "machine_wf rom ram m"
    and dh: "drop_bit 4 dh AND 1 = 0" "drop_bit 6 dh AND 1 = 1 \<or> sn \<noteq> 0" and n: "n \<noteq> 0"
    and k: "\<not> io_out k" "io_size k = 2" "io_port k = 0x1F0" "unat (io_count k) = 256 * unat n"
    and page: "unat (data_offset k) + 512 * unat n \<le> length (run_page k)"
  shows "\<exists>c. ebind (bus_run machine_table (read_setup dh n sn cl ch) m)
        (\<lambda>_. handle_io machine_table k) =
      emit [Irq_Set 14 0, Irq_Set 14 0, Irq_Set 14 1]
        (0, page_put (unat (data_offset k)) (overlay (replicate (unat n * 512) 0)
           (file_read (backingfile (master (m_ata m))) (512 * sector_nat dh ch cl sn) (unat n * 512)))
          (run_page k)) (m\<lparr>m_ata := c\<rparr>) \<and>
    backingfile (master c) = backingfile (master (m_ata m))"
proof -
  let ?b = "overlay (replicate (unat n * 512) 0)
     (file_read (backingfile (master (m_ata m))) (512 * sector_nat dh ch cl sn) (unat n * 512))"
  let ?vs = "map ucast (words_of_bytes ?b) :: uint32 list"
  have len: "length ?b = unat n * 512" by (simp add: file_read_def)
  have "ata_wf (m_ata m)" using wf by (simp add: machine_wf_def)
  from ata_read_run [OF this dh n, of cl ch] obtain c where
    c: "handler_run ata_hdl (ata_read dh n sn cl ch) (m_ata m) =
      emit [Irq_Set 14 0, Irq_Set 14 0, Irq_Set 14 1] (replicate 6 0 @ ?vs) c"
    "backingfile (master c) = backingfile (master (m_ata m))" by blast
  have run: "bus_run machine_table (ata_read dh n sn cl ch) m =
      emit [Irq_Set 14 0, Irq_Set 14 0, Irq_Set 14 1] (replicate 6 0 @ ?vs) (m\<lparr>m_ata := c\<rparr>)"
    using ata_run_machine [OF ata_read_ports] c(1) by simp
  have sz: "unat (io_size k) \<in> {1, 2, 4}" "unat (data_offset k) + unat (io_size k) * unat (io_count k) \<le> length (run_page k)"
    using page by (simp_all add: k(2,4))
  have acc: "string_accesses k = replicate (256 * unat n) (In16 0x1F0)"
    using k by (simp add: string_accesses_def in_access_def)
  have put: "string_page k ?vs = page_put (unat (data_offset k)) ?b (run_page k)"
    using len by (simp add: string_page_def k(1,2) page_put_def Let_def bytes_of_words_concat
        bytes_words_bytes)
  obtain es1 vs1 m1 es2 vs2 where
    s: "bus_run machine_table (read_setup dh n sn cl ch) m = Inr (vs1, m1, es1)"
    "bus_run machine_table (replicate (256 * unat n) (In16 0x1F0)) m1 = Inr (vs2, m\<lparr>m_ata := c\<rparr>, es2)"
    "vs1 @ vs2 = replicate 6 0 @ ?vs" "es1 @ es2 = [Irq_Set 14 0, Irq_Set 14 0, Irq_Set 14 1]"
    using run unfolding read_setup_split run_with_append emit_def ebind_Inr by auto
  have "length vs1 = 6"
    using run_with_length [OF s(1)] by (simp add: read_setup_def ata_address_def)
  then have "vs2 = ?vs" using s(3) by (simp add: append_eq_append_conv)
  then have "ebind (bus_run machine_table (read_setup dh n sn cl ch) m) (\<lambda>_. handle_io machine_table k) =
     Inr ((0, page_put (unat (data_offset k)) ?b (run_page k)), m\<lparr>m_ata := c\<rparr>,
       [Irq_Set 14 0, Irq_Set 14 0, Irq_Set 14 1])"
    using s handle_io_string [OF sz, of machine_table m1] by (auto simp: acc put ebind_def emit_def)
  with c(2) show ?thesis by (auto simp: emit_def)
qed

subsection \<open>Which device drives which line\<close>

text \<open>Every event of an operation that returns satisfies \<open>P\<close>.\<close>

definition emits :: "(event \<Rightarrow> bool) \<Rightarrow> ('s, 'a) effect \<Rightarrow> bool" where
  "emits P m \<longleftrightarrow> (\<forall>v s es. m = Inr (v, s, es) \<longrightarrow> (\<forall>e \<in> set es. P e))"

lemma emits_simps [simp]:
  "emits P (Inl f)" "emits P (emit es v s) \<longleftrightarrow> (\<forall>e \<in> set es. P e)"
  "emits P (widen m) \<longleftrightarrow> emits P m" "emits P (silent m') \<longleftrightarrow> emits P m'"
  "emits P (lift_effect get put g x) \<longleftrightarrow> emits P (g (get x))"
  by (auto simp: emits_def emit_def widen_Inr silent_Inr lift_effect_Inr)

lemma emits_ebind: "emits P m \<Longrightarrow> (\<And>v s. emits P (f v s)) \<Longrightarrow> emits P (ebind m f)"
  by (fastforce simp: emits_def ebind_Inr)

lemma emits_if: "(b \<Longrightarrow> emits P x) \<Longrightarrow> (\<not> b \<Longrightarrow> emits P y) \<Longrightarrow> emits P (if b then x else y)"
  by simp

lemma emits_rbind: "(\<And>x. m = Inr x \<Longrightarrow> emits P (f x)) \<Longrightarrow> emits P (rbind m f)"
  by (cases m) simp_all

definition handler_emits :: "(event \<Rightarrow> bool) \<Rightarrow> 's io_handler \<Rightarrow> bool" where
  "handler_emits P h \<longleftrightarrow> (\<forall>a s. emits P (handler_access h a s))"

lemma handler_emits_lift: "handler_emits P h \<Longrightarrow> handler_emits P (lift_handler get put h)"
  by (simp add: handler_emits_def handler_access_lift)

lemma handler_emitsI:
  assumes "\<And>f p s. inb h = Some f \<Longrightarrow> emits P (f p s)" "\<And>f p s. inw h = Some f \<Longrightarrow> emits P (f p s)"
    "\<And>f p s. inl h = Some f \<Longrightarrow> emits P (f p s)" "\<And>f p v s. outb h = Some f \<Longrightarrow> emits P (f p v s)"
    "\<And>f p v s. outw h = Some f \<Longrightarrow> emits P (f p v s)" "\<And>f p v s. outl h = Some f \<Longrightarrow> emits P (f p v s)"
  shows "handler_emits P h"
  unfolding handler_emits_def
proof (intro allI)
  fix a s show "emits P (handler_access h a s)"
    using assms by (cases a) (auto split: option.splits)
qed

lemma cmos_emits: "handler_emits (\<lambda>e. False) cmos_hdl"
  by (rule handler_emitsI) (auto simp: cmos_hdl_def cmos_defs split: if_splits)

lemma ps2pos_emits: "handler_emits (\<lambda>e. False) ps2pos_hdl"
  by (rule handler_emitsI) (auto simp: ps2pos_hdl_def ps2pos_defs split: if_splits)

lemma simple_emits:
  "handler_emits (\<lambda>e. \<exists>c. e = Put_Char c) biosdebug_hdl" "handler_emits (\<lambda>e. False) (serport_hdl b)"
  "handler_emits (\<lambda>e. False) (parport_hdl b)" "handler_emits (\<lambda>e. False) vgadbg_hdl"
  "handler_emits (\<lambda>e. False) vbe_hdl"
  by (rule handler_emitsI; auto simp: biosdebug_hdl_def serport_hdl_def parport_hdl_def vgadbg_hdl_def
      vbe_hdl_def simple_port_defs split: if_splits)+

lemma dma_emits: "handler_emits (\<lambda>e. False) (dma_hdl b k)" "handler_emits (\<lambda>e. False) dma_page_hdl"
  by (rule handler_emitsI; auto simp: dma_hdl_def dma_page_hdl_def dma_defs Let_def split: if_splits)+

lemma qemu_emits: "handler_emits (\<lambda>e. False) qemu_hdl"
  by (rule handler_emitsI)
     (auto simp: qemu_hdl_def qemupara_inb_def qemupara_outw_def put_buff_def Let_def
       split: if_splits intro: emits_rbind)

lemma vga_emits: "handler_emits (\<lambda>e. False) (vga_hdl b)"
proof -
  have r: "emits P (arr_rd xs i k)" if "\<And>v. emits P (k v)" for P xs i and k :: "uint8 \<Rightarrow> ('s, uint8) effect"
    using that by (simp add: arr_rd_def)
  have w: "emits P (arr_wr xs i v k)" if "\<And>ys. emits P (k ys)" for P xs i v and k :: "uint8 list \<Rightarrow> ('s, unit) effect"
    using that by (simp add: arr_wr_def)
  have "emits (\<lambda>e. False) (vgareg_outb b p v c)" for p v c
    by (auto simp: vgareg_outb_def vga_defs Let_def intro: w)
  then have "emits (\<lambda>e. False) (vgareg_outw b p v c)" for p v c
    by (auto simp: vgareg_outw_def Let_def intro: emits_ebind)
  moreover have "emits (\<lambda>e. False) (vgareg_inb b p c)" for p c
    by (auto simp: vgareg_inb_def vga_defs Let_def intro: r)
  ultimately show ?thesis
    by (intro handler_emitsI) (auto simp: vga_hdl_def \<open>\<And>p v c. emits _ (vgareg_outb b p v c)\<close>)
qed

lemma kbd_emits: "handler_emits (\<lambda>e. \<exists>l. e = Irq_Set 1 l) kbd_hdl"
proof -
  let ?P = "\<lambda>e. \<exists>l. e = Irq_Set 1 l"
  have cmd: "emits ?P (handle_command c r)" "emits ?P (handle_kbd_command c r)"
    "emits ?P (handle_command_withparams c ps r)" "emits ?P (handle_kbd_command_withparams c ps r)"
    for c ps r
    unfolding handle_command_def handle_kbd_command_def handle_command_withparams_def
      handle_kbd_command_withparams_def by (intro emits_if; simp)+
  have "emits ?P (kbd_outb b p v r)" for b p v r
    unfolding kbd_outb_def Let_def
    by (intro emits_if) (auto intro!: emits_ebind emits_if simp: cmd [simplified] split: sum.split)
  moreover have "emits ?P (kbd_inb b p r)" for b p r
    by (simp add: kbd_inb_def Let_def split: sum.split)
  ultimately show ?thesis
    by (intro handler_emitsI) (auto simp: kbd_hdl_def kbd_inw_def kbd_inl_def kbd_outw_def kbd_outl_def)
qed

lemma floppy_emits: "handler_emits (\<lambda>e. \<exists>l. e = Irq_Set 6 l) floppy_hdl"
proof -
  have "emits (\<lambda>e. \<exists>l. e = Irq_Set 6 l) (doExecuteCommand s)" for s
    by (simp add: doExecuteCommand_def fdc_read_data_def Let_def split: option.split sum.split)
  then have "emits (\<lambda>e. \<exists>l. e = Irq_Set 6 l) (fifo_put v s)" for v s
    by (simp add: fifo_put_def Let_def)
  then have "emits (\<lambda>e. \<exists>l. e = Irq_Set 6 l) (fifo_write v s)" for v s
    by (simp add: fifo_write_def split: option.split)
  then show ?thesis
    by (intro handler_emitsI)
       (auto simp: floppy_hdl_def floppy_outb_def floppy_inb_def fifo_get_def Let_def split: if_splits)
qed

lemma ata_emits: "handler_emits (\<lambda>e. \<exists>l. e = Irq_Set 14 l) ata_hdl"
proof -
  let ?P = "\<lambda>e. \<exists>l. e = Irq_Set 14 l"
  have reset: "emits ?P (do_softreset c)" for c
    by (auto simp: do_softreset_def split: option.split intro!: emits_rbind)
  have cmd: "emits ?P (do_command v c)" for v c
    unfolding do_command_def
    by (rule emits_ebind) (simp_all add: cmd_recalibrate_def cmd_write_sectors_def cmd_read_sectors_def
      cmd_identify_device_def cmd_identify_packet_device_def cmd_initialize_device_parameters_def
      Let_def reset)
  have "emits ?P (pio_outb p v c)" for p v c
    unfolding pio_outb_def by (intro emits_if emits_ebind) (simp_all add: reset cmd)
  moreover have "emits ?P (pio_inw p c)" for p c
    by (auto simp: pio_inw_def split: option.split intro!: emits_rbind)
  moreover have "emits ?P (pio_outw p v c)" for p v c
    by (auto simp: pio_outw_def Let_def split: option.split intro!: emits_rbind)
  ultimately show ?thesis
    by (intro handler_emitsI) (auto simp: ata_hdl_def pio_inb_def)
qed

lemma pci_cfg_emits:
  "cfg_readb (machine_pci_ops p) = Some f1 \<Longrightarrow> emits (\<lambda>e. False) (f1 reg s)"
  "cfg_readw (machine_pci_ops p) = Some f2 \<Longrightarrow> emits (\<lambda>e. False) (f2 reg s)"
  "cfg_readl (machine_pci_ops p) = Some f3 \<Longrightarrow> emits (\<lambda>e. False) (f3 reg s)"
  "cfg_writeb (machine_pci_ops p) = Some g1 \<Longrightarrow> emits (\<lambda>e. False) (g1 reg v1 s)"
  "cfg_writew (machine_pci_ops p) = Some g2 \<Longrightarrow> emits (\<lambda>e. False) (g2 reg v2 s)"
  "cfg_writel (machine_pci_ops p) = Some g3 \<Longrightarrow> emits (\<lambda>e. False) (g3 reg v3 s)"
  by (auto simp: machine_pci_ops_def lift_pci_ops_def ata_pci_ops_def vgarom_pci_ops_def pciata_defs
      conf_reader_def pciata_writel_def vgarom_readb_def vgarom_readw_def vgarom_readl_def
      vgarom_writeb_def vgarom_writew_def vgarom_writel_def vgarom_conf_read_def Let_def
      intro!: emits_rbind emits_if split: if_splits)

lemma pci_emits: "handler_emits (\<lambda>e. False) (pci_hdl machine_pci_ops)"
  by (rule handler_emitsI)
     (auto simp: pci_defs pci_call_def Let_def pci_cfg_emits split: if_splits option.splits)

subsection \<open>What an access may change\<close>

text \<open>The part of the machine behind each device, and the events it may cause.\<close>

fun dev_frame :: "io_dev \<Rightarrow> machine \<Rightarrow> machine \<Rightarrow> bool" where
  "dev_frame IO_CMOS m m' \<longleftrightarrow> m' = m\<lparr>m_cmos := m_cmos m'\<rparr>"
| "dev_frame IO_PS2 m m' \<longleftrightarrow> m' = m\<lparr>m_ps2 := m_ps2 m'\<rparr>"
| "dev_frame IO_DMA0 m m' \<longleftrightarrow> m' = m\<lparr>m_dma := m_dma m'\<rparr>"
| "dev_frame IO_DMA1 m m' \<longleftrightarrow> m' = m\<lparr>m_dma := m_dma m'\<rparr>"
| "dev_frame IO_Page m m' \<longleftrightarrow> m' = m\<lparr>m_dma := m_dma m'\<rparr>"
| "dev_frame IO_PCI m m' \<longleftrightarrow> m' = m\<lparr>m_pci := m_pci m', m_rom := m_rom m', m_ata := m_ata m'\<rparr>"
| "dev_frame IO_QEMU m m' \<longleftrightarrow> m' = m\<lparr>m_qemu := m_qemu m'\<rparr>"
| "dev_frame IO_Kbd m m' \<longleftrightarrow> m' = m\<lparr>m_kbd := m_kbd m'\<rparr>"
| "dev_frame IO_VGA_C m m' \<longleftrightarrow> m' = m\<lparr>m_vga := m_vga m'\<rparr>"
| "dev_frame IO_VGA_D m m' \<longleftrightarrow> m' = m\<lparr>m_vga := m_vga m'\<rparr>"
| "dev_frame IO_Floppy m m' \<longleftrightarrow> m' = m\<lparr>m_fdc := m_fdc m', m_dma := m_dma m', m_mem := m_mem m'\<rparr>"
| "dev_frame IO_ATA m m' \<longleftrightarrow> m' = m\<lparr>m_ata := m_ata m'\<rparr>"
| "dev_frame d m m' \<longleftrightarrow> m' = m"

lemma frame_pci: "dev_frame d m m' \<Longrightarrow> d \<noteq> IO_PCI \<Longrightarrow> m_pci m' = m_pci m"
  by (cases d; simp; drule arg_cong [where f = m_pci]; simp)

lemma frame_kbd: "dev_frame d m m' \<Longrightarrow> d \<noteq> IO_Kbd \<Longrightarrow> m_kbd m' = m_kbd m"
  by (cases d; simp; drule arg_cong [where f = m_kbd]; simp)

definition dev_event :: "io_dev \<Rightarrow> event \<Rightarrow> bool" where
  "dev_event d e = (case e of Put_Char c \<Rightarrow> d = IO_Debug
     | Irq_Set n l \<Rightarrow> (d, n) \<in> {(IO_Kbd, 1), (IO_Floppy, 6), (IO_ATA, 14)})"

lemma handler_emits_mono: "handler_emits P h \<Longrightarrow> (\<And>e. P e \<Longrightarrow> Q e) \<Longrightarrow> handler_emits Q h"
  by (auto simp: handler_emits_def emits_def)

lemma handler_of_emits: "handler_emits (dev_event d) (handler_of d)"
proof -
  note all = cmos_emits ps2pos_emits simple_emits dma_emits qemu_emits vga_emits kbd_emits
    floppy_emits ata_emits pci_emits
  show ?thesis
    by (cases d; simp only: handler_of.simps x86_i8237_dma_init_nth x86_port_init_nth;
        rule handler_emits_lift; rule handler_emits_mono; (rule all)?; auto simp: dev_event_def)
qed

lemma handler_of_frame:
  assumes "handler_access (handler_of d) a m = Inr (v, m', es)"
  shows "dev_frame d m m'"
  using assms
  by (cases d) (auto simp: handler_access_lift lift_effect_Inr put_fsys_def put_pci_def)

lemma access_owned:
  assumes "bus_access machine_table a m = Inr (v, m', es)" and "port_owner (unat (access_port a)) = Some d"
  shows "handler_access (handler_of d) a m = Inr (v, m', es)" and "dev_frame d m m'"
    and "\<forall>e \<in> set es. dev_event d e"
proof -
  from assms(2) have "lookup_handler machine_table (access_port a) = Some (handler_of d)"
    by (simp add: lookup_machine)
  with assms(1) show acc: "handler_access (handler_of d) a m = Inr (v, m', es)"
    by (simp add: bus_access_handler)
  then show "\<forall>e \<in> set es. dev_event d e"
    using handler_of_emits [of d] by (auto simp: handler_emits_def emits_def)
  show "dev_frame d m m'" by (rule handler_of_frame [OF acc])
qed

lemma access_unowned:
  assumes "bus_access machine_table a m = Inr (v, m', es)" and "port_owner (unat (access_port a)) = None"
  shows "m' = m \<and> es = []"
proof -
  from assms(2) have "lookup_handler machine_table (access_port a) = None" by (simp add: lookup_machine)
  from bus_access_none [OF this, of m] obtain w where "bus_access machine_table a m = ret w m" by blast
  with assms(1) show ?thesis by (simp add: emit_def)
qed


text \<open>
  The device control port of the disk controller, \<open>0x3F6\<close>: the floppy controller owns it and
  has no register there, so resetting the disk or reading its alternate status aborts.
\<close>

lemma ata_control_shadowed:
  "bus_access machine_table (Out8 0x3F6 v) m = assert_failed"
  "bus_access machine_table (In8 0x3F6) m = assert_failed"
proof -
  have "port_owner (unat (0x3F6 :: uint16)) = Some IO_Floppy" unfolding port_owner_Some by simp
  then have l: "lookup_handler machine_table 0x3F6 = Some (handler_of IO_Floppy)"
    by (simp only: lookup_machine option.map)
  show "bus_access machine_table (Out8 0x3F6 v) m = assert_failed"
    "bus_access machine_table (In8 0x3F6) m = assert_failed"
    by (simp_all only: bus_access_handler access_port.simps l handler_of.simps handler_access_lift)
       (simp_all add: lift_effect_def floppy_hdl_def floppy_outb_def floppy_inb_def)
qed

end
