(* ===== verification/Machine_Reach.thy ===== *)
theory Machine_Reach
  imports Boot Machine_Runs
begin

text \<open>
  The running machine: any sequence of exits of the virtual CPU that return, key events of
  the viewer's window and ticks of the host's clock. An invariant of such runs is the locale
  \<open>run_invariant\<close>; it is interpreted for the well-formedness of all devices, for the PCI
  functions the guest finds, and for the keyboard controller, whose part of a run of the
  machine is a run of the controller on its own.
\<close>

inductive machine_run :: "machine \<Rightarrow> event list \<Rightarrow> machine \<Rightarrow> bool" for m0 where
  run_start: "machine_run m0 [] m0"
| run_turn: "machine_run m0 es m \<Longrightarrow> vcpu_turn machine_table x m = Inr (b, m', es') \<Longrightarrow>
     machine_run m0 (es @ es') m'"
| run_keys: "machine_run m0 es m \<Longrightarrow> viewer_events code evs (m_kbd m) = Inr (u, r, es') \<Longrightarrow>
     machine_run m0 (es @ es') (m\<lparr>m_kbd := r\<rparr>)"
| run_clock: "machine_run m0 es m \<Longrightarrow> machine_run m0 es (m\<lparr>m_cmos := (m_cmos m)\<lparr>wall := t\<rparr>\<rparr>)"

subsection \<open>A turn is a sequence of accesses\<close>

lemma silent_access:
  "io_outb tbl p v s = Inr (u, s', es) \<Longrightarrow> bus_access tbl (Out8 p v) s = Inr (0, s', es)"
  "io_outw tbl p w s = Inr (u, s', es) \<Longrightarrow> bus_access tbl (Out16 p w) s = Inr (0, s', es)"
  "io_outl tbl p l s = Inr (u, s', es) \<Longrightarrow> bus_access tbl (Out32 p l) s = Inr (0, s', es)"
  "io_inb tbl p s = Inr (b, s', es) \<Longrightarrow> bus_access tbl (In8 p) s = Inr (ucast b, s', es)"
  "io_inw tbl p s = Inr (x, s', es) \<Longrightarrow> bus_access tbl (In16 p) s = Inr (ucast x, s', es)"
  "io_inl tbl p s = Inr (y, s', es) \<Longrightarrow> bus_access tbl (In32 p) s = Inr (ucast y, s', es)"
  by (auto simp: silent_Inr widen_Inr)

lemma page_store_Inr:
  "page_store n off page m = Inr (p, s', es) \<Longrightarrow> \<exists>v. m = Inr (v, s', es)"
  by (auto simp: page_store_def ebind_Inr rbind_Inr)

text \<open>Whatever the operand size and the page, an exit that returns was a run of accesses.\<close>

lemma out_step_access:
  assumes "(if (sz :: nat) = 1 then data_load 1 page (\<lambda>v. io_outb tbl port v s)
     else if sz = 2 then data_load 2 page (\<lambda>v. io_outw tbl port v s)
     else if sz = 4 then data_load 4 page (\<lambda>v. io_outl tbl port v s)
     else assert_failed) = Inr (u, s', es)"
  shows "\<exists>a v. bus_access tbl a s = Inr (v, s', es)"
  using assms by (auto simp: data_load_Inr split: if_splits dest: silent_access simp del: bus_access.simps) 

lemma in_step_access:
  assumes "(if (sz :: nat) = 1 then page_store 1 off page (io_inb tbl port s)
     else if sz = 2 then page_store 2 off page (io_inw tbl port s)
     else if sz = 4 then page_store 4 off page (io_inl tbl port s)
     else assert_failed) = Inr (p, s', es)"
  shows "\<exists>a v. bus_access tbl a s = Inr (v, s', es)"
  using assms by (auto split: if_splits dest!: page_store_Inr dest: silent_access simp del: bus_access.simps)

lemma run_one_more:
  assumes "\<exists>a v. bus_access tbl a s = Inr (v, s1, es1)" and "\<exists>as vs. bus_run tbl as s1 = Inr (vs, s', es2)"
  shows "\<exists>as vs. bus_run tbl as s = Inr (vs, s', es1 @ es2)"
proof -
  from assms obtain a v as vs where "bus_access tbl a s = Inr (v, s1, es1)" "bus_run tbl as s1 = Inr (vs, s', es2)"
    by blast
  then have "bus_run tbl (a # as) s = Inr (v # vs, s', es1 @ es2)"
    by (simp add: ebind_Inr del: bus_access.simps)
  then show ?thesis by blast
qed

lemma io_out_loop_runs:
  "io_out_loop tbl sz port n off page s = Inr (x, s', es) \<Longrightarrow> \<exists>as vs. bus_run tbl as s = Inr (vs, s', es)"
proof (induction n arbitrary: off s es)
  case 0
  then show ?case by (intro exI [of _ "[]"]) auto
next
  case (Suc n)
  from Suc.prems [unfolded io_out_loop.simps(2) ebind_Inr] obtain u s1 es1 es2 where
    step: "(if sz = 1 then data_load 1 (drop (nat off) page) (\<lambda>v. io_outb tbl port v s)
      else if sz = 2 then data_load 2 (drop (nat off) page) (\<lambda>v. io_outw tbl port v s)
      else if sz = 4 then data_load 4 (drop (nat off) page) (\<lambda>v. io_outl tbl port v s)
      else assert_failed) = Inr (u, s1, es1)" and
    rest: "io_out_loop tbl sz port n (off + int sz) page s1 = Inr (x, s', es2)" "es = es1 @ es2"
    by blast
  from run_one_more [OF out_step_access [OF step] Suc.IH [OF rest(1)]] show ?case
    unfolding rest(2) .
qed

lemma io_in_loop_runs:
  "io_in_loop tbl sz port n off page s = Inr (x, s', es) \<Longrightarrow> \<exists>as vs. bus_run tbl as s = Inr (vs, s', es)"
proof (induction n arbitrary: off page s es)
  case 0
  then show ?case by (intro exI [of _ "[]"]) auto
next
  case (Suc n)
  from Suc.prems [unfolded io_in_loop.simps(2) ebind_Inr] obtain p s1 es1 es2 where
    step: "(if sz = 1 then page_store 1 off page (io_inb tbl port s)
      else if sz = 2 then page_store 2 off page (io_inw tbl port s)
      else if sz = 4 then page_store 4 off page (io_inl tbl port s)
      else assert_failed) = Inr (p, s1, es1)" and
    rest: "io_in_loop tbl sz port n (off + int sz) p s1 = Inr (x, s', es2)" "es = es1 @ es2"
    by blast
  from run_one_more [OF in_step_access [OF step] Suc.IH [OF rest(1)]] show ?case
    unfolding rest(2) .
qed

lemma handle_io_runs:
  "handle_io tbl k s = Inr (x, s', es) \<Longrightarrow> \<exists>as vs. bus_run tbl as s = Inr (vs, s', es)"
  by (auto simp: handle_io_def ebind_Inr split: if_splits dest: io_out_loop_runs io_in_loop_runs)

text \<open>An exit to a memory-mapped device changes that device only, and raises nothing.\<close>

lemma emits_lift_ops [simp]:
  "emits P (lift_read get put f b a m) \<longleftrightarrow> emits P (f b a (get m))"
  "emits P (lift_write get put g b a v m) \<longleftrightarrow> emits P (g b a v (get m))"
  by (auto simp: emits_def lift_read_Inr lift_write_Inr)

lemma write_planes_emits: "emits P (write_planes k p off bs c)"
  by (induction k arbitrary: p c) (auto intro: emits_rbind)

lemma mmio_ops_emit:
  "readb (machine_mmio_ops p) = Some f1 \<Longrightarrow> emits P (f1 b a m)"
  "readw (machine_mmio_ops p) = Some f2 \<Longrightarrow> emits P (f2 b a m)"
  "readl (machine_mmio_ops p) = Some f3 \<Longrightarrow> emits P (f3 b a m)"
  "readq (machine_mmio_ops p) = Some f4 \<Longrightarrow> emits P (f4 b a m)"
  "writeb (machine_mmio_ops p) = Some g1 \<Longrightarrow> emits P (g1 b a v1 m)"
  "writew (machine_mmio_ops p) = Some g2 \<Longrightarrow> emits P (g2 b a v2 m)"
  "writel (machine_mmio_ops p) = Some g3 \<Longrightarrow> emits P (g3 b a v3 m)"
  "writeq (machine_mmio_ops p) = Some g4 \<Longrightarrow> emits P (g4 b a v4 m)"
  by (auto simp: machine_mmio_ops_def lift_ops_def vram_ops_def vgarom_ops_def vram_defs vgarom_defs
      vram_read_def vram_write_def bios_read_def bios_write_def
      split: if_splits option.split intro!: emits_rbind write_planes_emits)

lemma emits_data [simp]:
  "(\<And>v. emits P (k v)) \<Longrightarrow> emits P (data_load n d k)"
  "emits P m \<Longrightarrow> emits P (data_store n d m)"
  by (auto simp: data_load_def data_store_def split: sum.split intro!: emits_ebind)

lemma handle_mmio_emits: "emits P (handle_mmio machine_region machine_mmio_ops machine_mmio k m)"
proof -
  have "emits P (mmio_write machine_region machine_mmio_ops machine_mmio a n d m)" for a n d
    by (auto simp: mmio_write_def Let_def mmio_ops_emit split: option.split intro!: emits_ebind emits_data)
  moreover have "emits P (mmio_read machine_region machine_mmio_ops machine_mmio a n d m)" for a n d
    by (auto simp: mmio_read_def Let_def mmio_ops_emit split: option.split intro!: emits_ebind emits_data)
  ultimately show ?thesis by (auto simp: handle_mmio_def intro!: emits_ebind)
qed

text \<open>The frame is an invariant of the memory bus.\<close>

lemma frame_swap: "\<exists>v r'. m\<lparr>m_rom := r, m_vga := s\<rparr> = m\<lparr>m_vga := v, m_rom := r'\<rparr>" for m :: machine
  by (intro exI [of _ s] exI [of _ r]) simp

interpretation mmio_frame: mmio_bus machine_mmio_ops machine_region
  "\<lambda>m. \<exists>v r. m = m0\<lparr>m_vga := v, m_rom := r\<rparr>" for m0
proof (rule mmio_bus.intro)
  fix p
  have t: "mmio_device vram_ops (\<lambda>_. True)" "mmio_device vgarom_ops (\<lambda>_. True)"
    by unfold_locales simp_all
  have "mmio_device (lift_ops m_vga (\<lambda>s m. m\<lparr>m_vga := s\<rparr>) vram_ops)
      (\<lambda>m. \<exists>v r. m = m0\<lparr>m_vga := v, m_rom := r\<rparr>)"
    by (rule mmio_device_lift [OF t(1)]) (auto intro: frame_swap)
  moreover have "mmio_device (lift_ops m_rom (\<lambda>s m. m\<lparr>m_rom := s\<rparr>) vgarom_ops)
      (\<lambda>m. \<exists>v r. m = m0\<lparr>m_vga := v, m_rom := r\<rparr>)"
    by (rule mmio_device_lift [OF t(2)]) (simp, elim exE, simp, intro exI, rule refl)
  ultimately show "mmio_device (machine_mmio_ops p) (\<lambda>m. \<exists>v r. m = m0\<lparr>m_vga := v, m_rom := r\<rparr>)"
    by (simp add: machine_mmio_ops_def)
qed

lemma handle_mmio_frame:
  assumes "handle_mmio machine_region machine_mmio_ops machine_mmio k m = Inr (x, m', es)"
  shows "es = []" and "\<exists>v r. m' = m\<lparr>m_vga := v, m_rom := r\<rparr>"
proof -
  show "es = []" using handle_mmio_emits [of "\<lambda>e. False" k m] assms by (auto simp: emits_def)
  have "\<exists>v r. m = m\<lparr>m_vga := v, m_rom := r\<rparr>" by (intro exI [of _ "m_vga m"] exI [of _ "m_rom m"]) simp
  note inv = mmio_frame.mmio_write_inv [OF this] mmio_frame.mmio_read_inv [OF this]
  show "\<exists>v r. m' = m\<lparr>m_vga := v, m_rom := r\<rparr>"
    using assms by (auto simp: handle_mmio_def ebind_Inr split: if_splits dest!: inv)
qed

lemma handle_mmio_wf:
  assumes "machine_wf rom ram m"
    and "handle_mmio machine_region machine_mmio_ops machine_mmio k m = Inr (x, m', es)"
  shows "machine_wf rom ram m'"
  using assms
  by (auto simp: handle_mmio_def ebind_Inr split: if_splits
      dest: machine_mem.mmio_write_inv machine_mem.mmio_read_inv)

subsection \<open>Invariants of runs\<close>

locale run_invariant =
  fixes I :: "machine \<Rightarrow> event list \<Rightarrow> bool"
  assumes access: "I m es \<Longrightarrow> bus_access machine_table a m = Inr (v, m', es') \<Longrightarrow> I m' (es @ es')"
    and memory: "I m es \<Longrightarrow> handle_mmio machine_region machine_mmio_ops machine_mmio k m = Inr (x, m', es') \<Longrightarrow>
      I m' es"
    and key: "I m es \<Longrightarrow> kbd_inject sc down (m_kbd m) = Inr (u, r, es') \<Longrightarrow> I (m\<lparr>m_kbd := r\<rparr>) (es @ es')"
    and clock: "I m es \<Longrightarrow> I (m\<lparr>m_cmos := (m_cmos m)\<lparr>wall := t\<rparr>\<rparr>) es"
begin

lemma accesses: "I m es \<Longrightarrow> bus_run machine_table as m = Inr (vs, m', es') \<Longrightarrow> I m' (es @ es')"
proof (induction as arbitrary: m es vs es')
  case (Cons a as)
  then obtain v vs' m1 es1 es2 where "bus_access machine_table a m = Inr (v, m1, es1)"
    "bus_run machine_table as m1 = Inr (vs', m', es2)" "es' = es1 @ es2"
    by (auto simp: ebind_Inr simp del: bus_access.simps)
  with Cons.IH [OF access [OF Cons.prems(1)]] show ?case by simp
qed simp

lemma turn: "I m es \<Longrightarrow> vcpu_turn machine_table x m = Inr (b, m', es') \<Longrightarrow> I m' (es @ es')"
proof (induction machine_table x m rule: vcpu_turn.induct)
  case (2 k m)
  from 2(2) obtain y where "handle_io machine_table k m = Inr (y, m', es')"
    by (auto simp: ebind_Inr split: if_splits)
  from handle_io_runs [OF this] accesses [OF 2(1)] show ?case by blast
next
  case (4 k m)
  from 4(2) obtain y where "handle_mmio machine_region machine_mmio_ops machine_mmio k m = Inr (y, m', es')"
    by (auto simp: ebind_Inr split: if_splits)
  from memory [OF 4(1) this] handle_mmio_frame(1) [OF this] show ?case by simp
qed auto

lemma keys: "I m es \<Longrightarrow> viewer_events code evs (m_kbd m) = Inr (u, r, es') \<Longrightarrow> I (m\<lparr>m_kbd := r\<rparr>) (es @ es')"
proof (induction evs arbitrary: m es es')
  case (Cons ev evs)
  then obtain r1 es1 es2 where e: "viewer_event code ev (m_kbd m) = Inr ((), r1, es1)"
    "viewer_events code evs r1 = Inr (u, r, es2)" "es' = es1 @ es2"
    by (auto simp: ebind_Inr)
  have "I (m\<lparr>m_kbd := r1\<rparr>) (es @ es1)"
    using e(1) Cons.prems(1) key
    by (auto simp: viewer_event_def rbind_Inr split: sdl_event.splits option.splits)
  from Cons.IH [OF this] e(2,3) show ?case by simp
qed simp

theorem run: "machine_run m0 es m \<Longrightarrow> I m0 [] \<Longrightarrow> I m es"
  by (induction rule: machine_run.induct) (auto intro: turn keys clock)

end

subsection \<open>All devices stay well formed\<close>

interpretation wf_run: run_invariant "\<lambda>m es. machine_wf rom ram m" for rom ram
proof (unfold_locales, goal_cases)
  case (1 m es a v m' es')
  then show ?case by (rule machine_io.bus_access_inv)
next
  case (2 m es k x m' es')
  then show ?case by (rule handle_mmio_wf)
next
  case (3 m es sc down u r es')
  then show ?case using kbd_wf_inject by (auto simp: machine_wf_def)
next
  case (4 m es t)
  then show ?case by (simp add: machine_wf_def cmos_wf_def)
qed

text \<open>The registered functions are a matter of the start only.\<close>

lemma pci_access_registered:
  assumes "handler_access (pci_hdl ops) a (b, s) = Inr (v, (b', s'), es)"
  shows "pci_registered ps b' = pci_registered ps b"
  using assms
  by (cases a)
     (auto simp: pci_defs pci_call_def Let_def widen_Inr silent_Inr lift_effect_Inr pci_registered_def
       split: if_splits option.splits)

interpretation pci_run: run_invariant "\<lambda>m es. pci_registered ps (m_pci m)" for ps
proof (unfold_locales, goal_cases)
  case (1 m es a v m' es')
  show ?case
  proof (cases "port_owner (unat (access_port a))")
    case None
    with access_unowned [OF 1(2)] 1(1) show ?thesis by simp
  next
    case (Some d)
    show ?thesis
    proof (cases "d = IO_PCI")
      case True
      with access_owned(1) [OF 1(2) Some] obtain s' where
        "handler_access (pci_hdl machine_pci_ops) a (m_pci m, m_rom m, m_ata m) = Inr (v, s', es')"
        "m' = put_pci s' m"
        by (auto simp: handler_access_lift lift_effect_Inr get_pci_def)
      then show ?thesis
        using pci_access_registered [of machine_pci_ops a "m_pci m" _ v "fst s'" "snd s'" es' ps] 1(1)
        by (simp add: put_pci_def)
    next
      case False
      with access_owned(2) [OF 1(2) Some] have "m_pci m' = m_pci m" by (rule frame_pci)
      with 1(1) show ?thesis by simp
    qed
  qed
next
  case (2 m es k x m' es')
  with handle_mmio_frame(2) [OF 2(2)] show ?case by auto
qed simp_all

text \<open>The requests of the keyboard controller among all the events of a run.\<close>

definition kbd_events :: "event list \<Rightarrow> event list" where
  "kbd_events = filter (\<lambda>e. \<exists>l. e = Irq_Set 1 l)"

lemma kbd_events_append: "kbd_events (es @ es') = kbd_events es @ kbd_events es'"
  by (simp add: kbd_events_def)

lemma kbd_events_other: "\<forall>e \<in> set es. dev_event d e \<Longrightarrow> d \<noteq> IO_Kbd \<Longrightarrow> kbd_events es = []"
  by (auto simp: kbd_events_def filter_empty_conv dev_event_def split: event.splits)

lemma kbd_events_own: "\<forall>e \<in> set es. dev_event IO_Kbd e \<Longrightarrow> kbd_events es = es"
  unfolding kbd_events_def filter_id_conv by (auto simp: dev_event_def split: event.splits) (metis event.exhaust)

lemma irq_level_kbd_events: "irq_level 1 l (kbd_events es) = irq_level 1 l es"
  by (induction es arbitrary: l) (auto simp: kbd_events_def irq_level_def split: event.splits)

interpretation kbd_run: run_invariant "\<lambda>m es. kbd_reach (m_kbd m) (kbd_events es)"
proof (unfold_locales, goal_cases)
  case (1 m es a v m' es')
  show ?case
  proof (cases "port_owner (unat (access_port a))")
    case None
    with access_unowned [OF 1(2)] 1(1) show ?thesis by simp
  next
    case (Some d)
    note own = access_owned [OF 1(2) Some]
    show ?thesis
    proof (cases "d = IO_Kbd")
      case True
      with own(1) obtain r where "handler_access kbd_hdl a (m_kbd m) = Inr (v, r, es')" "m' = m\<lparr>m_kbd := r\<rparr>"
        by (auto simp: handler_access_lift lift_effect_Inr)
      with kbd_access [OF 1(1)] own(3) True show ?thesis
        by (simp add: kbd_events_append kbd_events_own)
    next
      case False
      with 1(1) frame_kbd [OF own(2)] kbd_events_other [OF own(3)] show ?thesis
        by (simp add: kbd_events_append)
    qed
  qed
next
  case (2 m es k x m' es')
  with handle_mmio_frame(2) [OF 2(2)] show ?case by auto
next
  case (3 m es sc down u r es')
  from 3(2) have "kbd_events es' = es'" by (auto simp: kbd_inject_def kbd_events_def)
  with kbd_key [OF 3] show ?case by (simp add: kbd_events_append)
qed simp

subsection \<open>The program from its start\<close>

lemma started:
  assumes "host_ok h" and "vgabios_rom h = Some f" and "length f \<le> 0x20000" and "hdd_img h = Some img"
    and "devices_start h ram = Inr m0"
  shows "machine_wf (rom_image f) ram m0" and "pci_registered [False, True] (m_pci m0)"
  using devices_start_wf [OF assms(1-4), of ram] assms(5) by auto

lemma devices_start_kbd: "devices_start h ram = Inr m0 \<Longrightarrow> m_kbd m0 = x86_keyboard_init kbd_zero"
  by (auto simp: devices_start_def rbind_Inr)

text \<open>
  C9: the invariant of the machine. From the start of the devices on, whatever the guest
  executes, the user types and the clock shows, every state in which the program has not
  aborted satisfies the invariants of all devices, and the guest's configuration accesses
  reach exactly two PCI functions: device 0 of bus 0 is the VGA ROM, device 1 the disk
  controller.
\<close>

theorem machine_stays_wf:
  assumes "host_ok h" and "vgabios_rom h = Some f" and "length f \<le> 0x20000" and "hdd_img h = Some img"
    and "devices_start h ram = Inr m0" and "machine_run m0 es m"
  shows "machine_wf (rom_image f) ram m \<and>
    pci_getDevice (m_pci m) =
      (if pbus (m_pci m) = 0 \<and> pfn (m_pci m) = 0 \<and> unat (pdev (m_pci m)) < 2
       then Some ([False, True] ! unat (pdev (m_pci m))) else None)"
proof -
  note s = started [OF assms(1-5)]
  have "pci_registered [False, True] (m_pci m)" by (rule pci_run.run [OF assms(6) s(2)])
  from pci_registered_getDevice [OF this] wf_run.run [OF assms(6) s(1)] show ?thesis by simp
qed

text \<open>
  C10: the keyboard controller inside the machine. Its part of any run of the machine is a run of
  the controller on its own, with exactly the requests for line 1 among the machine's events;
  so line 1 is asserted only while the output buffer is flagged full and holds a byte.
\<close>

theorem machine_refines_keyboard:
  assumes "devices_start h ram = Inr m0" and "machine_run m0 es m"
  shows "kbd_reach (m_kbd m) (kbd_events es) \<and>
    (irq_level 1 False es \<longrightarrow> bit (kb_status (m_kbd m)) 0 \<and> 0 \<le> ndx_output (m_kbd m))"
proof -
  have "kbd_reach (m_kbd m0) (kbd_events [])"
    using kbd_start [of kbd_zero] by (simp add: devices_start_kbd [OF assms(1)] kbd_events_def)
  from kbd_run.run [OF assms(2) this] have "kbd_reach (m_kbd m) (kbd_events es)" .
  with kbd_irq_implies_output [OF this] show ?thesis unfolding irq_level_kbd_events by blast
qed

lemma sys_run_vcpu_run:
  "sys_run_vcpu machine_table xs m = Inr (b, m', es') \<Longrightarrow> machine_run m0 es m \<Longrightarrow>
     machine_run m0 (es @ es') m'"
proof (induction xs arbitrary: m es es')
  case (Cons x xs)
  then obtain b1 m1 es1 where x: "vcpu_turn machine_table x m = Inr (b1, m1, es1)"
    "(if b1 then ret True m1 else sys_run_vcpu machine_table xs m1) = Inr (b, m', drop (length es1) es')"
    "es' = es1 @ drop (length es1) es'"
    by (auto simp: ebind_Inr)
  note r = run_turn [OF Cons.prems(2) x(1)]
  show ?case
  proof (cases b1)
    case True
    with x r show ?thesis by (auto simp: emit_def)
  next
    case False
    with x Cons.IH [OF _ r, of "drop (length es1) es'"] show ?thesis by (metis append.assoc)
  qed
qed simp

lemma vcpu_turn_done: "vcpu_turn tbl x m = Inr (b, m', es) \<Longrightarrow> b \<longleftrightarrow> (\<exists>r. x = Run_Error r)"
  by (cases x) (auto simp: ebind_Inr split: if_splits)

lemma sys_run_vcpu_done:
  "sys_run_vcpu tbl xs m = Inr (b, m', es) \<Longrightarrow> b \<longleftrightarrow> (\<exists>r. Run_Error r \<in> set xs)"
proof (induction xs arbitrary: m es)
  case (Cons x xs)
  then obtain b1 m1 es1 es2 where x: "vcpu_turn tbl x m = Inr (b1, m1, es1)"
    "(if b1 then ret True m1 else sys_run_vcpu tbl xs m1) = Inr (b, m', es2)"
    by (auto simp: ebind_Inr)
  note fin = vcpu_turn_done [OF x(1)]
  show ?case
  proof (cases b1)
    case True
    with x(2) fin show ?thesis by auto
  next
    case False
    with x(2) have "sys_run_vcpu tbl xs m1 = Inr (b, m', es2)" by simp
    from Cons.IH [OF this] fin False show ?thesis by auto
  qed
qed simp

lemma upto_failure_all: "\<forall>x \<in> set xs. snd x \<Longrightarrow> upto_failure xs = map fst xs"
  by (induction xs rule: upto_failure.induct) auto

text \<open>
  C14: the whole program. When the kernel accepts every call and the four files the program
  needs are there, \<open>main\<close> creates the system with exactly the calls of \<open>create_steps\<close> for one
  CPU, runs it from the start state of the devices, and returns 0, after closing the KVM
  device, exactly when an exit of the list is an error of \<^verbatim>\<open>KVM_RUN\<close> and no exit before it made
  the program abort; every state on the way is a state of \<open>machine_run\<close>.
\<close>

theorem main_outcome:
  assumes "host_ok h" and "seabios_rom h = Some g" and "length g \<le> 0x20000"
    and "vgabios_rom h = Some f" and "length f \<le> 0x20000" and "hdd_img h = Some img"
    and "\<forall>x \<in> set (create_steps v kvm 1). snd x" and "\<And>i. r_cpuid2 kvm i \<ge> 0" and "r_open kvm > 0"
  shows "\<exists>m0. devices_start h 0x200000000 = Inr m0 \<and>
    (case sys_run_vcpu machine_table exits m0 of
       Inl e \<Rightarrow> kvmulate_main v kvm h exits = Inl e
     | Inr (b, m, es) \<Rightarrow> (b \<longleftrightarrow> (\<exists>r. Run_Error r \<in> set exits)) \<and> machine_run m0 es m \<and>
         kvmulate_main v kvm h exits =
           Inr (if b then Some (0, map fst (create_steps v kvm 1) @ [Close_FD (r_open kvm), Free_VCPUs, Free_System])
                else None))"
proof -
  obtain mem where mem: "create_memory (Some g) (Some f) 8192 = Inr (Some mem)"
    "sys_ramsize mem = ram_end_of 8192"
    using create_memory_layout [OF assms(3,5), of 8192] by auto
  have ram: "ram_end_of 8192 = 0x200000000" by (simp add: ram_end_of_def)
  obtain m0 where m0: "devices_start h 0x200000000 = Inr m0"
    using devices_start_wf [OF assms(1,4,5,6)] by blast
  obtain s where s: "sys_create v kvm (Some g) (Some f) 8192 1 = Inr (Some s, map fst (create_steps v kvm 1))"
    "memory s = mem" "kvmfd s = r_open kvm"
    using sys_create_outcome [of v kvm 1 "Some g" "Some f" 8192] mem(1) assms(7) upto_failure_all [OF assms(7)] by auto
  have sys: "sys_create_devices v kvm h 8192 1 = Inr (Some (s, machine_table, m0), map fst (create_steps v kvm 1))"
    by (simp add: sys_create_devices_def assms(2,4) s(1,2) mem(2) ram m0 devices_register_all_table)
  have "kvmulate_main v kvm h exits = rbind (sys_run_vcpu machine_table exits m0) (\<lambda>(b, m, es).
      Inr (if b then Some (0, map fst (create_steps v kvm 1) @ [Close_FD (r_open kvm), Free_VCPUs, Free_System])
           else None))"
    using assms(9) by (simp add: kvmulate_main_def sys sys_run_def sys_destroy_def s(3) if_distrib cong: if_cong)
  with m0 show ?thesis
    using sys_run_vcpu_done sys_run_vcpu_run [OF _ run_start]
    by (intro exI [of _ m0]) (auto split: sum.split)
qed

subsection \<open>A concrete start\<close>

definition example_host :: host where
  "example_host = \<lparr> seabios_rom = Some [], vgabios_rom = Some [0x55, 0xAA], floppy_img = None,
     hdd_img = Some (replicate 512 0xAB), host_clock = example_tm, fresh_planes = planes_zero,
     fresh_dma_buffer = replicate 65536 0, fresh_low = lowmem_zero \<rparr>"

lemma example_host:
  "host_ok example_host" "seabios_rom example_host = Some []" "vgabios_rom example_host = Some [0x55, 0xAA]"
  "hdd_img example_host = Some (replicate 512 0xAB)"
proof -
  have "length planes_zero = 6 \<and> (\<forall>p < 6. length (planes_zero ! p) = 0x20000)"
    by (simp add: planes_zero_def)
  then show "host_ok example_host" by (simp add: host_ok_def example_host_def lowmem_wf_zero)
qed (simp_all add: example_host_def)

definition example_machine :: machine where
  "example_machine = (case devices_start example_host 0x200000000 of Inr m \<Rightarrow> m | Inl _ \<Rightarrow> undefined)"

lemma example_machine: "devices_start example_host 0x200000000 = Inr example_machine"
  and example_ata: "m_ata example_machine = ata_boot (replicate 512 0xAB)"
  using devices_start_wf [OF example_host(1,3) _ example_host(4), of "0x200000000"]
  by (auto simp: example_machine_def)

lemma example_machine_wf: "machine_wf (rom_image [0x55, 0xAA]) 0x200000000 example_machine"
  by (rule started(1) [OF example_host(1,3) _ example_host(4) example_machine]) simp

lemma example_key_run: "machine_run example_machine [Irq_Set 1 1]
   (example_machine\<lparr>m_kbd := keys_typed [(SDLK_a, 0x1E, True)] (m_kbd example_machine)\<rparr>)"
proof -
  have "viewer_events sdl12 [key_event sdl12 SDLK_a True] (m_kbd example_machine) =
      Inr ((), keys_typed [(SDLK_a, 0x1E, True)] (m_kbd example_machine), [Irq_Set 1 1])"
    using viewer_events_listed [OF sdl12_ok, of "[(SDLK_a, 0x1E, True)]" "m_kbd example_machine"]
    by (simp add: kssc_keys_def emit_def)
  from run_keys [OF run_start this] show ?thesis by simp
qed

text \<open>After a key press the machine is well formed, and the line and the flag are set.\<close>

theorem machine_stays_wf_witness:
  "machine_wf (rom_image [0x55, 0xAA]) 0x200000000
     (example_machine\<lparr>m_kbd := keys_typed [(SDLK_a, 0x1E, True)] (m_kbd example_machine)\<rparr>)"
  using machine_stays_wf [OF example_host(1,3) _ example_host(4) example_machine example_key_run] by simp

theorem machine_refines_keyboard_witness:
  "bit (kb_status (keys_typed [(SDLK_a, 0x1E, True)] (m_kbd example_machine))) 0"
  using machine_refines_keyboard [OF example_machine example_key_run] by simp

text \<open>The kernel accepts everything, the guest prints a character, and \<^verbatim>\<open>KVM_RUN\<close> fails.\<close>

theorem main_outcome_witness:
  "kvmulate_main 12 willing_kernel example_host
     [Exit_IO \<lparr> io_out = True, io_size = 1, io_port = 0x402, io_count = 0, data_offset = 0, run_page = [] \<rparr>,
      Run_Error 4] =
   Inr (Some (0, [Open_KVM, Get_API_Version, Create_VM, Set_TSS_Addr 0xfffbd000, Create_IRQChip, Create_PIT,
     Create_VCPU 0 0, Get_Mmap_Size 0, Mmap_VCPU 0 12288, Set_CPUID2 0, Close_FD 3, Free_VCPUs, Free_System]))"
proof -
  have steps: "create_steps 12 willing_kernel 1 = [(Open_KVM, True), (Get_API_Version, True), (Create_VM, True),
      (Set_TSS_Addr 0xfffbd000, True), (Create_IRQChip, True), (Create_PIT, True),
      (Create_VCPU 0 0, True), (Get_Mmap_Size 0, True), (Mmap_VCPU 0 12288, True), (Set_CPUID2 0, True)]"
    by (simp add: create_steps_def vcpu_steps_def willing_kernel_def)
  have w: "r_open willing_kernel = 3" "r_cpuid2 willing_kernel i \<ge> 0" for i
    by (simp_all add: willing_kernel_def)
  show ?thesis
    using main_outcome [OF example_host(1,2) _ example_host(3) _ example_host(4), of 12 willing_kernel
        "[Exit_IO \<lparr> io_out = True, io_size = 1, io_port = 0x402, io_count = 0, data_offset = 0, run_page = [] \<rparr>,
          Run_Error 4]"] w
    by (auto simp: steps [simplified] handle_io_def)
qed


text \<open>The boot sector of a disk of one sector.\<close>

theorem machine_disk_read_witness:
  "\<exists>m'. ebind (bus_run machine_table (read_setup 0xE0 1 0 0 0) example_machine)
      (\<lambda>_. handle_io machine_table \<lparr> io_out = False, io_size = 2, io_port = 0x1F0, io_count = 256,
         data_offset = 0, run_page = replicate 1024 0 \<rparr>) =
    emit [Irq_Set 14 0, Irq_Set 14 0, Irq_Set 14 1] (0, replicate 512 0xAB @ replicate 512 0) m'"
proof -
  have p: "drop_bit 4 (0xE0 :: uint8) AND 1 = 0" "drop_bit 6 (0xE0 :: uint8) AND 1 = 1 \<or> (0 :: uint8) \<noteq> 0"
    by (simp_all add: drop_bit_and_1)
  have s: "sector_nat 0xE0 0 0 0 = 0" by (simp add: sector_nat_def lba_nat_def drop_bit_and_1)
  have "page_put 0 (overlay (replicate 512 0) (file_read (replicate 512 0xAB) 0 512)) (replicate 1024 0) =
      replicate 512 0xAB @ replicate 512 (0 :: uint8)"
    by (simp add: page_put_def overlay_def file_read_def)
  then show ?thesis
    using machine_disk_read [OF example_machine_wf p, of 1
      "\<lparr> io_out = False, io_size = 2, io_port = 0x1F0, io_count = 256, data_offset = 0, run_page = replicate 1024 0 \<rparr>" 0 0]
    by (auto simp: example_ata s)
qed

end
