(* ===== verification/Machine_Safety.thy ===== *)
theory Machine_Safety
  imports Machine_Reach
begin

text \<open>
  What the guest can provoke: of all port accesses on a machine that satisfies the invariant,
  only those listed in \<open>wild_site\<close> can leave an array or go through a missing pointer, and
  only those in \<open>null_site\<close> call a missing function of a handler; every other access returns or
  fails an assertion of the program.
\<close>

subsection \<open>Accesses that return or assert\<close>

definition fine :: "fault + 'a \<Rightarrow> bool" where
  "fine m \<longleftrightarrow> (\<forall>e. m = Inl e \<longrightarrow> e = Assert_Failed)"

lemma fine_simps [simp]:
  "fine (emit es v s)" "fine (Inr x)" "fine (Inl e) \<longleftrightarrow> e = Assert_Failed"
  "fine (widen m) \<longleftrightarrow> fine m" "fine (silent n) \<longleftrightarrow> fine n"
  "fine (lift_effect get put f s) \<longleftrightarrow> fine (f (get s))"
  by (auto simp: fine_def emit_def widen_def silent_def ebind_Inl lift_effect_def split: sum.splits)

lemma fine_if: "(b \<Longrightarrow> fine x) \<Longrightarrow> (\<not> b \<Longrightarrow> fine y) \<Longrightarrow> fine (if b then x else y)"
  by simp

lemma fine_ebind: "fine m \<Longrightarrow> (\<And>v s es. m = Inr (v, s, es) \<Longrightarrow> fine (f v s)) \<Longrightarrow> fine (ebind m f)"
  by (auto simp: fine_def ebind_Inl)

lemma fine_rbind: "fine m \<Longrightarrow> (\<And>x. m = Inr x \<Longrightarrow> fine (f x)) \<Longrightarrow> fine (rbind m f)"
  by (cases m) simp_all

lemma fine_rd_bytes: "in_range xs i n \<Longrightarrow> fine (rd_bytes xs i n)"
  by (simp add: rd_bytes_def)

lemma fine_wr_bytes: "in_range xs i (length bs) \<Longrightarrow> fine (wr_bytes xs i bs)"
  by (simp add: wr_bytes_def)

lemma fine_tame: "fine m \<Longrightarrow> m \<noteq> Inl Null_Call"
  by (auto simp: fine_def)

subsection \<open>Sites\<close>

definition wild_site :: "machine \<Rightarrow> access \<Rightarrow> bool" where
  "wild_site m a = (case a of
     In8 p \<Rightarrow> p \<in> {0x07, 0xCE, 0xCF} \<or>
       p = 0x3C9 \<and> 768 \<le> unat (pel_read_addr (m_vga m)) \<or> p = 0x3F5 \<and> fifondx (m_fdc m) = 522
   | Out8 p v \<Rightarrow> p \<in> {0x07, 0xCE, 0xCF, 0x8F, 0x3F5} \<or>
       p = 0x3C9 \<and> 768 \<le> unat (pel_write_addr (m_vga m)) \<or>
       p = 0x1F7 \<and> v = 0xEC \<and> dtype (cur (m_ata m)) = ATA_DVDRom
   | In16 p \<Rightarrow> p = 0x1F0 \<and> (case readBuffer (cur (m_ata m)) of None \<Rightarrow> True
       | Some b \<Rightarrow> \<not> in_range b (readBufferOffset (cur (m_ata m))) 2)
   | Out16 p v \<Rightarrow> p = 0x1F0 \<and> (case writeBuffer (cur (m_ata m)) of None \<Rightarrow> True
       | Some b \<Rightarrow> \<not> in_range b (writeBufferOffset (cur (m_ata m))) 2)
   | In32 p \<Rightarrow> False
   | Out32 p v \<Rightarrow> p \<in> {0xCF9, 0xCFA, 0xCFB} \<and> cfg_reg (m_pci m) (p - 0xCF8) < 0)"

definition null_site :: "io_dev \<Rightarrow> access \<Rightarrow> bool" where
  "null_site d a = (case a of
     In16 p \<Rightarrow> d \<in> {IO_CMOS, IO_PS2, IO_Debug, IO_DMA0, IO_DMA1, IO_Page, IO_VGADbg, IO_Floppy}
   | In32 p \<Rightarrow> d \<in> {IO_CMOS, IO_PS2, IO_Debug, IO_DMA0, IO_DMA1, IO_Page, IO_VGADbg, IO_Floppy,
       IO_VBE, IO_ATA}
   | _ \<Rightarrow> False)"

subsection \<open>Device by device\<close>

definition reads_miss :: "'s io_handler \<Rightarrow> access \<Rightarrow> bool" where
  "reads_miss h a = (case a of In8 p \<Rightarrow> inb h = None | In16 p \<Rightarrow> inw h = None | In32 p \<Rightarrow> inl h = None
     | _ \<Rightarrow> False)"

text \<open>Devices all of whose operations return or assert.\<close>

lemma calm_device:
  assumes "\<not> reads_miss h a"
    and "\<And>f p. inb h = Some f \<Longrightarrow> fine (f p s)" and "\<And>f p. inw h = Some f \<Longrightarrow> fine (f p s)"
    and "\<And>f p. inl h = Some f \<Longrightarrow> fine (f p s)" and "\<And>f p v. outb h = Some f \<Longrightarrow> fine (f p v s)"
    and "\<And>f p v. outw h = Some f \<Longrightarrow> fine (f p v s)" and "\<And>f p v. outl h = Some f \<Longrightarrow> fine (f p v s)"
  shows "fine (handler_access h a s)"
  using assms by (cases a) (auto simp: reads_miss_def split: option.splits)

lemma cmos_fine: "\<not> reads_miss cmos_hdl a \<Longrightarrow> fine (handler_access cmos_hdl a s)"
  by (rule calm_device) (auto simp: cmos_hdl_def cmos_defs split: if_splits)

lemma ps2pos_fine: "\<not> reads_miss ps2pos_hdl a \<Longrightarrow> fine (handler_access ps2pos_hdl a s)"
  by (rule calm_device) (auto simp: ps2pos_hdl_def ps2pos_defs split: if_splits)

lemma simple_fine:
  "\<not> reads_miss biosdebug_hdl a \<Longrightarrow> fine (handler_access biosdebug_hdl a s)"
  "fine (handler_access (serport_hdl b) a s)" "fine (handler_access (parport_hdl b) a s)"
  "\<not> reads_miss vgadbg_hdl a \<Longrightarrow> fine (handler_access vgadbg_hdl a s)"
  "\<not> reads_miss vbe_hdl a \<Longrightarrow> fine (handler_access vbe_hdl a s)"
  by (rule calm_device; auto simp: reads_miss_def biosdebug_hdl_def serport_hdl_def parport_hdl_def
      vgadbg_hdl_def vbe_hdl_def simple_port_defs split: if_splits access.splits)+

lemma kbd_no_overrun:
  assumes "kbd_wf r"
  shows "handler_access kbd_hdl a r \<noteq> Inl Wild_Access \<and> handler_access kbd_hdl a r \<noteq> Inl Null_Call"
  using assms
  by (cases a)
     (auto simp: kbd_hdl_def widen_def silent_def ebind_Inl kbd_defs kbd_wf_def arr_get_def
       arr_set_def split: if_splits sum.splits)

lemma kbd_fine: "kbd_wf r \<Longrightarrow> fine (handler_access kbd_hdl a r)"
  using kbd_no_overrun [of r a] by (auto simp: fine_def intro: fault.exhaust)

lemma qemu_fine:
  assumes "qemu_wf q" shows "fine (handler_access qemu_hdl a q)"
proof -
  have "fine (put_buff bs r)" if "length bs \<le> 1024" "length (ret_buff r) = 1024" for bs r
    using that by (auto simp: put_buff_def in_range_def intro!: fine_rbind fine_wr_bytes)
  then have "fine (qemupara_outw p v q)" for p v
    using assms by (auto simp: qemupara_outw_def qemu_wf_def Let_def e820table_def e820entry_def)
  moreover have "fine (qemupara_inb p q)" for p
    using assms by (auto simp: qemupara_inb_def qemu_wf_def)
  ultimately show ?thesis
    by (intro calm_device) (auto simp: reads_miss_def qemu_hdl_def split: access.splits)
qed

text \<open>The devices with sites.\<close>

lemma dma_fine:
  assumes "\<not> reads_miss (dma_hdl b k) a"
    and "\<And>v. a = In8 p \<or> a = Out8 p v \<Longrightarrow> unat (fst (i8237_decode b (p - b))) \<noteq> 7"
    and "access_port a = p"
  shows "fine (handler_access (dma_hdl b k) a d)"
proof (cases a)
  case (In8 q)
  then have q: "q = p" using assms(3) by simp
  have "unat (fst (i8237_decode b (p - b))) \<noteq> 7" using assms(2) In8 q by blast
  then have "fine (i8237_inb b (p - b) d)"
    by (auto simp: i8237_inb_def Let_def word_le_nat_alt split: prod.splits)
  with In8 q show ?thesis by (simp add: dma_hdl_def)
next
  case (Out8 q v)
  then have q: "q = p" using assms(3) by simp
  have "unat (fst (i8237_decode b (p - b))) \<noteq> 7" using assms(2) Out8 q by blast
  then have "fine (i8237_outb b (p - b) v d)"
    by (auto simp: i8237_outb_def Let_def word_le_nat_alt split: prod.splits)
  with Out8 q show ?thesis by (simp add: dma_hdl_def)
qed (use assms(1) in \<open>simp_all add: reads_miss_def dma_hdl_def\<close>)

lemma page_fine:
  assumes "dma_wf d" and "\<not> reads_miss dma_page_hdl a" and "\<And>v. a \<noteq> Out8 0x8F v"
    and "0x80 \<le> unat (access_port a)" "unat (access_port a) < 0x90"
  shows "fine (handler_access dma_page_hdl a d)"
proof (cases a)
  case (Out8 p v)
  have "unat (p - 0x80) = unat p - 0x80"
    using assms(4) Out8 by (subst unat_sub) (simp_all add: word_le_nat_alt)
  moreover have "unat p \<noteq> 0x8F"
  proof
    assume "unat p = 0x8F"
    then have "p = 0x8F" by (simp add: word_unat_eq_iff)
    with assms(3) [of v] Out8 show False by simp
  qed
  ultimately have "unat (p - 0x80) < 15" using assms(5) Out8 by simp
  with Out8 assms(1) show ?thesis
    by (simp add: dma_page_hdl_def i8237_page_outb_def dma_wf_def)
qed (use assms(2) in \<open>simp_all add: reads_miss_def dma_page_hdl_def i8237_page_inb_def\<close>)

lemma fine_wild_null: "m \<noteq> Inl Wild_Access \<Longrightarrow> m \<noteq> Inl Null_Call \<Longrightarrow> fine m"
  by (auto simp: fine_def intro: fault.exhaust)

lemma vga_never_null:
  "vgareg_outb b p v c \<noteq> Inl Null_Call" "vgareg_inb b p c \<noteq> Inl Null_Call"
  by (simp_all add: vgareg_outb_def vgareg_inb_def vga_defs arr_rd_def arr_wr_def Let_def)

lemma vga_fine:
  assumes "vga_wf c" and "\<And>v. a = Out8 0x3C9 v \<Longrightarrow> unat (pel_write_addr c) < 768"
    and "a = In8 0x3C9 \<Longrightarrow> unat (pel_read_addr c) < 768"
  shows "fine (handler_access (vga_hdl b) a c)"
proof -
  have outb: "fine (vgareg_outb b (p - b) v c)" if "a = Out8 p v" for p v
  proof (rule fine_wild_null [OF _ vga_never_null(1)], cases "p = 0x3C9")
    case True
    with that assms(2) show "vgareg_outb b (p - b) v c \<noteq> Inl Wild_Access"
      by (simp add: vga_dac_port(1) [OF assms(1)] not_le)
  next
    case False
    with vgareg_outb_tame [OF assms(1)] show "vgareg_outb b (p - b) v c \<noteq> Inl Wild_Access"
      by (simp add: tame_def)
  qed
  have inb: "fine (vgareg_inb b (p - b) c)" if "a = In8 p" for p
  proof (rule fine_wild_null [OF _ vga_never_null(2)], cases "p = 0x3C9")
    case True
    with that assms(3) show "vgareg_inb b (p - b) c \<noteq> Inl Wild_Access"
      by (simp add: vga_dac_port(2) [OF assms(1)] not_le)
  next
    case False
    with vgareg_inb_tame [OF assms(1)] show "vgareg_inb b (p - b) c \<noteq> Inl Wild_Access"
      by (simp add: tame_def)
  qed
  have outw: "fine (vgareg_outw b p v c)" for p v
    using vgareg_outw_tame [OF assms(1)]
    by (intro fine_wild_null) (auto simp: tame_def vgareg_outw_def Let_def ebind_Inl vga_never_null)
  show ?thesis
    by (cases a) (use outb inb outw in \<open>simp_all add: vga_hdl_def\<close>)
qed

lemma floppy_fine:
  assumes "fdc_wf (the_fdc s)" and "\<not> reads_miss floppy_hdl a" and "\<And>v. a \<noteq> Out8 0x3F5 v"
    and "a = In8 0x3F5 \<Longrightarrow> fifondx (the_fdc s) \<noteq> 522"
  shows "fine (handler_access floppy_hdl a s)"
proof (cases a)
  case (In8 p)
  have "fine (fifo_get s)" if "p = 0x3F5"
  proof -
    have "in_range (fifo (the_fdc s)) (fifondx (the_fdc s)) 1"
      using assms(1,4) In8 that by (auto simp: fdc_wf_def in_range_def)
    then show ?thesis by (simp add: fifo_get_def Let_def)
  qed
  with In8 show ?thesis by (simp add: floppy_hdl_def floppy_inb_def Let_def)
next
  case (Out8 p v)
  with assms(3) have "p \<noteq> 0x3F5" by blast
  with Out8 show ?thesis by (simp add: floppy_hdl_def floppy_outb_def Let_def)
qed (use assms(2) in \<open>simp_all add: reads_miss_def floppy_hdl_def\<close>)

lemma ata_fine:
  assumes "\<not> reads_miss ata_hdl a" and "0x1F0 \<le> unat (access_port a)" "unat (access_port a) < 0x1F8"
    and "a = Out8 0x1F7 0xEC \<Longrightarrow> dtype (cur c) \<noteq> ATA_DVDRom"
    and "a = In16 0x1F0 \<Longrightarrow> \<exists>b. readBuffer (cur c) = Some b \<and> in_range b (readBufferOffset (cur c)) 2"
    and "\<And>v. a = Out16 0x1F0 v \<Longrightarrow> \<exists>b. writeBuffer (cur c) = Some b \<and> in_range b (writeBufferOffset (cur c)) 2"
  shows "fine (handler_access ata_hdl a c)"
proof (cases a)
  case (In8 p)
  then show ?thesis by (simp add: pio_inb_def)
next
  case (Out8 p v)
  let ?q = "p - 0x1F0"
  have q: "unat ?q = unat p - 0x1F0"
    using assms(2) Out8 by (subst unat_sub) (simp_all add: word_le_nat_alt)
  then have "unat ?q < 8" using assms(3) Out8 by simp
  then have nr: "?q \<noteq> 0x206" by auto
  have d: "dtype (cur (on_cur (set_reg k x) e)) = dtype (cur e)" for k x e
    by (simp add: on_cur_def cur_def set_reg_def split: ata_sel.splits)
  have p7: "p = 0x1F7" if "?q = 7" using that by (simp add: diff_eq_eq)
  have cmd: "fine (do_command v e)" if "v = 0xEC \<Longrightarrow> dtype (cur e) \<noteq> ATA_DVDRom" for e
    using that
    by (simp add: do_command_def ebind_emit cmd_recalibrate_def cmd_write_sectors_def cmd_read_sectors_def
      cmd_identify_device_def cmd_identify_packet_device_def cmd_initialize_device_parameters_def Let_def)
  have "fine (pio_outb ?q v c)"
  proof (cases "?q = 7")
    case True
    then have "v = 0xEC \<Longrightarrow> dtype (cur c) \<noteq> ATA_DVDRom" 
      using assms(4) unfolding Out8 p7 [OF True] by blast
    then have "fine (ebind (emit [Irq_Set 14 0] () (on_cur (set_reg REG_COMMAND v) c)) (\<lambda>_. do_command v))"
      by (intro fine_ebind cmd) (auto simp: d)
    then show ?thesis unfolding pio_outb_def True by simp
  next
    case False
    show ?thesis unfolding pio_outb_def by (intro fine_if) (simp_all only: nr False fine_simps simp_thms)
  qed
  with Out8 show ?thesis by simp
next
  case (In16 p)
  have p0: "p = 0x1F0" if "p - 0x1F0 = 0" using that by simp
  have "fine (pio_inw (p - 0x1F0) c)"
    using assms(5) In16 by (auto simp: pio_inw_def intro!: fine_rbind fine_rd_bytes)
  with In16 show ?thesis by simp
next
  case (Out16 p v)
  have "fine (pio_outw (p - 0x1F0) v c)"
    using assms(6) Out16 by (auto simp: pio_outw_def Let_def intro!: fine_rbind fine_wr_bytes)
  with Out16 show ?thesis by simp
qed (use assms(1) in \<open>simp_all add: reads_miss_def ata_hdl_def\<close>)

lemma cfg_reg_range:
  assumes "0xCF8 \<le> unat p" "unat p < 0xD00"
  shows "cfg_reg b (p - 0xCF8) = uint (pindex b) + int (unat p) - 0xCFC" and "cfg_reg b (p - 0xCF8) \<le> 258"
proof -
  have "unat (p - 0xCF8) = unat p - 0xCF8"
    using assms(1) by (subst unat_sub) (simp_all add: word_le_nat_alt)
  then have "int (unat (p - 0xCF8)) = int (unat p) - 0xCF8" using assms(1) by (simp only: of_nat_diff)
  then show e: "cfg_reg b (p - 0xCF8) = uint (pindex b) + int (unat p) - 0xCFC"
    unfolding cfg_reg_def uint_nat [of "p - 0xCF8"] by linarith
  have "uint (pindex b) < 256" using unsigned_less [of "pindex b", where 'a = int] by simp
  moreover have "int (unat p) < 0xD00" using assms(2) by linarith
  ultimately show "cfg_reg b (p - 0xCF8) \<le> 258" unfolding e by linarith
qed

lemma conf_fine:
  assumes "length conf = pci_conf_size" and "0 \<le> reg" "reg \<le> 258" and "n \<le> 4"
  shows "fine (conf_read n reg conf)" and "fine (conf_write n reg v conf)"
  using assms
  by (auto simp: conf_read_def conf_write_def in_range_def pci_conf_size_def
      intro!: fine_rbind fine_rd_bytes fine_wr_bytes)

lemma pci_cfg_fine:
  assumes "rom_wf rom (fst s)" and "ata_wf (snd s)" and "0 \<le> reg" "reg \<le> 258"
  shows "cfg_readb (machine_pci_ops p) = Some f1 \<Longrightarrow> fine (f1 reg s)"
    and "cfg_readw (machine_pci_ops p) = Some f2 \<Longrightarrow> fine (f2 reg s)"
    and "cfg_readl (machine_pci_ops p) = Some f3 \<Longrightarrow> fine (f3 reg s)"
    and "cfg_writeb (machine_pci_ops p) = Some g1 \<Longrightarrow> fine (g1 reg v1 s)"
    and "cfg_writew (machine_pci_ops p) = Some g2 \<Longrightarrow> fine (g2 reg v2 s)"
    and "cfg_writel (machine_pci_ops p) = Some g3 \<Longrightarrow> fine (g3 reg v3 s)"
  using assms
  by (auto simp: machine_pci_ops_def lift_pci_ops_def ata_pci_ops_def vgarom_pci_ops_def pciata_defs
      conf_reader_def pciata_writel_def vgarom_readb_def vgarom_readw_def vgarom_readl_def
      vgarom_writeb_def vgarom_writew_def vgarom_writel_def vgarom_conf_read_def Let_def
      PCI_CFG_REG_BAR0_def PCI_CFG_REG_EXPROM_def rom_wf_def ata_wf_def remap_bios_def
      intro!: fine_rbind fine_if conf_fine split: if_splits dest!: conf_write_length)

lemma machine_pci_exist:
  "cfg_readb (machine_pci_ops p) \<noteq> None" "cfg_readw (machine_pci_ops p) \<noteq> None"
  "cfg_readl (machine_pci_ops p) \<noteq> None" "cfg_writeb (machine_pci_ops p) \<noteq> None"
  "cfg_writew (machine_pci_ops p) \<noteq> None" "cfg_writel (machine_pci_ops p) \<noteq> None"
  by (simp_all add: machine_pci_ops_def lift_pci_ops_def ata_pci_ops_def vgarom_pci_ops_def)

lemma pci_calls_fine:
  assumes "rom_wf rom (fst (snd m))" and "ata_wf (snd (snd m))"
    and "0 \<le> cfg_reg (fst m) port" "cfg_reg (fst m) port \<le> 258"
  shows "fine (pci_call (cfg_readb (machine_pci_ops p)) port m)"
    and "fine (pci_call (cfg_readw (machine_pci_ops p)) port m)"
    and "fine (pci_call (cfg_readl (machine_pci_ops p)) port m)"
    and "fine (pci_call (map_option (\<lambda>f reg. f reg v1) (cfg_writeb (machine_pci_ops p))) port m)"
    and "fine (pci_call (map_option (\<lambda>f reg. f reg v2) (cfg_writew (machine_pci_ops p))) port m)"
    and "fine (pci_call (map_option (\<lambda>f reg. f reg v3) (cfg_writel (machine_pci_ops p))) port m)"
proof -
  obtain f1 f2 f3 g1 g2 g3 where ops: "cfg_readb (machine_pci_ops p) = Some f1"
    "cfg_readw (machine_pci_ops p) = Some f2" "cfg_readl (machine_pci_ops p) = Some f3"
    "cfg_writeb (machine_pci_ops p) = Some g1" "cfg_writew (machine_pci_ops p) = Some g2"
    "cfg_writel (machine_pci_ops p) = Some g3" using machine_pci_exist [of p] by blast
  note fn = pci_cfg_fine [OF assms]
  show "fine (pci_call (cfg_readb (machine_pci_ops p)) port m)"
    "fine (pci_call (cfg_readw (machine_pci_ops p)) port m)"
    "fine (pci_call (cfg_readl (machine_pci_ops p)) port m)"
    "fine (pci_call (map_option (\<lambda>f reg. f reg v1) (cfg_writeb (machine_pci_ops p))) port m)"
    "fine (pci_call (map_option (\<lambda>f reg. f reg v2) (cfg_writew (machine_pci_ops p))) port m)"
    "fine (pci_call (map_option (\<lambda>f reg. f reg v3) (cfg_writel (machine_pci_ops p))) port m)"
    using fn(1) [OF ops(1)] fn(2) [OF ops(2)] fn(3) [OF ops(3)] fn(4) [OF ops(4)] fn(5) [OF ops(5)]
      fn(6) [OF ops(6)] by (simp_all add: pci_call_def ops)
qed

lemma pci_fine:
  assumes wf: "rom_wf rom (fst (snd m))" "ata_wf (snd (snd m))"
    and port: "0xCF8 \<le> unat (access_port a)" "unat (access_port a) < 0xD00"
    and site: "\<And>p v. a = Out32 p v \<Longrightarrow> p \<in> {0xCF9, 0xCFA, 0xCFB} \<Longrightarrow> 0 \<le> cfg_reg (fst m) (p - 0xCF8)"
  shows "fine (handler_access (pci_hdl machine_pci_ops) a m)"
proof -
  let ?p = "access_port a" let ?q = "access_port a - 0xCF8" let ?reg = "cfg_reg (fst m) ?q"
  have up: "?reg \<le> 258" by (rule cfg_reg_range(2) [OF port])
  have q: "unat ?q = unat ?p - 0xCF8"
    using port(1) by (subst unat_sub) (simp_all add: word_le_nat_alt)
  have hi: "0 \<le> ?reg" if "4 \<le> ?q"
  proof -
    from that q have "0xCFC \<le> unat ?p" by (simp add: word_le_nat_alt)
    then have "0xCFC \<le> int (unat ?p)" by linarith
    moreover have "0 \<le> uint (pindex (fst m))" by simp
    ultimately show ?thesis unfolding cfg_reg_range(1) [OF port] by linarith
  qed
  note fn = pci_calls_fine [OF wf _ up] and ex = machine_pci_exist
  have l: "4 \<le> x" if "\<not> x \<le> 3" for x :: uint16
    using that by (simp add: word_le_nat_alt)
  show ?thesis
  proof (cases a)
    case (In8 p)
    then show ?thesis using hi
      by (auto simp: pci_inb_def split: option.split intro!: fn(1) [unfolded In8 access_port.simps])
  next
    case (In16 p)
    then show ?thesis using hi
      by (auto simp: pci_inw_def split: option.split intro!: fn(2) [unfolded In16 access_port.simps])
  next
    case (In32 p)
    then show ?thesis using hi
      by (auto simp: pci_inl_def Let_def split: option.split intro!: fn(3) [unfolded In32 access_port.simps])
  next
    case (Out8 p v)
    then show ?thesis using hi l
      by (auto simp: pci_outb_def ex split: option.split intro!: fn(4) [unfolded Out8 access_port.simps])
  next
    case (Out16 p v)
    then show ?thesis using hi l
      by (auto simp: pci_outw_def ex split: option.split intro!: fn(5) [unfolded Out16 access_port.simps])
  next
    case (Out32 p v)
    have "0 \<le> ?reg" if "?q \<noteq> 0"
    proof (cases "4 \<le> ?q")
      case False
      then have "unat ?q < 4" by (simp add: word_le_nat_alt)
      moreover have "unat ?q \<noteq> 0" using that by (simp only: unat_eq_0 not_False_eq_True)
      ultimately have "unat ?q \<in> {1, 2, 3}" by auto
      with q port(1) have "unat p \<in> {0xCF9, 0xCFA, 0xCFB}" using Out32 by auto
      then have "p \<in> {0xCF9, 0xCFA, 0xCFB}" by (auto simp: word_unat_eq_iff)
      from site [OF Out32 this] show ?thesis using Out32 by simp
    qed (rule hi)
    with Out32 show ?thesis
      by (auto simp: pci_outl_def Let_def ex split: option.split intro!: fn(6) [unfolded Out32 access_port.simps])
  qed
qed

subsection \<open>The whole machine\<close>

lemma reads_miss_lift: "reads_miss (lift_handler get put h) a = reads_miss h a"
  by (simp add: reads_miss_def lift_handler_def split: access.split)

lemma reads_miss_site:
  assumes "\<not> null_site d a" shows "\<not> reads_miss (handler_of d) a"
  using assms
  by (cases d)
     (auto simp: reads_miss_def null_site_def lift_handler_def cmos_hdl_def ps2pos_hdl_def biosdebug_hdl_def
       x86_i8237_dma_init_nth dma_hdl_def dma_page_hdl_def pci_hdl_def qemu_hdl_def kbd_hdl_def
       x86_port_init_nth parport_hdl_def serport_hdl_def vga_hdl_def vgadbg_hdl_def vbe_hdl_def
       floppy_hdl_def ata_hdl_def x86_i8237_dma_init_def x86_parallelport_init_def
       x86_serialport_init_def split: access.splits)

lemma dma_decode_7:
  assumes "0xC0 \<le> unat p" "unat p < 0xE0" and "unat (fst (i8237_decode 0xC0 (p - 0xC0))) = 7"
  shows "p = 0xCE \<or> p = 0xCF"
proof -
  have "unat (p - 0xC0) = unat p - 0xC0"
    using assms(1) by (subst unat_sub) (simp_all add: word_le_nat_alt)
  moreover have "unat (p - 0xC0) div 2 = 7"
    using assms(3) by (simp add: i8237_decode_def drop_bit_eq_div unat_div)
  ultimately have "unat p = 0xCE \<or> unat p = 0xCF" using assms(1) by linarith
  then show ?thesis by (auto simp: word_unat_eq_iff)
qed

lemma handler_fine:
  assumes wf: "machine_wf rom ram m" and owner: "dev_ports d (unat (access_port a))"
    "\<not> (d = IO_ATA \<and> dev_ports IO_Floppy (unat (access_port a)))"
    and sites: "\<not> wild_site m a" "\<not> null_site d a"
  shows "fine (handler_access (handler_of d) a m)"
proof -
  note miss = reads_miss_site [OF sites(2)]
  show ?thesis
  proof (cases d)
    case IO_CMOS with miss show ?thesis by (simp add: handler_access_lift reads_miss_lift cmos_fine)
  next
    case IO_PS2 with miss show ?thesis by (simp add: handler_access_lift reads_miss_lift ps2pos_fine)
  next
    case IO_Debug with miss show ?thesis by (simp add: handler_access_lift reads_miss_lift simple_fine)
  next
    case IO_DMA0
    have "unat (fst (i8237_decode 0 (access_port a - 0))) \<noteq> 7" if "a = In8 (access_port a) \<or> a = Out8 (access_port a) v" for v
    proof
      assume "unat (fst (i8237_decode 0 (access_port a - 0))) = 7"
      then have "access_port a = 7" by (simp add: i8237_decode_def word_unat_eq_iff)
      with that sites(1) show False by (auto simp: wild_site_def split: access.splits)
    qed
    with miss show ?thesis
      unfolding IO_DMA0 handler_of.simps handler_access_lift x86_i8237_dma_init_nth reads_miss_lift fine_simps
      by (intro dma_fine [where p = "access_port a"]) auto
  next
    case IO_DMA1
    have "unat (fst (i8237_decode 0xC0 (access_port a - 0xC0))) \<noteq> 7"
      if "a = In8 (access_port a) \<or> a = Out8 (access_port a) v" for v
      using that sites(1) owner dma_decode_7 [of "access_port a"]
      by (auto simp: IO_DMA1 wild_site_def split: access.splits)
    with miss show ?thesis
      unfolding IO_DMA1 handler_of.simps handler_access_lift x86_i8237_dma_init_nth reads_miss_lift fine_simps
      by (intro dma_fine [where p = "access_port a"]) auto
  next
    case IO_Page
    have "a \<noteq> Out8 0x8F v" for v using sites(1) by (auto simp: wild_site_def)
    with miss wf owner show ?thesis
      unfolding IO_Page handler_of.simps handler_access_lift x86_i8237_dma_init_nth reads_miss_lift fine_simps
      by (intro page_fine) (auto simp: machine_wf_def)
  next
    case IO_PCI
    have "0 \<le> cfg_reg (m_pci m) (p - 0xCF8)" if "a = Out32 p v" "p \<in> {0xCF9, 0xCFA, 0xCFB}" for p v
      using sites(1) that by (auto simp: wild_site_def)
    with wf owner show ?thesis
      unfolding IO_PCI handler_of.simps handler_access_lift fine_simps
      by (intro pci_fine [where rom = rom]) (auto simp: machine_wf_def get_pci_def)
  next
    case IO_QEMU with wf show ?thesis by (simp add: handler_access_lift qemu_fine machine_wf_def)
  next
    case IO_Kbd with wf show ?thesis by (simp add: handler_access_lift kbd_fine machine_wf_def)
  next
    case IO_VGA_C
    show ?thesis unfolding IO_VGA_C handler_of.simps handler_access_lift fine_simps
      by (rule vga_fine) (use wf sites(1) in \<open>auto simp: machine_wf_def wild_site_def\<close>)
  next
    case IO_VGA_D
    show ?thesis unfolding IO_VGA_D handler_of.simps handler_access_lift fine_simps
      by (rule vga_fine) (use wf sites(1) in \<open>auto simp: machine_wf_def wild_site_def\<close>)
  next
    case IO_VGADbg with miss show ?thesis by (simp add: handler_access_lift reads_miss_lift simple_fine)
  next
    case IO_VBE with miss show ?thesis by (simp add: handler_access_lift reads_miss_lift simple_fine)
  next
    case IO_Floppy
    with miss wf sites(1) show ?thesis
      unfolding IO_Floppy handler_of.simps handler_access_lift reads_miss_lift fine_simps
      by (intro floppy_fine) (auto simp: machine_wf_def get_fsys_def wild_site_def)
  next
    case IO_ATA
    have "0x1F0 \<le> unat (access_port a) \<and> unat (access_port a) < 0x1F8"
      using owner by (auto simp: IO_ATA)
    with miss sites(1) show ?thesis
      unfolding IO_ATA handler_of.simps handler_access_lift reads_miss_lift fine_simps
      by (intro ata_fine) (auto simp: wild_site_def split: option.splits)
  qed (simp_all only: handler_of.simps handler_access_lift x86_port_init_nth simple_fine fine_simps)
qed

lemma access_safety:
  assumes "machine_wf rom ram m" and "bus_access machine_table a m = Inl e"
  shows "e = Assert_Failed \<or> wild_site m a \<or>
    (\<exists>d. port_owner (unat (access_port a)) = Some d \<and> null_site d a)"
proof (cases "port_owner (unat (access_port a))")
  case None
  then have "lookup_handler machine_table (access_port a) = None" by (simp add: lookup_machine)
  from bus_access_none [OF this, of m] assms(2) show ?thesis by auto
next
  case (Some d)
  then have "lookup_handler machine_table (access_port a) = Some (handler_of d)"
    by (simp add: lookup_machine)
  with assms(2) have acc: "handler_access (handler_of d) a m = Inl e" by (simp add: bus_access_handler)
  have "fine (handler_access (handler_of d) a m)" if "\<not> wild_site m a" "\<not> null_site d a"
    using Some that by (intro handler_fine [OF assms(1)]) (auto simp: port_owner_Some)
  with acc Some show ?thesis by (auto simp: fine_def)
qed

text \<open>
  C3: memory safety of port accesses. On any machine satisfying the invariant, hence in every
  state of \<open>machine_run\<close>, a port access either returns, or fails an assertion of the program,
  or is one of these: register 7 of a DMA controller and page register 15; the palette data
  port once the palette address has passed the last entry; the floppy's data port (a write, or
  a read past the end of the FIFO); the disk's data port without room in the transfer buffer;
  a disk identify with an absent DVD drive selected; a 32-bit write next to the PCI address
  port addressing a negative register; or a 16- or 32-bit read of a device that has no
  function for it.
\<close>

theorem machine_memory_safety:
  assumes "machine_wf rom ram m" and "bus_access machine_table a m = Inl e"
  shows "e = Assert_Failed \<or> wild_site m a \<or>
    (\<exists>d. port_owner (unat (access_port a)) = Some d \<and> null_site d a)"
  using assms by (rule access_safety)

text \<open>The sites are real: a write next to the PCI address port, and a word read of the clock.\<close>

theorem machine_memory_safety_witness:
  "bus_access machine_table (In16 0x70) example_machine = Inl Null_Call \<and>
   (wild_site example_machine (In16 0x70) \<or>
     (\<exists>d. port_owner (unat (access_port (In16 0x70))) = Some d \<and> null_site d (In16 0x70)))"
proof -
  have "port_owner (unat (access_port (In16 0x70))) = Some IO_CMOS" unfolding port_owner_Some by simp
  then have "bus_access machine_table (In16 0x70) example_machine =
      handler_access (handler_of IO_CMOS) (In16 0x70) example_machine"
    by (intro bus_access_handler) (simp only: lookup_machine option.map)
  also have "\<dots> = Inl Null_Call"
    by (simp add: lift_handler_def cmos_hdl_def)
  finally have acc: "bus_access machine_table (In16 0x70) example_machine = Inl Null_Call" .
  with machine_memory_safety [OF example_machine_wf acc] show ?thesis by simp
qed

end
