(* ===== verification/Program_Threads.thy ===== *)
theory Program_Threads
  imports Machine_Safety
begin

text \<open>
  The whole program while it runs: turns of the virtual CPU (\<^verbatim>\<open>sys_run_vcpu\<close>) and rounds of the
  viewer's loop (\<^verbatim>\<open>viewer_thread\<close>) in any order, on the machine and the surface of the window.
  What can end it is listed exit by exit and frame by frame.
\<close>

subsection \<open>Exits that fault\<close>

text \<open>What the kernel promises: the data of an exit lies inside the shared structure.\<close>

definition exit_ok :: "kvm_exit \<Rightarrow> bool" where
  "exit_ok x = (case x of
     Exit_IO k \<Rightarrow> uint (data_offset k) + int (unat (io_size k) * unat (io_count k)) \<le> int (length (run_page k))
   | Exit_MMIO k \<Rightarrow> length (mm_data k) = 8
   | _ \<Rightarrow> True)"

definition port_site :: "machine \<Rightarrow> access \<Rightarrow> bool" where
  "port_site m a \<longleftrightarrow> wild_site m a \<or> (\<exists>d. port_owner (unat (access_port a)) = Some d \<and> null_site d a)"

text \<open>An access that a device claims but that does not fit into its window of 128 KB.\<close>

definition memory_site :: "machine \<Rightarrow> kvm_mmio \<Rightarrow> bool" where
  "memory_site m k = (case getDevice (machine_region m) machine_mmio (phys_addr k) of
     None \<Rightarrow> False
   | Some p \<Rightarrow> 0x20000 < unat (phys_addr k - ucast (mm_base (machine_region m p))) + unat (mm_len k))"

text \<open>
  What an exit faults by. The accesses of an exit to a port are those of the string
  instruction (\<open>string_accesses\<close>, theory \<^verbatim>\<open>Vcpu_Io\<close>), with its direction, width and data; those before
  the faulting one return.
\<close>

definition access_faults :: "access list \<Rightarrow> machine \<Rightarrow> fault \<Rightarrow> bool" where
  "access_faults as m e \<longleftrightarrow> (\<exists>i vs m1 es. i < length as \<and> bus_run machine_table (take i as) m = Inr (vs, m1, es) \<and>
     bus_access machine_table (as ! i) m1 = Inl e \<and> port_site m1 (as ! i))"

definition exit_site :: "machine \<Rightarrow> kvm_exit \<Rightarrow> fault \<Rightarrow> bool" where
  "exit_site m x e = (case x of
     Exit_IO k \<Rightarrow> unat (io_size k) \<in> {1, 2, 4} \<and> access_faults (string_accesses k) m e
   | Exit_MMIO k \<Rightarrow> memory_site m k
   | _ \<Rightarrow> False)"

lemma bus_run_fault:
  assumes "machine_wf rom ram m" and "bus_run machine_table as m = Inl e" and "e \<noteq> Assert_Failed"
  shows "access_faults as m e"
  using assms(1,2)
proof (induction as arbitrary: m)
  case (Cons a as)
  from Cons.prems(2) consider "bus_access machine_table a m = Inl e"
    | v m1 es where "bus_access machine_table a m = Inr (v, m1, es)" "bus_run machine_table as m1 = Inl e"
    by (auto simp: ebind_Inl emit_def simp del: bus_access.simps)
  then show ?case
  proof cases
    case 1
    have "port_site m a" using access_safety [OF Cons.prems(1) 1] assms(3) by (simp add: port_site_def)
    with 1 show ?thesis
      unfolding access_faults_def by (intro exI [of _ 0]) (simp add: emit_def del: bus_access.simps)
  next
    case 2
    from Cons.IH [OF machine_io.bus_access_inv [OF Cons.prems(1) 2(1)] 2(2)] obtain i vs m2 es' where
      i: "i < length as" "bus_run machine_table (take i as) m1 = Inr (vs, m2, es')"
        "bus_access machine_table (as ! i) m2 = Inl e" "port_site m2 (as ! i)"
      unfolding access_faults_def by blast
    have "bus_run machine_table (take (Suc i) (a # as)) m = Inr (v # vs, m2, es @ es')"
      using 2(1) i(2) by (simp add: ebind_def emit_def del: bus_access.simps)
    with i show ?thesis unfolding access_faults_def by (intro exI [of _ "Suc i"]) auto
  qed
qed simp

text \<open>Operands of any other size fail the assertion of the loops.\<close>

lemma bad_size_fault:
  assumes "unat (io_size k) \<notin> {1, 2, 4}" and "handle_io tbl k m = Inl e"
  shows "e = Assert_Failed"
proof -
  have "io_out_loop tbl sz port n off page s = Inl e \<Longrightarrow> e = Assert_Failed"
    "io_in_loop tbl sz port n off page s = Inl e \<Longrightarrow> e = Assert_Failed"
    if "sz \<notin> {1, 2, 4}" for sz port n off page and s :: 'a
    using that by (cases n, auto simp: ebind_def)+
  from this [OF assms(1)] assms(2) show ?thesis by (auto simp: handle_io_def ebind_Inl split: if_splits)
qed

lemma handle_io_fault:
  assumes "machine_wf rom ram m" and "handle_io machine_table k m = Inl e" and "exit_ok (Exit_IO k)"
  shows "e = Assert_Failed \<or> exit_site m (Exit_IO k) e"
proof (cases "unat (io_size k) \<in> {1, 2, 4}")
  case True
  have "int (unat (data_offset k) + unat (io_size k) * unat (io_count k)) \<le> int (length (run_page k))"
    using assms(3) by (simp add: exit_ok_def)
  then have "unat (data_offset k) + unat (io_size k) * unat (io_count k) \<le> length (run_page k)"
    by (simp only: of_nat_le_iff)
  from assms(2) [unfolded handle_io_string [OF True this]] have "bus_run machine_table (string_accesses k) m = Inl e"
    by (auto simp: ebind_Inl emit_def)
  from bus_run_fault [OF assms(1) this] True show ?thesis by (auto simp: exit_site_def)
next
  case False
  from bad_size_fault [OF this assms(2)] show ?thesis by blast
qed

lemma data_load_in_range:
  "n \<le> length d \<Longrightarrow> data_load n d k = k (le_word (take n d))"
  by (simp add: data_load_def rd_bytes_def in_range_def)

subsection \<open>Memory accesses that fault\<close>

lemma write_planes_fine:
  assumes "vga_wf c" and "in_range (pVRAM c ! 0) off (length bs)"
  shows "fine (write_planes 4 0 off bs c)"
  using write_planes_run [OF assms(1) _ assms(2), of 0 4] by auto

lemma vram_fine:
  assumes "vga_wf c" and "unat (a - ucast b) + n \<le> 0x20000"
  shows "fine (vram_read n b a c)" and "fine (vram_write n b a v c)"
proof -
  have "length (pVRAM c ! 0) = 0x20000" using assms(1) by (simp add: vga_wf_def)
  then have r: "in_range (pVRAM c ! 0) (plane_off b a) n"
    using assms(2) by (simp add: in_range_def plane_off_def)
  show "fine (vram_read n b a c)" unfolding vram_read_def by (rule fine_rbind [OF fine_rd_bytes [OF r]]) simp
  show "fine (vram_write n b a v c)"
    unfolding vram_write_def NUM_PLANES_def by (rule write_planes_fine [OF assms(1)]) (simp add: r)
qed

lemma bios_fine:
  assumes "rom_wf rom s" and "b = mm_base (pcirom s)" and "unat (a - ucast b) + n \<le> 0x20000"
  shows "fine (bios_read n b a s)" and "fine (bios_write n b a v s)"
  using assms
  by (auto simp: bios_read_def bios_write_def rom_wf_def bytes_at_def rd_bytes_def in_range_def rom_off_def
      split: if_splits)

lemma fine_data:
  "n \<le> length d \<Longrightarrow> (\<And>v. fine (k v)) \<Longrightarrow> fine (data_load n d k)"
  "n \<le> length d \<Longrightarrow> fine x \<Longrightarrow> fine (data_store n d x)"
  by (auto simp: data_load_in_range data_store_def wr_bytes_def in_range_def intro!: fine_ebind)

lemma fine_lift:
  "fine (lift_read get put f b a m) \<longleftrightarrow> fine (f b a (get m))"
  "fine (lift_write get put g b a v m) \<longleftrightarrow> fine (g b a v (get m))"
  by (auto simp: fine_def lift_read_def lift_write_def split: sum.splits)

lemma mmio_fine:
  assumes wf: "machine_wf rom ram m" and d: "length d = 8"
    and fit: "\<And>p. getDevice (machine_region m) machine_mmio a = Some p \<Longrightarrow>
      unat (a - ucast (mm_base (machine_region m p))) + unat n \<le> 0x20000"
  shows "fine (mmio_read machine_region machine_mmio_ops machine_mmio a n d m)"
    and "fine (mmio_write machine_region machine_mmio_ops machine_mmio a n d m)"
proof -
  have v: "vga_wf (m_vga m)" and r: "rom_wf rom (m_rom m)" using wf by (simp_all add: machine_wf_def)
  have "fine (mmio_read machine_region machine_mmio_ops machine_mmio a n d m) \<and>
      fine (mmio_write machine_region machine_mmio_ops machine_mmio a n d m)"
  proof (cases "getDevice (machine_region m) machine_mmio a")
    case (Some p)
    note f = fit [OF Some]
    show ?thesis
    proof (cases p)
      case True
      with Some f d show ?thesis
        by (auto simp: mmio_read_def mmio_write_def Let_def machine_mmio_ops_def machine_region_def lift_ops_def
            vram_ops_def vram_defs fine_lift intro!: fine_data fine_ebind vram_fine [OF v])
    next
      case False
      with Some f d show ?thesis
        by (auto simp: mmio_read_def mmio_write_def Let_def machine_mmio_ops_def machine_region_def lift_ops_def
            vgarom_ops_def vgarom_defs fine_lift intro!: fine_data fine_ebind bios_fine [OF r refl])
    qed
  qed (simp add: mmio_read_def mmio_write_def)
  then show "fine (mmio_read machine_region machine_mmio_ops machine_mmio a n d m)"
    "fine (mmio_write machine_region machine_mmio_ops machine_mmio a n d m)" by simp_all
qed

lemma handle_mmio_fine:
  assumes "machine_wf rom ram m" and "length (mm_data k) = 8" and "\<not> memory_site m k"
  shows "fine (handle_mmio machine_region machine_mmio_ops machine_mmio k m)"
proof -
  have "unat (phys_addr k - ucast (mm_base (machine_region m p))) + unat (mm_len k) \<le> 0x20000"
    if "getDevice (machine_region m) machine_mmio (phys_addr k) = Some p" for p
    using assms(3) that by (simp add: memory_site_def)
  note f = mmio_fine [OF assms(1,2) this]
  show ?thesis using f by (auto simp: handle_mmio_def intro!: fine_ebind)
qed

lemma turn_fault:
  assumes "machine_wf rom ram m" and "exit_ok x" and "vcpu_turn machine_table x m = Inl e"
  shows "e = Assert_Failed \<or> exit_site m x e"
proof (cases x)
  case (Exit_IO k)
  have "(case y of (r, d) \<Rightarrow> \<lambda>m. if r \<noteq> (0 :: int) then assert_failed else ret False m) m' = Inl e \<Longrightarrow> e = Assert_Failed"
    for y :: "int \<times> uint8 list" and m' :: machine by (cases y) (auto split: if_splits)
  with assms(3) Exit_IO have "handle_io machine_table k m = Inl e \<or> e = Assert_Failed"
    by (auto simp: ebind_Inl split: if_splits)
  with handle_io_fault [OF assms(1)] assms(2) Exit_IO show ?thesis by blast
next
  case (Exit_MMIO k)
  show ?thesis
  proof (cases "memory_site m k")
    case False
    have "length (mm_data k) = 8" using assms(2) Exit_MMIO by (simp add: exit_ok_def)
    from handle_mmio_fine [OF assms(1) this False] have "fine (vcpu_turn machine_table x m)"
      using Exit_MMIO by (auto intro!: fine_ebind)
    with assms(3) show ?thesis by (simp add: fine_def)
  qed (simp add: exit_site_def Exit_MMIO)
qed (use assms(3) in auto)

subsection \<open>The two threads\<close>

text \<open>
  The state is the surface of the window with the machine. A round of the viewer draws what the
  video card holds at that moment and delivers the key events of the window to the keyboard
  controller; its loop never ends, so the thread is its rounds so far.
\<close>

type_synonym program = "uint32 list \<times> machine"

definition viewer_turn :: "(sdl_key \<Rightarrow> int) \<Rightarrow> sdl_event list \<Rightarrow> program \<Rightarrow> (program, unit) effect" where
  "viewer_turn code evs s = lift_effect (\<lambda>s. (fst s, m_kbd (snd s))) (\<lambda>x s. (fst x, (snd s)\<lparr>m_kbd := snd x\<rparr>))
     (viewer_round code evs (m_vga (snd s)) 640) s"

fun viewer_thread :: "(sdl_key \<Rightarrow> int) \<Rightarrow> sdl_event list list \<Rightarrow> program \<Rightarrow> (program, unit) effect" where
  "viewer_thread code [] s = ret () s"
| "viewer_thread code (evs # rounds) s = ebind (viewer_turn code evs s) (\<lambda>_. viewer_thread code rounds)"

definition cpu_turn :: "kvm_exit \<Rightarrow> program \<Rightarrow> (program, bool) effect" where
  "cpu_turn x = lift_effect snd (\<lambda>m s. (fst s, m)) (vcpu_turn machine_table x)"

datatype turn = Cpu kvm_exit | Frame "sdl_event list"

text \<open>The program ends with the loop of the virtual CPU.\<close>

definition program_turn :: "(sdl_key \<Rightarrow> int) \<Rightarrow> turn \<Rightarrow> program \<Rightarrow> (program, bool) effect" where
  "program_turn code t s = (case t of
     Cpu x \<Rightarrow> cpu_turn x s
   | Frame evs \<Rightarrow> ebind (viewer_turn code evs s) (\<lambda>_. ret False))"

fun run_program :: "(sdl_key \<Rightarrow> int) \<Rightarrow> turn list \<Rightarrow> program \<Rightarrow> (program, bool) effect" where
  "run_program code [] s = ret False s"
| "run_program code (t # ts) s =
     ebind (program_turn code t s) (\<lambda>bDone. if bDone then ret True else run_program code ts)"

text \<open>Without the other, each thread is the loop of the code.\<close>

lemma run_program_viewer:
  "run_program code (map Frame rounds) s = ebind (viewer_thread code rounds s) (\<lambda>_. ret False)"
  by (induction rounds arbitrary: s)
     (auto simp: program_turn_def ebind_def emit_def split: sum.splits prod.splits)

lemma run_program_cpu:
  "run_program code (map Cpu xs) (p, m) = lift_effect snd (\<lambda>m s. (fst s, m)) (sys_run_vcpu machine_table xs) (p, m)"
proof (induction xs arbitrary: m)
  case (Cons x xs)
  then show ?case
    by (auto simp: program_turn_def cpu_turn_def lift_effect_def ebind_def emit_def split: sum.splits prod.splits)
qed (simp add: lift_effect_def emit_def)

text \<open>What a turn may fault by, and what it leaves.\<close>

definition turn_site :: "machine \<Rightarrow> turn \<Rightarrow> fault \<Rightarrow> bool" where
  "turn_site m t e = (case t of
     Cpu x \<Rightarrow> e = Assert_Failed \<or> exit_site m x e
   | Frame evs \<Rightarrow> e = Wild_Access \<and> isTextMode (m_vga m) \<and>
       14384 < unat (crtc_reg (m_vga m) ! 0xC) * 256 + unat (crtc_reg (m_vga m) ! 0xD))"

definition program_wf :: "uint8 list \<Rightarrow> uint64 \<Rightarrow> program \<Rightarrow> bool" where
  "program_wf rom ram s \<longleftrightarrow> length (fst s) = 640 * 400 \<and> machine_wf rom ram (snd s)"

lemma viewer_turn_Inr:
  assumes "viewer_turn code evs s = Inr (u, s', es)"
  shows "\<exists>p r. viewer_round code evs (m_vga (snd s)) 640 (fst s, m_kbd (snd s)) = Inr ((), (p, r), es) \<and>
    viewer_events code evs (m_kbd (snd s)) = Inr ((), r, es) \<and> s' = (p, (snd s)\<lparr>m_kbd := r\<rparr>)"
proof -
  from assms obtain y where
    y: "viewer_round code evs (m_vga (snd s)) 640 (fst s, m_kbd (snd s)) = Inr ((), y, es)"
    "s' = (fst y, (snd s)\<lparr>m_kbd := snd y\<rparr>)"
    unfolding viewer_turn_def lift_effect_Inr by (metis unit.exhaust)
  from y(1) have "viewer_events code evs (m_kbd (snd s)) = Inr ((), snd y, es)"
    by (cases "viewer_events code evs (m_kbd (snd s))")
       (auto simp: viewer_round_def rbind_Inr emit_def split: prod.splits)
  with y show ?thesis by (intro exI [of _ "fst y"] exI [of _ "snd y"]) simp
qed

lemma viewer_turn_site:
  assumes "key_numbers_ok code" and "program_wf rom ram s"
  shows "case viewer_turn code evs s of Inl e \<Rightarrow> turn_site (snd s) (Frame evs) e
    | Inr (u, s', es) \<Rightarrow> program_wf rom ram s' \<and>
        (\<forall>m0 es0. machine_run m0 es0 (snd s) \<longrightarrow> machine_run m0 (es0 @ es) (snd s'))"
proof -
  have wf: "vga_wf (m_vga (snd s))" "kbd_wf (m_kbd (snd s))" "length (fst s) = 640 * 400" "machine_wf rom ram (snd s)"
    using assms(2) by (simp_all add: program_wf_def machine_wf_def)
  note f = round_faults [OF assms(1) wf(1-3), of evs]
  show ?thesis
  proof (cases "viewer_turn code evs s")
    case (Inl e)
    then have "viewer_round code evs (m_vga (snd s)) 640 (fst s, m_kbd (snd s)) = Inl e"
      by (auto simp: viewer_turn_def lift_effect_def split: sum.splits)
    with f Inl show ?thesis by (auto simp: turn_site_def split: if_splits)
  next
    case (Inr y)
    obtain u s' es where y: "y = (u, s', es)" by (cases y)
    from viewer_turn_Inr [OF Inr [unfolded y]] obtain p r where
      r: "viewer_round code evs (m_vga (snd s)) 640 (fst s, m_kbd (snd s)) = Inr ((), (p, r), es)"
      "viewer_events code evs (m_kbd (snd s)) = Inr ((), r, es)" "s' = (p, (snd s)\<lparr>m_kbd := r\<rparr>)"
      by blast
    from f r(1) have "length p = 640 * 400" using wf(3) by (auto split: if_splits)
    then have "program_wf rom ram s'" using wf_run.keys [OF wf(4) r(2)] r(3) by (simp add: program_wf_def)
    then show ?thesis using Inr y r(3) run_keys [OF _ r(2)] by simp
  qed
qed

lemma cpu_turn_site:
  assumes "program_wf rom ram s" and "exit_ok x"
  shows "case cpu_turn x s of Inl e \<Rightarrow> turn_site (snd s) (Cpu x) e
    | Inr (b, s', es) \<Rightarrow> program_wf rom ram s' \<and>
        (\<forall>m0 es0. machine_run m0 es0 (snd s) \<longrightarrow> machine_run m0 (es0 @ es) (snd s'))"
proof -
  obtain p m where s: "s = (p, m)" by (cases s)
  have wf: "length p = 640 * 400" "machine_wf rom ram m" using assms(1) by (simp_all add: s program_wf_def)
  show ?thesis
  proof (cases "vcpu_turn machine_table x m")
    case (Inl e)
    with turn_fault [OF wf(2) assms(2)] show ?thesis by (auto simp: cpu_turn_def lift_effect_def s turn_site_def)
  next
    case (Inr y)
    obtain b m' es where y: "y = (b, m', es)" by (cases y)
    note t = Inr [unfolded y]
    have "machine_wf rom ram m'" by (rule wf_run.turn [OF wf(2) t])
    with t wf(1) run_turn [OF _ t] show ?thesis by (simp add: cpu_turn_def lift_effect_def s program_wf_def)
  qed
qed

lemma program_turn_site:
  assumes "key_numbers_ok code" and "program_wf rom ram s" and "\<And>x. t = Cpu x \<Longrightarrow> exit_ok x"
  shows "case program_turn code t s of Inl e \<Rightarrow> turn_site (snd s) t e
    | Inr (b, s', es) \<Rightarrow> program_wf rom ram s' \<and>
        (\<forall>m0 es0. machine_run m0 es0 (snd s) \<longrightarrow> machine_run m0 (es0 @ es) (snd s'))"
proof (cases t)
  case (Cpu x)
  show ?thesis unfolding Cpu program_turn_def turn.case by (rule cpu_turn_site [OF assms(2) assms(3) [OF Cpu]])
next
  case (Frame evs)
  with viewer_turn_site [OF assms(1,2), of evs] show ?thesis
    by (auto simp: program_turn_def ebind_def emit_def split: sum.splits prod.splits)
qed

lemma run_program_site:
  assumes "key_numbers_ok code" and "program_wf rom ram s" and "\<forall>x. Cpu x \<in> set ts \<longrightarrow> exit_ok x"
    and "machine_run m0 es0 (snd s)"
  shows "case run_program code ts s of
      Inl e \<Rightarrow> \<exists>ys t zs s1 es. ts = ys @ t # zs \<and> run_program code ys s = Inr (False, s1, es) \<and>
        machine_run m0 (es0 @ es) (snd s1) \<and> turn_site (snd s1) t e
    | Inr (b, s', es) \<Rightarrow> program_wf rom ram s' \<and> machine_run m0 (es0 @ es) (snd s')"
  using assms(2-4)
proof (induction ts arbitrary: s es0)
  case (Cons t ts)
  note site = program_turn_site [OF assms(1) Cons.prems(1), of t]
  have ok: "\<And>x. t = Cpu x \<Longrightarrow> exit_ok x" "\<forall>x. Cpu x \<in> set ts \<longrightarrow> exit_ok x" using Cons.prems(2) by auto
  show ?case
  proof (cases "program_turn code t s")
    case (Inl e)
    with site [OF ok(1)] have t: "turn_site (snd s) t e" by simp
    have "run_program code [] s = Inr (False, s, [])" "t # ts = [] @ t # ts" "machine_run m0 (es0 @ []) (snd s)"
      using Cons.prems(3) by (simp_all add: emit_def)
    with t have "\<exists>ys u zs s1 es. t # ts = ys @ u # zs \<and> run_program code ys s = Inr (False, s1, es) \<and>
        machine_run m0 (es0 @ es) (snd s1) \<and> turn_site (snd s1) u e" by blast
    with Inl show ?thesis by (simp add: ebind_def)
  next
    case (Inr y)
    obtain b s1 es1 where y: "y = (b, s1, es1)" by (cases y)
    with site [OF ok(1)] Inr Cons.prems(3) have s1: "program_wf rom ram s1" "machine_run m0 (es0 @ es1) (snd s1)"
      by auto
    show ?thesis
    proof (cases b)
      case True
      with Inr y s1 show ?thesis by (simp add: ebind_def emit_def)
    next
      case False
      note ih = Cons.IH [OF s1(1) ok(2) s1(2)]
      show ?thesis
      proof (cases "run_program code ts s1")
        case (Inl e)
        with ih obtain ys u zs s2 es where f: "ts = ys @ u # zs" "run_program code ys s1 = Inr (False, s2, es)"
          "machine_run m0 (es0 @ es1 @ es) (snd s2)" "turn_site (snd s2) u e" by auto
        have part: "run_program code (t # ys) s = Inr (False, s2, es1 @ es)"
          using Inr y False f(2) by (simp add: ebind_def)
        have full: "run_program code (t # ts) s = Inl e"
          using \<open>program_turn code t s = Inr y\<close> y False Inl by (simp add: ebind_def)
        have "t # ts = (t # ys) @ u # zs" using f(1) by simp
        moreover have "machine_run m0 (es0 @ (es1 @ es)) (snd s2)" using f(3) by simp
        ultimately have "\<exists>ys u zs s2 es. t # ts = ys @ u # zs \<and> run_program code ys s = Inr (False, s2, es) \<and>
            machine_run m0 (es0 @ es) (snd s2) \<and> turn_site (snd s2) u e" using f(4) part by blast
        with full show ?thesis by simp
      next
        case (Inr z)
        obtain b2 s2 es2 where "z = (b2, s2, es2)" by (cases z)
        with Inr ih \<open>program_turn code t s = Inr y\<close> y False show ?thesis by (simp add: ebind_def)
      qed
    qed
  qed
qed (simp add: emit_def)

text \<open>
  C4: what can end the program. Take a start with a disk image and a VGA ROM of at most 128 KB,
  distinct key numbers, exits whose data lies inside the shared structure, and any order of turns of
  the virtual CPU and rounds of the viewer with any key events. Either all turns complete, and every
  device and the window keep their invariants; or the turns up to some point complete and the next
  one fails an assertion, or one of the accesses of its port exit, in the order and with the
  width and data of the exit, is listed in \<open>wild_site\<close> or \<open>null_site\<close>, or it accesses video memory or the
  ROM beyond the 128 KB of its window, or it draws a text screen that starts above cell 14384.
\<close>

theorem program_faults:
  assumes "host_ok h" and "vgabios_rom h = Some f" and "length f \<le> 0x20000" and "hdd_img h = Some img"
    and "devices_start h ram = Inr m0" and "key_numbers_ok code" and "length p = 640 * 400"
    and "\<forall>x. Cpu x \<in> set ts \<longrightarrow> exit_ok x"
  shows "case run_program code ts (p, m0) of
      Inl e \<Rightarrow> \<exists>ys t zs s1 es. ts = ys @ t # zs \<and> run_program code ys (p, m0) = Inr (False, s1, es) \<and>
        machine_run m0 es (snd s1) \<and> turn_site (snd s1) t e
    | Inr (b, s, es) \<Rightarrow> length (fst s) = 640 * 400 \<and> machine_wf (rom_image f) ram (snd s) \<and>
        machine_run m0 es (snd s)"
proof -
  have "program_wf (rom_image f) ram (p, m0)" using started(1) [OF assms(1-5)] assms(7) by (simp add: program_wf_def)
  from run_program_site [OF assms(6) this assms(8), of m0 "[]"] show ?thesis
    by (auto simp: run_start program_wf_def split: sum.splits prod.splits)
qed

text \<open>The guest reads a word from the clock's ports, which have no function for that.\<close>

theorem program_faults_witness:
  "\<exists>ys t zs s1 es. [Cpu (Exit_IO \<lparr> io_out = False, io_size = 2, io_port = 0x70, io_count = 1,
        data_offset = 0, run_page = [0, 0] \<rparr>), Frame []] = ys @ t # zs \<and>
     machine_run example_machine es (snd s1) \<and> turn_site (snd s1) t Null_Call"
proof -
  let ?x = "Exit_IO \<lparr> io_out = False, io_size = 2, io_port = 0x70, io_count = 1, data_offset = 0,
    run_page = [0, 0] \<rparr>"
  let ?p = "replicate 256000 (0 :: uint32)"
  have "port_owner (unat (0x70 :: uint16)) = Some IO_CMOS" unfolding port_owner_Some by simp
  then have "lookup_handler machine_table 0x70 = Some (handler_of IO_CMOS)" by (simp only: lookup_machine option.map)
  then have io: "io_inw machine_table 0x70 example_machine = Inl Null_Call"
    by (simp add: io_inw_def lift_handler_def cmos_hdl_def)
  have one: "unat (1 :: uint32) = Suc 0" by simp
  have "handle_io machine_table \<lparr> io_out = False, io_size = 2, io_port = 0x70, io_count = 1, data_offset = 0,
      run_page = [0, 0] \<rparr> example_machine = Inl Null_Call"
    by (simp add: handle_io_def one page_store_def io ebind_def)
  then have "cpu_turn ?x (?p, example_machine) = Inl Null_Call"
    by (simp add: cpu_turn_def lift_effect_def ebind_def)
  then have run: "run_program sdl12 [Cpu ?x, Frame []] (?p, example_machine) = Inl Null_Call"
    by (simp add: program_turn_def ebind_def)
  have "\<forall>x. Cpu x \<in> set [Cpu ?x, Frame []] \<longrightarrow> exit_ok x" by (simp add: exit_ok_def)
  from program_faults [OF example_host(1,3) _ example_host(4) example_machine sdl12_ok _ this, of ?p] run
  show ?thesis by auto
qed

end
