(* ===== verification/Memory_Reports.thy ===== *)
theory Memory_Reports
  imports Cmos Guest_Memory Qemu_Paravirt
begin

text \<open>
  What firmware is told about memory, against the memory slots requested from KVM: the
  sizes in the CMOS (\<^verbatim>\<open>cmos.c\<close>) and the E820 table (\<^verbatim>\<open>qemu_paravirt.c\<close>) are computed apart
  from \<^verbatim>\<open>map_ram\<close> of \<^verbatim>\<open>system.c\<close>; here they are compared.
\<close>

definition cmos_query :: "uint8 list \<Rightarrow> access list" where
  "cmos_query regs = concat (map (\<lambda>i. [Out8 0x70 i, In8 0x71]) regs)"

text \<open>A number in units of 64 KB from its bytes, lowest first.\<close>

fun from_bytes :: "nat list \<Rightarrow> nat" where
  "from_bytes [] = 0"
| "from_bytes (b # bs) = b + 256 * from_bytes bs"

lemma low_byte_field: "unat (low_byte (drop_bit k x AND 0xFF)) = unat x div 2 ^ k mod 256"
proof -
  have t: "(drop_bit k x AND 0xFF) = take_bit 8 (drop_bit k x)" by (simp add: take_bit_eq_mask mask_eq_exp_minus_1)
  have "unat x < 2 ^ 64" using unsigned_less [of x, where 'a = nat] by simp
  then show ?thesis
    unfolding low_byte_def t unsigned_ucast_eq unsigned_take_bit_eq unsigned_drop_bit_eq
    by (simp add: take_bit_eq_mod drop_bit_eq_div)
qed

lemma low_byte_drop: "unat (low_byte (drop_bit k x)) = unat x div 2 ^ k mod 256"
proof -
  have "low_byte (drop_bit k x) = low_byte (drop_bit k x AND 0xFF)"
  proof -
    have "drop_bit k x AND 0xFF = take_bit 8 (drop_bit k x)" by (simp add: take_bit_eq_mask mask_eq_exp_minus_1)
    then show ?thesis unfolding low_byte_def by (intro bit_word_eqI) (auto simp: bit_simps)
  qed
  then show ?thesis by (simp only: low_byte_field)
qed

lemma two_bytes: "from_bytes [x div 2 ^ 10 mod 256, x div 2 ^ 18 mod 256] = x div 1024 mod 65536"
proof -
  have "x div 2 ^ 18 = x div 1024 div 256" by (simp add: div_mult2_eq [symmetric])
  then show ?thesis using mod_mult2_eq [of "x div 1024" 256 256] by simp
qed

lemma recombine:
  assumes "65536 dvd x"
  shows "x < 2 ^ 32 \<Longrightarrow> 65536 * from_bytes [x div 2 ^ 16 mod 256, x div 2 ^ 24 mod 256] = x"
    and "x < 2 ^ 40 \<Longrightarrow>
      65536 * from_bytes [x div 2 ^ 16 mod 256, x div 2 ^ 24 mod 256, x div 2 ^ 32 mod 256] = x"
proof -
  obtain k where k: "x = 65536 * k" using assms by blast
  have d: "x div 2 ^ 16 = k" "x div 2 ^ 24 = k div 256" "x div 2 ^ 32 = k div 256 div 256"
    using div_mult2_eq [of x 65536 256] div_mult2_eq [of x 65536 65536] div_mult2_eq [of k 256 256]
    by (simp_all add: k)
  have m: "y mod 256 + 256 * (y div 256) = y" for y :: nat by simp
  show "65536 * from_bytes [x div 2 ^ 16 mod 256, x div 2 ^ 24 mod 256] = x" if "x < 2 ^ 32"
  proof -
    have "k div 256 < 256" using that by (simp add: k less_mult_imp_div_less)
    then show ?thesis unfolding d using m [of k] by (simp add: k)
  qed
  show "65536 * from_bytes [x div 2 ^ 16 mod 256, x div 2 ^ 24 mod 256, x div 2 ^ 32 mod 256] = x" if "x < 2 ^ 40"
  proof -
    have "k div 256 div 256 < 256" using that by (simp add: k less_mult_imp_div_less div_mult2_eq [symmetric])
    then show ?thesis unfolding d using m [of k] m [of "k div 256"] by (simp add: k)
  qed
qed

lemma unat_ext_mem:
  assumes "ramsize c = ram_end_of megs" and "16 \<le> unat megs"
  shows "unat (ext_mem c) = min (unat megs * 1048576) 0xE0000000 - 0x1000000"
proof (cases "unat megs \<le> 3584")
  case True
  then have "ext_mem c = ram_end_of megs - 0x1000000"
    using ram_end_le [of megs] by (simp add: ext_mem_def assms(1) not_le [symmetric])
  moreover have "unat (ram_end_of megs - 0x1000000) = unat megs * 1048576 - 0x1000000"
    using assms(2) by (subst ram_end_sub) simp_all
  ultimately show ?thesis using True by (simp add: min_def)
next
  case False
  then have "ext_mem c = 0xE0000000 - 0x1000000"
    using ram_end_le [of megs] by (simp add: ext_mem_def assms(1) not_le [symmetric])
  with False show ?thesis by (simp add: min_def)
qed

lemma unat_high_mem:
  assumes "ramsize c = ram_end_of megs"
  shows "unat (high_mem c) = (unat megs - 3585) * 1048576"
proof (cases "unat megs \<le> 3584")
  case True
  with assms show ?thesis using ram_end_le [of megs] by (simp add: high_mem_def)
next
  case False
  then have "high_mem c = ram_end_of megs - 0xE0100000"
    using ram_end_le [of megs] by (simp add: high_mem_def assms)
  moreover have "unat (ram_end_of megs - 0xE0100000) = unat megs * 1048576 - 0xE0100000"
    using False by (subst ram_end_sub) simp_all
  ultimately show ?thesis using False by (simp add: diff_mult_distrib)
qed

lemma cmos_register_read:
  assumes "\<not> bit i 7" and "cmos_inb 1 (c\<lparr>indexreg := i\<rparr>) = ret v (c\<lparr>indexreg := i\<rparr>)"
  shows "handler_run cmos_hdl [Out8 0x70 i, In8 0x71] c = emit [] [0, ucast v] (c\<lparr>indexreg := i\<rparr>)"
  unfolding cmos_index_then_read [OF assms(1)] assms(2) by simp

text \<open>
  The memory registers: extended memory in KB, twice, then the memory above 16 MB and above 4 GB in
  units of 64 KB; and what they hold, read one after the other.
\<close>

definition mem_reg_list :: "uint8 list" where
  "mem_reg_list = [0x17, 0x18, 0x30, 0x31, 0x34, 0x35, 0x5B, 0x5C, 0x5D]"

definition mem_regs :: "cmos \<Rightarrow> uint8 list" where
  "mem_regs c = [0xFF, 0xFF] @ map (\<lambda>k. low_byte (drop_bit k (ext_mem c))) [10, 18] @
     map (\<lambda>k. low_byte (drop_bit k (ext_mem c) AND 0xFF)) [16, 24] @
     map (\<lambda>k. low_byte (drop_bit k (high_mem c) AND 0xFF)) [16, 24, 32]"

lemma cmos_query_memory:
  "handler_run cmos_hdl (cmos_query mem_reg_list) c =
     emit [] (concat (map (\<lambda>v. [0, ucast v]) (mem_regs c))) (c\<lparr>indexreg := 0x5D\<rparr>)"
proof -
  have step: "handler_run cmos_hdl [Out8 0x70 i, In8 0x71] (c\<lparr>indexreg := j\<rparr>) =
      emit [] [0, ucast v] (c\<lparr>indexreg := i\<rparr>)"
    if "(i, v) \<in> set (zip mem_reg_list (mem_regs c))" for i j v
    using cmos_register_read [of i "c\<lparr>indexreg := j\<rparr>" v] that
    by (simp add: mem_regs_def mem_reg_list_def, elim disjE)
       (simp_all add: cmos_inb_def Let_def ext_mem_def high_mem_def)
  have q: "handler_run cmos_hdl (cmos_query ps) (c\<lparr>indexreg := j\<rparr>) =
      emit [] (concat (map (\<lambda>v. [0, ucast v]) vs)) (c\<lparr>indexreg := last (j # ps)\<rparr>)"
    if "length ps = length vs" "set (zip ps vs) \<subseteq> set (zip mem_reg_list (mem_regs c))" for ps vs j
    using that
  proof (induction ps vs arbitrary: j rule: list_induct2)
    case (Cons i ps v vs)
    have "handler_run cmos_hdl ([Out8 0x70 i, In8 0x71] @ cmos_query ps) (c\<lparr>indexreg := j\<rparr>) =
        emit ([] @ []) ([0, ucast v] @ concat (map (\<lambda>v. [0, ucast v]) vs)) (c\<lparr>indexreg := last (i # ps)\<rparr>)"
      by (rule run_with_append_emit [OF step Cons.IH]) (use Cons.prems in auto)
    then show ?case by (simp add: cmos_query_def)
  qed (simp add: cmos_query_def)
  from q [of mem_reg_list "mem_regs c" "indexreg c"] show ?thesis
    by (simp add: mem_regs_def mem_reg_list_def)
qed

lemma mem_regs_fields:
  assumes "ramsize c = ram_end_of megs" and "16 \<le> unat megs" and "unat megs \<le> 0x100000"
  shows "from_bytes (map unat (take 2 (mem_regs c))) = 0xFFFF"
    and "from_bytes (map unat (take 2 (drop 2 (mem_regs c)))) = unat (ext_mem c) div 1024 mod 65536"
    and "65536 * from_bytes (map unat (take 2 (drop 4 (mem_regs c)))) = unat (ext_mem c)" (is ?E)
    and "65536 * from_bytes (map unat (drop 6 (mem_regs c))) = unat (high_mem c)" (is ?H)
proof -
  show "from_bytes (map unat (take 2 (mem_regs c))) = 0xFFFF" by (simp add: mem_regs_def)
  show "from_bytes (map unat (take 2 (drop 2 (mem_regs c)))) = unat (ext_mem c) div 1024 mod 65536"
    using two_bytes [of "unat (ext_mem c)"] by (simp add: mem_regs_def low_byte_drop)
  have "65536 dvd unat (ext_mem c)"
    unfolding unat_ext_mem [OF assms(1,2)] by (simp add: min_def dvd_diff_nat)
  moreover have "unat (ext_mem c) < 2 ^ 32" unfolding unat_ext_mem [OF assms(1,2)] by simp
  ultimately show ?E using recombine(1) [of "unat (ext_mem c)"] by (simp add: mem_regs_def low_byte_field)
  have "65536 dvd unat (high_mem c)" "unat (high_mem c) < 2 ^ 40"
    unfolding unat_high_mem [OF assms(1)] using assms(3) by simp_all
  then show ?H using recombine(2) [of "unat (high_mem c)"] by (simp add: mem_regs_def low_byte_field)
qed

text \<open>
  C20: the memory the CMOS announces against the memory KVM maps. For every RAM size from 16 MB to
  1 TB, 16 MB plus 64 KB times the number in the registers \<open>0x34\<close>, \<open>0x35\<close> is the end of the slot that starts
  at 1 MB, and 64 KB times the number in \<open>0x5B\<close> to \<open>0x5D\<close> is the size of the slot above 4 GB, 0 when
  there is none. The registers for extended memory do not follow the slots: \<open>0x17\<close>, \<open>0x18\<close> always say 65535 KB,
  and \<open>0x30\<close>, \<open>0x31\<close> the KB from 16 MB to the end of the slot, modulo 65536.
\<close>

theorem cmos_reports_slots:
  assumes "length f \<le> 0x20000" and "length g \<le> 0x20000" and "16 \<le> unat megs" and "unat megs \<le> 0x100000"
    and "create_memory (Some f) (Some g) megs = Inr (Some mem)" and "cmos_wf (sys_ramsize mem) c"
  shows "\<exists>b c'. length b = 9 \<and>
    handler_run cmos_hdl (cmos_query [0x17, 0x18, 0x30, 0x31, 0x34, 0x35, 0x5B, 0x5C, 0x5D]) c =
      emit [] (concat (map (\<lambda>v. [0, ucast v]) b)) c' \<and>
    fst (guest_intervals mem ! 5) = 0x100000 \<and>
    0x1000000 + 65536 * from_bytes (map unat (take 2 (drop 4 (b :: uint8 list)))) = snd (guest_intervals mem ! 5) \<and>
    65536 * from_bytes (map unat (drop 6 b)) =
      (if length (guest_intervals mem) = 6 then 0
       else snd (guest_intervals mem ! 6) - fst (guest_intervals mem ! 6)) \<and>
    from_bytes (map unat (take 2 b)) = 0xFFFF \<and>
    from_bytes (map unat (take 2 (drop 2 b))) = (snd (guest_intervals mem ! 5) - 0x1000000) div 1024 mod 65536"
proof -
  have mem: "guest_intervals mem = [(0xE0000, 0x100000), (0xFFFE0000, 0x100000000), (0xC0000, 0xE0000),
      (0, 0xA0000), (0xC0000, 0xE0000)] @ ram_slots megs" "sys_ramsize mem = ram_end_of megs"
    using create_memory_layout [OF assms(1,2), of megs] assms(3,5) by auto
  have ram: "ramsize c = ram_end_of megs" using assms(6) by (simp add: cmos_wf_def mem(2))
  have len: "length (mem_regs c) = 9" by (simp add: mem_regs_def)
  show ?thesis
    by (intro exI [of _ "mem_regs c"] exI [of _ "c\<lparr>indexreg := 0x5D\<rparr>"] conjI len
          cmos_query_memory [unfolded mem_reg_list_def])
       (simp_all only: mem_regs_fields [OF ram assms(3,4)] unat_ext_mem [OF ram assms(3)]
          unat_high_mem [OF ram] mem(1),
        use assms(3) in \<open>auto simp: ram_slots_def min_def\<close>)
qed

text \<open>With 8 GB there are 4607 MB above 4 GB.\<close>

theorem cmos_reports_slots_witness:
  "\<exists>mem b c'. create_memory (Some []) (Some []) 8192 = Inr (Some mem) \<and>
     handler_run cmos_hdl (cmos_query [0x17, 0x18, 0x30, 0x31, 0x34, 0x35, 0x5B, 0x5C, 0x5D])
       (cmos_start (sys_ramsize mem) example_tm) = emit [] (concat (map (\<lambda>v. [0, ucast v]) b)) c' \<and>
     65536 * from_bytes (map unat (drop 6 (b :: uint8 list))) = 4607 * 1048576"
proof -
  obtain mem where m: "create_memory (Some []) (Some []) 8192 = Inr (Some mem)"
    "guest_intervals mem = [(0xE0000, 0x100000), (0xFFFE0000, 0x100000000), (0xC0000, 0xE0000),
      (0, 0xA0000), (0xC0000, 0xE0000)] @ ram_slots 8192"
    using create_memory_layout [of "[]" "[]" 8192] by auto
  show ?thesis
    using cmos_reports_slots [OF _ _ _ _ m(1) cmos_wf_start, of example_tm] m
    by (auto simp: ram_slots_def)
qed

subsection \<open>The E820 table\<close>

text \<open>The ranges the table calls RAM, from start to end.\<close>

definition e820_ram_ranges :: "uint8 list \<Rightarrow> (nat \<times> nat) list" where
  "e820_ram_ranges bs = [(a, a + l). (a, l, t) \<leftarrow> e820_parse bs, t = unat E820_RAM]"

text \<open>
  C40: the table is fixed. Its two RAM ranges are memory slots requested from KVM exactly when
  the machine has at least 3584 MB; with less memory the table announces RAM that no slot
  backs, and memory above 4 GB is never in it.
\<close>

theorem e820_matches_slots:
  assumes "length f \<le> 0x20000" and "length g \<le> 0x20000" and "1 \<le> unat megs"
    and "create_memory (Some f) (Some g) megs = Inr (Some mem)"
  shows "e820_ram_ranges e820table = [(0, 0xA0000), (0x100000, 0xE0000000)] \<and>
    (set (e820_ram_ranges e820table) \<subseteq> set (guest_intervals mem) \<longleftrightarrow> 3584 \<le> unat megs)"
proof -
  have r: "e820_ram_ranges e820table = [(0, 0xA0000), (0x100000, 0xE0000000)]"
    by (simp add: e820_ram_ranges_def e820_parse_table E820_RAM_def)
  have "guest_intervals mem = [(0xE0000, 0x100000), (0xFFFE0000, 0x100000000), (0xC0000, 0xE0000),
      (0, 0xA0000), (0xC0000, 0xE0000)] @ ram_slots megs"
    using create_memory_layout [OF assms(1-3)] assms(4) by auto
  then show ?thesis unfolding r by (auto simp: ram_slots_def)
qed

theorem e820_matches_slots_witness:
  "\<exists>mem. create_memory (Some []) (Some []) 8192 = Inr (Some mem) \<and>
     set (e820_ram_ranges e820table) \<subseteq> set (guest_intervals mem)"
proof -
  obtain mem where m: "create_memory (Some []) (Some []) 8192 = Inr (Some mem)"
    using create_memory_layout [of "[]" "[]" 8192] by auto
  with e820_matches_slots [OF _ _ _ m] show ?thesis by auto
qed

end
