(* ===== verification/Memory_View.thy ===== *)
theory Memory_View
  imports Guest_Memory
begin

text \<open>
  The memory the guest sees. Each \<^verbatim>\<open>sys_map\<close> of \<^verbatim>\<open>system.c\<close> asks the kernel for a slot with
  \<^verbatim>\<open>KVM_SET_USER_MEMORY_REGION\<close>; the kernel may refuse, \<^verbatim>\<open>sys_map\<close> then returns -1, and no caller
  looks at that. The kernel is the argument \<open>kvm\<close>: whether it takes a region next to those
  it has. What is relied on is its documented rule that slots must not overlap.
\<close>

type_synonym kvm_memory = "mem_region list \<Rightarrow> mem_region \<Rightarrow> bool"

definition apart :: "mem_region \<Rightarrow> mem_region \<Rightarrow> bool" where
  "apart q r \<longleftrightarrow> region_end q \<le> region_start r \<or> region_end r \<le> region_start q"

definition slots_disjoint :: "kvm_memory \<Rightarrow> bool" where
  "slots_disjoint kvm \<longleftrightarrow> (\<forall>rs r. kvm rs r \<longleftrightarrow> (\<forall>q \<in> set rs. apart q r))"

text \<open>The \<^verbatim>\<open>ioctl\<close> of one \<^verbatim>\<open>sys_map\<close>: what the call returns and the slots the kernel then has.\<close>

definition sys_map_ioctl :: "kvm_memory \<Rightarrow> mem_region \<Rightarrow> mem_region list \<Rightarrow> int \<times> mem_region list" where
  "sys_map_ioctl kvm r rs = (if kvm rs r then (0, rs @ [r]) else (-1, rs))"

definition guest_slots :: "kvm_memory \<Rightarrow> sysmem \<Rightarrow> mem_region list" where
  "guest_slots kvm m = foldl (\<lambda>rs r. snd (sys_map_ioctl kvm r rs)) [] (regions m)"

text \<open>What is behind a guest-physical address: a host block and an offset, or an exit.\<close>

definition guest_view :: "mem_region list \<Rightarrow> nat \<Rightarrow> (host_block \<times> nat) option" where
  "guest_view rs a = map_option (\<lambda>r. (userspace r, a - region_start r))
     (List.find (\<lambda>r. region_start r \<le> a \<and> a < region_end r) rs)"

text \<open>What is behind a pointer of \<open>sys_getLowMem\<close>.\<close>

fun low_block :: "low_ptr \<Rightarrow> host_block \<times> nat" where
  "low_block (Low0 off) = (Low_640K, off)"
| "low_block (Low1 off) = (Low_ROM, off)"

abbreviation region :: "int \<Rightarrow> uint64 \<Rightarrow> uint64 \<Rightarrow> host_block \<Rightarrow> mem_region" where
  "region k a n b \<equiv> \<lparr> slot = k, guest_phys_addr = a, memory_size = n, userspace = b \<rparr>"

definition ram_regions :: "uint32 \<Rightarrow> mem_region list" where
  "ram_regions megs =
     (if unat megs \<le> 3584 then [region 6 0x100000 (ram_end_of megs - 0x100000) Ram_Below_4G]
      else [region 6 0x100000 (0xE0000000 - 0x100000) Ram_Below_4G,
            region 7 0x100000000 (ram_end_of megs - 0xE0100000) Ram_Above_4G])"

lemma create_memory_regions:
  assumes "length f \<le> 0x20000" and "length g \<le> 0x20000"
    and "create_memory (Some f) (Some g) megs = Inr (Some m)"
  shows "regions m = [region 1 0xE0000 0x20000 Bios_Image, region 2 0xFFFE0000 0x20000 Bios_Image,
      region 3 0xC0000 0x20000 Vga_Image, region 4 0 0xA0000 Low_640K, region 5 0xC0000 0x20000 Low_ROM] @
      ram_regions megs"
proof -
  have "page_round (length f) \<le> 0x20000" "page_round (length g) \<le> 0x20000"
    using assms(1,2) by (simp_all add: page_round_le)
  with assms(3) show ?thesis
    by (auto simp: create_memory_def load_bios_def load_bios_vga_def map_ram_def ram_end_le
        sys_map_def Let_def sysmem_zero_def ram_regions_def)
qed

lemma region_bounds [simp]:
  "region_start (region k a n b) = unat a" "region_end (region k a n b) = unat a + unat n"
  by (simp_all add: region_start_def region_end_def)

text \<open>The slots the kernel takes: all but the one behind \<^verbatim>\<open>phys_lowmem[1]\<close>.\<close>

lemma guest_slots_taken:
  assumes "slots_disjoint kvm" and "1 \<le> unat megs"
    and "regions m = [region 1 0xE0000 0x20000 Bios_Image, region 2 0xFFFE0000 0x20000 Bios_Image,
      region 3 0xC0000 0x20000 Vga_Image, region 4 0 0xA0000 Low_640K, region 5 0xC0000 0x20000 Low_ROM] @
      ram_regions megs"
  shows "guest_slots kvm m = [region 1 0xE0000 0x20000 Bios_Image, region 2 0xFFFE0000 0x20000 Bios_Image,
      region 3 0xC0000 0x20000 Vga_Image, region 4 0 0xA0000 Low_640K] @ ram_regions megs"
proof -
  have k: "kvm rs r \<longleftrightarrow> (\<forall>q \<in> set rs. apart q r)" for rs r using assms(1) by (simp add: slots_disjoint_def)
  show ?thesis
  proof (cases "unat megs \<le> 3584")
    case True
    then have "unat (ram_end_of megs - 0x100000) = unat megs * 1048576 - 0x100000"
      using assms(2) by (subst ram_end_sub) simp_all
    with True assms(2) show ?thesis
      by (simp add: guest_slots_def assms(3) sys_map_ioctl_def k apart_def ram_regions_def)
  next
    case False
    then have "unat (ram_end_of megs - 0xE0100000) = unat megs * 1048576 - 0xE0100000"
      by (subst ram_end_sub) simp_all
    with False show ?thesis
      by (simp add: guest_slots_def assms(3) sys_map_ioctl_def k apart_def ram_regions_def)
  qed
qed

text \<open>
  C21: the memory the guest sees. With both ROM images and any amount of RAM from 1 MB, and a
  kernel that takes a slot exactly when it overlaps none it has, the guest finds at each address
  what the list below says. The slot behind \<^verbatim>\<open>phys_lowmem[1]\<close> is refused, so of the addresses
  for which \<^verbatim>\<open>sys_getLowMem\<close> has a pointer, devices and guest share memory exactly below 640 KB:
  what a device transfers to \<open>0xC0000\<close> and up is never seen.
\<close>

theorem guest_memory_view:
  assumes "length f \<le> 0x20000" and "length g \<le> 0x20000" and "1 \<le> unat megs"
    and "create_memory (Some f) (Some g) megs = Inr (Some m)" and "slots_disjoint kvm"
  shows "guest_view (guest_slots kvm m) a =
      (if a < 0xA0000 then Some (Low_640K, a)
       else if 0xC0000 \<le> a \<and> a < 0xE0000 then Some (Vga_Image, a - 0xC0000)
       else if 0xE0000 \<le> a \<and> a < 0x100000 then Some (Bios_Image, a - 0xE0000)
       else if 0x100000 \<le> a \<and> a < min (unat megs) 3584 * 1048576 then Some (Ram_Below_4G, a - 0x100000)
       else if 0xFFFE0000 \<le> a \<and> a < 0x100000000 then Some (Bios_Image, a - 0xFFFE0000)
       else if 0x100000000 \<le> a \<and> a < 0x100000000 + (unat megs - 3585) * 1048576 then Some (Ram_Above_4G, a - 0x100000000)
       else None) \<and>
    ((\<exists>p. sys_getLowMem addr = Inr p \<and> guest_view (guest_slots kvm m) (unat addr) = Some (low_block p)) \<longleftrightarrow>
       unat addr < 0xA0000)"
proof -
  have s: "guest_slots kvm m = [region 1 0xE0000 0x20000 Bios_Image, region 2 0xFFFE0000 0x20000 Bios_Image,
      region 3 0xC0000 0x20000 Vga_Image, region 4 0 0xA0000 Low_640K] @ ram_regions megs"
    by (rule guest_slots_taken [OF assms(5,3) create_memory_regions [OF assms(1,2,4)]])
  have v: "guest_view (guest_slots kvm m) a =
      (if a < 0xA0000 then Some (Low_640K, a)
       else if 0xC0000 \<le> a \<and> a < 0xE0000 then Some (Vga_Image, a - 0xC0000)
       else if 0xE0000 \<le> a \<and> a < 0x100000 then Some (Bios_Image, a - 0xE0000)
       else if 0x100000 \<le> a \<and> a < min (unat megs) 3584 * 1048576 then Some (Ram_Below_4G, a - 0x100000)
       else if 0xFFFE0000 \<le> a \<and> a < 0x100000000 then Some (Bios_Image, a - 0xFFFE0000)
       else if 0x100000000 \<le> a \<and> a < 0x100000000 + (unat megs - 3585) * 1048576 then Some (Ram_Above_4G, a - 0x100000000)
       else None)" for a
  proof (cases "unat megs \<le> 3584")
    case True
    then have "unat (ram_end_of megs - 0x100000) = unat megs * 1048576 - 0x100000"
      using assms(3) by (subst ram_end_sub) simp_all
    with True assms(3) show ?thesis by (simp add: s guest_view_def ram_regions_def)
  next
    case False
    then obtain j where j: "unat megs = 3585 + j" using le_Suc_ex [of 3585 "unat megs"] by auto
    have "unat (ram_end_of megs - 0xE0100000) = j * 1048576"
      by (subst ram_end_sub) (simp_all add: j)
    with False show ?thesis by (simp add: s guest_view_def ram_regions_def j)
  qed
  show ?thesis
    by (rule conjI, rule v, simp only: v) (auto simp: getLowMem_cases)
qed

theorem guest_memory_view_witness:
  "\<exists>m. create_memory (Some []) (Some []) 8192 = Inr (Some m) \<and>
    guest_view (guest_slots (\<lambda>rs r. \<forall>q \<in> set rs. apart q r) m) 0xC8000 = Some (Vga_Image, 0x8000)"
proof -
  obtain m where m: "create_memory (Some []) (Some []) 8192 = Inr (Some m)"
    using create_memory_layout [of "[]" "[]" 8192] by auto
  have "slots_disjoint (\<lambda>rs r. \<forall>q \<in> set rs. apart q r)" by (simp add: slots_disjoint_def)
  from guest_memory_view [OF _ _ _ m this, of "0xC8000" 0] m show ?thesis by simp
qed

end
