(* ===== verification/Interleaving.thy ===== *)
theory Interleaving
  imports Machine_Reach
begin

text \<open>
  The two threads of the program: the one of the virtual CPU, which calls the device handlers,
  and the one of the viewer (\<^verbatim>\<open>viewer_thread\<close>), which calls \<^verbatim>\<open>kbd_inject\<close>. A schedule is one
  interleaving of their calls, with each call atomic. As long as the guest leaves the ports of
  the keyboard controller alone, all interleavings of the same two sequences have the same
  outcome.
\<close>

subsection \<open>Key events and accesses to other devices commute\<close>

abbreviation with_kbd :: "kbd \<Rightarrow> machine \<Rightarrow> machine" where
  "with_kbd r m \<equiv> m\<lparr>m_kbd := r\<rparr>"

definition map_state :: "('s \<Rightarrow> 't) \<Rightarrow> ('s, 'a) effect \<Rightarrow> ('t, 'a) effect" where
  "map_state f m = (case m of Inl e \<Rightarrow> Inl e | Inr (v, s, es) \<Rightarrow> Inr (v, f s, es))"

lemma map_state_Inr: "map_state f m = Inr (v, t, es) \<longleftrightarrow> (\<exists>s. m = Inr (v, s, es) \<and> t = f s)"
  by (auto simp: map_state_def split: sum.splits prod.splits)

lemma map_state_simps [simp]: "map_state f (emit es v s) = emit es v (f s)" "map_state f (Inl e) = Inl e"
  by (simp_all add: map_state_def emit_def)

lemma lift_effect_apart:
  assumes "\<And>m. get (f m) = get m" and "\<And>s m. put s (f m) = f (put s m)"
  shows "lift_effect get put g (f m) = map_state f (lift_effect get put g m)"
  by (auto simp: lift_effect_def map_state_def assms split: sum.splits prod.splits)

lemma access_apart:
  assumes "d \<noteq> IO_Kbd"
  shows "handler_access (handler_of d) a (with_kbd r m) = map_state (with_kbd r) (handler_access (handler_of d) a m)"
proof -
  have "(put_fsys s (with_kbd r m)) = with_kbd r (put_fsys s m)"
    "get_fsys (with_kbd r m) = get_fsys m" "get_pci (with_kbd r m) = get_pci m"
    "put_pci p (with_kbd r m) = with_kbd r (put_pci p m)" for s p m
    by (simp_all add: put_fsys_def get_fsys_def put_pci_def get_pci_def)
  with assms show ?thesis
    by (cases d) (simp_all add: handler_access_lift lift_effect_apart [where f = "with_kbd r"])
qed

lemma access_keeps_kbd:
  assumes "port_owner (unat (access_port a)) \<noteq> Some IO_Kbd"
  shows "bus_access machine_table a (with_kbd r m) = map_state (with_kbd r) (bus_access machine_table a m)"
    and "bus_access machine_table a m = Inr (v, m', es) \<Longrightarrow> m_kbd m' = m_kbd m \<and> kbd_events es = []"
proof -
  show "bus_access machine_table a (with_kbd r m) = map_state (with_kbd r) (bus_access machine_table a m)"
  proof (cases "port_owner (unat (access_port a))")
    case None
    then have "lookup_handler machine_table (access_port a) = None" by (simp add: lookup_machine)
    then show ?thesis by (cases a) (simp_all add: io_defs)
  next
    case (Some d)
    then have l: "lookup_handler machine_table (access_port a) = Some (handler_of d)" by (simp add: lookup_machine)
    show ?thesis unfolding bus_access_handler [OF l] by (rule access_apart) (use assms Some in auto)
  qed
  assume acc: "bus_access machine_table a m = Inr (v, m', es)"
  show "m_kbd m' = m_kbd m \<and> kbd_events es = []"
  proof (cases "port_owner (unat (access_port a))")
    case None
    with access_unowned [OF acc] show ?thesis by (simp add: kbd_events_def)
  next
    case (Some d)
    with assms have "d \<noteq> IO_Kbd" by auto
    with access_owned(2,3) [OF acc Some] frame_kbd kbd_events_other show ?thesis by blast
  qed
qed

lemma ebind_map_state:
  assumes "\<And>v s. g v (f s) = map_state f (h v s)"
  shows "ebind (map_state f m) g = map_state f (ebind m h)"
  by (auto simp: map_state_def ebind_def assms split: sum.splits prod.splits)

lemma runs_apart:
  assumes "\<forall>a \<in> set as. port_owner (unat (access_port a)) \<noteq> Some IO_Kbd"
  shows "bus_run machine_table as (with_kbd r m) = map_state (with_kbd r) (bus_run machine_table as m)"
  using assms
proof (induction as arbitrary: m)
  case (Cons a as)
  then show ?case
    by (simp add: access_keeps_kbd(1) ebind_map_state [where f = "with_kbd r"] del: bus_access.simps)
qed simp

subsection \<open>Schedules\<close>

datatype call = Guest access | Key sdl_event

fun guest_calls :: "call list \<Rightarrow> access list" where
  "guest_calls [] = []"
| "guest_calls (Guest a # xs) = a # guest_calls xs"
| "guest_calls (Key ev # xs) = guest_calls xs"

fun key_calls :: "call list \<Rightarrow> sdl_event list" where
  "key_calls [] = []"
| "key_calls (Guest a # xs) = key_calls xs"
| "key_calls (Key ev # xs) = ev # key_calls xs"

text \<open>The values are those of the guest's accesses.\<close>

fun run_schedule :: "(sdl_key \<Rightarrow> int) \<Rightarrow> call list \<Rightarrow> machine \<Rightarrow> (machine, uint32 list) effect" where
  "run_schedule code [] m = ret [] m"
| "run_schedule code (Guest a # xs) m =
     ebind (bus_access machine_table a m) (\<lambda>v m1. ebind (run_schedule code xs m1) (\<lambda>vs. ret (v # vs)))"
| "run_schedule code (Key ev # xs) m =
     ebind (lift_effect m_kbd with_kbd (viewer_event code ev) m) (\<lambda>u. run_schedule code xs)"

definition other_events :: "event list \<Rightarrow> event list" where
  "other_events = filter (\<lambda>e. \<not> (\<exists>l. e = Irq_Set 1 l))"

lemma split_events:
  "kbd_events (es @ es') = kbd_events es @ kbd_events es'"
  "other_events (es @ es') = other_events es @ other_events es'"
  "kbd_events [] = []" "other_events [] = []"
  by (simp_all add: kbd_events_def other_events_def)

lemma other_events_id: "kbd_events es = [] \<Longrightarrow> other_events es = es"
  unfolding kbd_events_def other_events_def by (induction es) (auto split: if_splits)

lemma viewer_event_events:
  "viewer_event code ev r = Inr (u, r', es) \<Longrightarrow> kbd_events es = es \<and> other_events es = []"
  by (auto simp: viewer_event_def rbind_Inr kbd_inject_def kbd_events_def other_events_def
      split: sdl_event.splits option.splits)

text \<open>A schedule that returns: the guest's accesses on their own, and the keys on their own.\<close>

lemma schedule_threads:
  assumes "\<forall>a \<in> set (guest_calls xs). port_owner (unat (access_port a)) \<noteq> Some IO_Kbd"
  shows "(\<exists>es. run_schedule code xs m = Inr (vs, m', es) \<and> kbd_events es = ks \<and> other_events es = os) \<longleftrightarrow>
    (\<exists>m1 r. bus_run machine_table (guest_calls xs) m = Inr (vs, m1, os) \<and>
       viewer_events code (key_calls xs) (m_kbd m) = Inr ((), r, ks) \<and> m' = with_kbd r m1)"
  using assms
proof (induction xs arbitrary: m vs ks os)
  case Nil
  have "m' = m \<longleftrightarrow> m' = with_kbd (m_kbd m) m" by simp
  then show ?case by (auto simp: emit_def split_events)
next
  case (Cons x xs)
  show ?case
  proof (cases x)
    case (Guest a)
    show ?thesis
    proof (cases "bus_access machine_table a m")
      case (Inr b)
      obtain v m1 es1 where b: "b = (v, m1, es1)" by (cases b)
      have k: "m_kbd m1 = m_kbd m" "kbd_events es1 = []" "other_events es1 = es1"
        using access_keeps_kbd(2) [of a m v m1 es1] Cons.prems Guest Inr b other_events_id by auto
      have "(\<exists>es. run_schedule code (x # xs) m = Inr (vs, m', es) \<and> kbd_events es = ks \<and> other_events es = os) \<longleftrightarrow>
          (\<exists>vs' os'. vs = v # vs' \<and> os = es1 @ os' \<and> (\<exists>es. run_schedule code xs m1 = Inr (vs', m', es) \<and>
             kbd_events es = ks \<and> other_events es = os'))"
        using Guest Inr b k by (auto simp: ebind_Inr split_events simp del: bus_access.simps)
      also have "\<dots> \<longleftrightarrow> (\<exists>vs' os'. vs = v # vs' \<and> os = es1 @ os' \<and>
          (\<exists>m2 r. bus_run machine_table (guest_calls xs) m1 = Inr (vs', m2, os') \<and>
            viewer_events code (key_calls xs) (m_kbd m) = Inr ((), r, ks) \<and> m' = with_kbd r m2))"
        using Cons.IH [of m1] Cons.prems Guest k(1) by simp
      also have "\<dots> \<longleftrightarrow> (\<exists>m1 r. bus_run machine_table (guest_calls (x # xs)) m = Inr (vs, m1, os) \<and>
            viewer_events code (key_calls (x # xs)) (m_kbd m) = Inr ((), r, ks) \<and> m' = with_kbd r m1)"
        using Guest Inr b by (auto simp: ebind_Inr simp del: bus_access.simps)
      finally show ?thesis .
    qed (simp add: Guest del: bus_access.simps)
  next
    case (Key ev)
    show ?thesis
    proof (cases "viewer_event code ev (m_kbd m)")
      case (Inr b)
      obtain r1 es1 where b: "b = ((), r1, es1)" by (cases b) simp
      have k: "kbd_events es1 = es1" "other_events es1 = []"
        using viewer_event_events Inr b by blast+
      have "(\<exists>es. run_schedule code (x # xs) m = Inr (vs, m', es) \<and> kbd_events es = ks \<and> other_events es = os) \<longleftrightarrow>
          (\<exists>ks'. ks = es1 @ ks' \<and> (\<exists>es. run_schedule code xs (with_kbd r1 m) = Inr (vs, m', es) \<and>
             kbd_events es = ks' \<and> other_events es = os))"
        using Key Inr b k by (auto simp: ebind_Inr lift_effect_Inr split_events)
      also have "\<dots> \<longleftrightarrow> (\<exists>ks'. ks = es1 @ ks' \<and> (\<exists>m1 r.
          map_state (with_kbd r1) (bus_run machine_table (guest_calls xs) m) = Inr (vs, m1, os) \<and>
            viewer_events code (key_calls xs) r1 = Inr ((), r, ks') \<and> m' = with_kbd r m1))"
        using Cons.IH [of "with_kbd r1 m"] Cons.prems Key runs_apart by simp
      also have "\<dots> \<longleftrightarrow> (\<exists>m1 r. bus_run machine_table (guest_calls (x # xs)) m = Inr (vs, m1, os) \<and>
            viewer_events code (key_calls (x # xs)) (m_kbd m) = Inr ((), r, ks) \<and> m' = with_kbd r m1)"
        using Key Inr b by (auto simp: ebind_Inr map_state_Inr)
      finally show ?thesis .
    qed (simp add: Key lift_effect_def)
  qed
qed

text \<open>
  C13: the order of the two threads. As long as the guest leaves the ports of the keyboard
  controller alone, every interleaving of its accesses with the key events of the viewer has the
  outcome of the two threads run one after the other: the guest gets the same values, the
  machine ends in the same state, and each interrupt line sees the same requests in the same order.
\<close>

theorem thread_interleavings:
  assumes "\<forall>a \<in> set (guest_calls xs). port_owner (unat (access_port a)) \<noteq> Some IO_Kbd"
    and "bus_run machine_table (guest_calls xs) m = Inr (vs, m', os)"
    and "viewer_events code (key_calls xs) (m_kbd m) = Inr ((), r, ks)"
  shows "\<exists>es. run_schedule code xs m = Inr (vs, m'\<lparr>m_kbd := r\<rparr>, es) \<and>
    kbd_events es = ks \<and> other_events es = os"
  using schedule_threads [OF assms(1)] assms(2,3) by blast

text \<open>The guest prints two characters while a key is pressed.\<close>

theorem thread_interleavings_witness:
  "\<exists>es. run_schedule sdl12 [Guest (Out8 0x402 65), Key (key_event sdl12 SDLK_a True), Guest (Out8 0x402 66)]
      example_machine =
    Inr ([0, 0], example_machine\<lparr>m_kbd := keys_typed [(SDLK_a, 0x1E, True)] (m_kbd example_machine)\<rparr>, es) \<and>
    kbd_events es = [Irq_Set 1 1] \<and> other_events es = [Put_Char 65, Put_Char 66]"
proof -
  have o: "port_owner (unat (access_port (Out8 0x402 v))) = Some IO_Debug" for v unfolding port_owner_Some by simp
  then have l: "lookup_handler machine_table (access_port (Out8 0x402 v)) = Some (handler_of IO_Debug)" for v
    by (simp only: lookup_machine option.map)
  have acc: "bus_access machine_table (Out8 0x402 v) m = emit [Put_Char v] 0 m" for v m
    unfolding bus_access_handler [OF l] handler_of.simps handler_access_lift
    by (simp add: lift_effect_def biosdebug_hdl_def simple_port_defs) (simp add: emit_def)
  have run: "bus_run machine_table [Out8 0x402 65, Out8 0x402 66] example_machine =
      Inr ([0, 0], example_machine, [Put_Char 65, Put_Char 66])"
    by (simp add: acc ebind_emit del: bus_access.simps)
  have keys: "viewer_events sdl12 [key_event sdl12 SDLK_a True] (m_kbd example_machine) =
      Inr ((), keys_typed [(SDLK_a, 0x1E, True)] (m_kbd example_machine), [Irq_Set 1 1])"
    using viewer_events_listed [OF sdl12_ok, of "[(SDLK_a, 0x1E, True)]" "m_kbd example_machine"]
    by (simp add: kssc_keys_def emit_def)
  show ?thesis
    using thread_interleavings [of "[Guest (Out8 0x402 65), Key (key_event sdl12 SDLK_a True), Guest (Out8 0x402 66)]"
        example_machine "[0, 0]" example_machine] run keys o by simp
qed

end
