(* ===== verification/Machine_Floppy.thy ===== *)
theory Machine_Floppy
  imports Machine_Reach
begin

text \<open>
  A floppy read as the guest performs it: it programs channel 2 of the DMA controller and the
  page register, sends the read command to the floppy controller and fetches the result. Three
  devices and guest memory work together; the accesses are made on the bus of the machine.
\<close>

subsection \<open>Programming channel 2\<close>

text \<open>
  Master clear, address, count, mode and mask on the first controller, then the page register.
\<close>

definition channel_2 :: "nat \<Rightarrow> nat \<Rightarrow> uint8 \<Rightarrow> uint8 \<Rightarrow> access list" where
  "channel_2 a k mode msk = [Out8 0x0D 0, Out8 0x04 (of_nat a), Out8 0x04 (of_nat (a div 256)),
     Out8 0x05 (of_nat k), Out8 0x05 (of_nat (k div 256)), Out8 0x0B mode, Out8 0x0A msk]"

definition channel_2_regs :: "nat \<Rightarrow> nat \<Rightarrow> uint8 \<Rightarrow> uint8 \<Rightarrow> dma_ctl" where
  "channel_2_regs a k mode msk = \<lparr> dm_regs = (dm_regs dma_ctl_zero)
     [4 := [of_nat a, of_nat (a div 256)], 5 := [of_nat k, of_nat (k div 256)]],
     flipflop = (flipflop dma_ctl_zero)[4 := 2, 5 := 2], dm_mode = mode, dm_mask = 0xF0 OR (msk AND 0xF) \<rparr>"

lemma channel_2_run:
  assumes "dma_wf d"
  shows "handler_run (dma_hdl 0 k0) (channel_2 a k mode msk) d =
    emit [] [0, 0, 0, 0, 0, 0, 0] (set_ctl 0 (channel_2_regs a k mode msk) d)"
  using assms
  by (simp add: channel_2_def channel_2_regs_def dma_hdl_def i8237_outb_def i8237_decode_def Let_def ff_index_def
      dma_ctl_zero_def)

lemma page_run:
  assumes "dma_wf d"
  shows "handler_run dma_page_hdl [Out8 0x81 p] d = emit [] [0] (d\<lparr>page_reg := (page_reg d)[1 := p]\<rparr>)"
  using assms by (simp add: dma_page_hdl_def i8237_page_outb_def dma_wf_def)

lemma channel_2_nat:
  assumes "dma_wf d" and "a < 0x1000000" and "k < 0x10000"
    and "d' = (set_ctl 0 (channel_2_regs a k mode msk) d)\<lparr>page_reg := (page_reg d)[1 := of_nat (a div 65536)]\<rparr>"
  shows "dma_wf d'" and "dma_dest_nat d' = a" and "dma_count_nat d' = k"
proof -
  show "dma_wf d'"
    using assms(1) by (auto simp: assms(4) dma_wf_def dma_ctl_wf_def set_ctl_def channel_2_regs_def
      dma_ctl_zero_def nth_list_update)
  have p: "length (page_reg d) = 15" "length (ctl d) = 2" using assms(1) by (simp_all add: dma_wf_def)
  have q: "a div 65536 = a div 256 div 256" by (simp add: div_mult2_eq [symmetric])
  have "a div 65536 * 65536 + a div 256 mod 256 * 256 + a mod 256 = a"
    unfolding q using div_mult_mod_eq [of a 256] div_mult_mod_eq [of "a div 256" 256] by linarith
  then show "dma_dest_nat d' = a"
    using assms(2) p by (simp add: assms(4) dma_dest_nat_def channel_2_regs_def dma_ctl_zero_def
      set_ctl_def unat_of_nat)
  show "dma_count_nat d' = k"
    using assms(3) p by (simp add: assms(4) dma_count_nat_def channel_2_regs_def dma_ctl_zero_def
      set_ctl_def unat_of_nat)
qed

subsection \<open>The read on the bus of the machine\<close>

lemma owned_run:
  assumes "\<forall>a \<in> set as. port_owner (unat (access_port a)) = Some d"
    and "handler_of d = lift_handler get put h"
    and "\<And>s m. get (put s m) = s" and "\<And>s t m. put s (put t m) = put s m" and "\<And>m. put (get m) m = m"
    and "handler_run h as (get m) = emit es vs s"
  shows "bus_run machine_table as m = emit es vs (put s m)"
proof -
  have "bus_run machine_table as m = lift_effect get put (handler_run h as) m"
    by (rule bus_run_lift) (use assms(1-5) in \<open>simp_all add: lookup_machine\<close>)
  with assms(6) show ?thesis by (simp add: lift_effect_def emit_def)
qed

lemma fsys_lens:
  "get_fsys (put_fsys s m) = s" "put_fsys s (put_fsys t m) = put_fsys s m" "put_fsys (get_fsys m) m = m"
  by (simp_all add: get_fsys_def put_fsys_def)

text \<open>The channel as the guest programs it, as part of the machine.\<close>

definition with_channel :: "nat \<Rightarrow> nat \<Rightarrow> uint8 \<Rightarrow> uint8 \<Rightarrow> machine \<Rightarrow> machine" where
  "with_channel a k mode msk m = m\<lparr>m_dma := (set_ctl 0 (channel_2_regs a k mode msk) (m_dma m))
     \<lparr>page_reg := (page_reg (m_dma m))[1 := of_nat (a div 65536)]\<rparr>\<rparr>"

lemma machine_channel_2:
  assumes "machine_wf rom ram m"
  shows "bus_run machine_table (channel_2 a k mode msk @ [Out8 0x81 (of_nat (a div 65536))]) m =
    emit [] [0, 0, 0, 0, 0, 0, 0, 0] (with_channel a k mode msk m)"
proof -
  have wf: "dma_wf (m_dma m)" using assms by (simp add: machine_wf_def)
  let ?d = "set_ctl 0 (channel_2_regs a k mode msk) (m_dma m)"
  have wf1: "dma_wf ?d"
    using wf by (auto simp: dma_wf_def dma_ctl_wf_def set_ctl_def channel_2_regs_def dma_ctl_zero_def nth_list_update)
  have "port_owner (unat (access_port x)) = Some IO_DMA0" if "x \<in> set (channel_2 a k mode msk)" for x
    using that unfolding port_owner_Some by (auto simp: channel_2_def)
  then have 1: "bus_run machine_table (channel_2 a k mode msk) m = emit [] [0, 0, 0, 0, 0, 0, 0] (m\<lparr>m_dma := ?d\<rparr>)"
    by (intro owned_run [where d = IO_DMA0 and get = m_dma and h = "dma_hdl 0 (NOT 0x0F)"])
       (simp_all add: x86_i8237_dma_init_nth channel_2_run [OF wf])
  have "port_owner (unat (access_port (Out8 0x81 v))) = Some IO_Page" for v unfolding port_owner_Some by simp
  then have 2: "bus_run machine_table [Out8 0x81 (of_nat (a div 65536))] (m\<lparr>m_dma := ?d\<rparr>) =
      emit [] [0] ((\<lambda>s m. m\<lparr>m_dma := s\<rparr>) (?d\<lparr>page_reg := (page_reg ?d)[1 := of_nat (a div 65536)]\<rparr>) (m\<lparr>m_dma := ?d\<rparr>))"
    by (intro owned_run [where d = IO_Page and get = m_dma and h = dma_page_hdl])
       (use page_run [OF wf1] in \<open>simp_all add: x86_i8237_dma_init_nth del: run_with.simps\<close>)
  from run_with_append_emit [OF 1 2] show ?thesis by (simp add: with_channel_def)
qed

lemma floppy_ports_owner:
  "a \<in> set (fifo_writes bs @ fifo_reads k) \<Longrightarrow> port_owner (unat (access_port a)) = Some IO_Floppy"
  unfolding port_owner_Some by (auto split: if_splits)

text \<open>
  C6: a floppy read by the guest. On any machine satisfying the invariant, with an image in
  the drive and the controller idle, programming channel 2 for address \<open>a\<close> and \<open>512 * n\<close> bytes, the
  nine bytes of the read command and the seven reads of its result put the \<open>n\<close> addressed
  sectors of the image into guest memory at \<open>a\<close>, change no other byte of it, raise interrupt
  6 and lower it again, and leave the controller idle; only the floppy controller, the DMA
  controller and guest memory change.
\<close>

theorem machine_floppy_read:
  assumes wf: "machine_wf rom ram m" and idle: "fifondx (m_fdc m) = 0" and img: "fdc_in (m_fdc m) = Some img"
    and cmd: "cmd AND 0xF = 6" and n: "0 < n" "n \<le> 128" and dst: "a + 512 * n \<le> 0xA0000"
    and sec: "1 \<le> unat sec"
    and inside: "512 * (unat c * 36 + unat h * 18 + (unat sec - 1)) + 512 * n \<le> length img"
  shows "\<exists>m'. bus_run machine_table ((channel_2 a (512 * n - 1) mode msk @ [Out8 0x81 (of_nat (a div 65536))]) @
        (fifo_writes [cmd, us, c, h, sec, sz, of_nat n, gap, dtl] @ fifo_reads 7)) m =
      emit [Irq_Set 6 1, Irq_Set 6 0]
        (replicate 17 0 @ [0, 0, 0, ucast c, ucast h, ucast (pos_sect (m_fdc m)), 2]) m' \<and>
    low0 (m_mem m') = take a (low0 (m_mem m)) @
      file_read img (512 * (unat c * 36 + unat h * 18 + (unat sec - 1))) (512 * n) @
      drop (a + 512 * n) (low0 (m_mem m)) \<and>
    low1 (m_mem m') = low1 (m_mem m) \<and> fifondx (m_fdc m') = 0 \<and>
    m' = m\<lparr>m_fdc := m_fdc m', m_dma := m_dma m', m_mem := m_mem m'\<rparr>"
proof -
  let ?m = "with_channel a (512 * n - 1) mode msk m" and ?k = "512 * n - 1"
  have d: "dma_wf (m_dma m)" using wf by (simp add: machine_wf_def)
  have "a < 0x1000000" "?k < 0x10000" using dst n by simp_all
  note ch = channel_2_nat [OF d this refl, of mode msk]
  have f: "fsys_wf (get_fsys ?m)" "fifondx (the_fdc (get_fsys ?m)) = 0" "fdc_in (the_fdc (get_fsys ?m)) = Some img"
    "dma_count_nat (the_dma (get_fsys ?m)) + 1 = 512 * n" "dma_dest_nat (the_dma (get_fsys ?m)) = a"
    "the_mem (get_fsys ?m) = m_mem m" "pos_sect (the_fdc (get_fsys ?m)) = pos_sect (m_fdc m)"
    using wf idle img ch n by (simp_all add: get_fsys_def with_channel_def fsys_wf_def machine_wf_def)
  have "dma_dest_nat (the_dma (get_fsys ?m)) + 512 * n \<le> 0xA0000" using dst f(5) by simp
  from fdc_read_sectors [OF f(1-3) cmd n f(4) this sec inside, of us sz gap dtl] obtain s where
    s: "handler_run floppy_hdl (fifo_writes [cmd, us, c, h, sec, sz, of_nat n, gap, dtl] @ fifo_reads 7) (get_fsys ?m) =
        emit [Irq_Set 6 1, Irq_Set 6 0] (replicate 9 0 @ [0, 0, 0, ucast c, ucast h, ucast (pos_sect (m_fdc m)), 2]) s"
      "low0 (the_mem s) = take a (low0 (m_mem m)) @
        file_read img (512 * (unat c * 36 + unat h * 18 + (unat sec - 1))) (512 * n) @ drop (a + 512 * n) (low0 (m_mem m))"
      "low1 (the_mem s) = low1 (m_mem m)" "fifondx (the_fdc s) = 0"
    unfolding f(5-7) by blast
  have r: "bus_run machine_table (fifo_writes [cmd, us, c, h, sec, sz, of_nat n, gap, dtl] @ fifo_reads 7) ?m =
      emit [Irq_Set 6 1, Irq_Set 6 0] (replicate 9 0 @ [0, 0, 0, ucast c, ucast h, ucast (pos_sect (m_fdc m)), 2])
        (put_fsys s ?m)"
    by (rule owned_run [OF _ handler_of.simps(20) fsys_lens s(1)]) (use floppy_ports_owner in blast)
  have z: "[0, 0, 0, 0, 0, 0, 0, 0] @ replicate 9 0 = (replicate 17 0 :: uint32 list)" by (simp add: eval_nat_numeral)
  have run: "bus_run machine_table ((channel_2 a ?k mode msk @ [Out8 0x81 (of_nat (a div 65536))]) @
      (fifo_writes [cmd, us, c, h, sec, sz, of_nat n, gap, dtl] @ fifo_reads 7)) m =
    emit [Irq_Set 6 1, Irq_Set 6 0] (replicate 17 0 @ [0, 0, 0, ucast c, ucast h, ucast (pos_sect (m_fdc m)), 2])
      (put_fsys s ?m)"
    using run_with_append_emit [OF machine_channel_2 [OF wf] r] by (simp only: z [symmetric] append_Nil append_assoc)
  show ?thesis
    by (intro exI [of _ "put_fsys s ?m"] conjI run) (simp_all add: s put_fsys_def with_channel_def)
qed

text \<open>The boot sector of a floppy, to the address firmware loads it to.\<close>

theorem machine_floppy_read_witness:
  "\<exists>m'. bus_run machine_table ((channel_2 0x7C00 511 0x46 2 @ [Out8 0x81 0]) @
      (fifo_writes [0xE6, 0, 0, 0, 1, 2, 1, 27, 255] @ fifo_reads 7))
      (example_machine\<lparr>m_fdc := x86_floppy_init (Some (replicate 1024 0x55)) (replicate 65536 0)\<rparr>) =
    emit [Irq_Set 6 1, Irq_Set 6 0] (replicate 17 0 @ [0, 0, 0, 0, 0, 1, 2]) m' \<and>
    fifondx (m_fdc m') = 0"
proof -
  let ?f = "x86_floppy_init (Some (replicate 1024 0x55)) (replicate 65536 0)"
  have wf: "machine_wf (rom_image [0x55, 0xAA]) 0x200000000 (example_machine\<lparr>m_fdc := ?f\<rparr>)"
    using example_machine_wf fdc_wf_init [of "replicate 65536 0"] by (simp add: machine_wf_def)
  have "fifondx ?f = 0" "fdc_in ?f = Some (replicate 1024 0x55)" "pos_sect ?f = 1"
    by (simp_all add: x86_floppy_init_def fdc_doReset_def)
  with machine_floppy_read [OF wf, of "replicate 1024 0x55" "0xE6" 1 "0x7C00" 1 0 0 "0x46" 2 0 2 27 255] show ?thesis
    by simp blast
qed

end
