(* ===== verification/Machine_Memory.thy ===== *)
theory Machine_Memory
  imports Machine_Floppy
begin

text \<open>
  Ports and memory together: the expansion ROM that the guest maps through the configuration
  ports of the PCI bridge and then reads as memory, and characters that the guest stores in video
  memory and the viewer then shows.
\<close>

subsection \<open>The ROM of the video card\<close>

lemma pci_lens:
  "get_pci (put_pci s m) = s" "put_pci s (put_pci t m) = put_pci s m" "put_pci (get_pci m) m = m"
  by (simp_all add: get_pci_def put_pci_def)

text \<open>Writing a register of the first function, with the enable bit, through the two ports.\<close>

lemma rom_config_write:
  assumes "pci_registered [False, True] b" and "vgarom_writel 0x30 v rom = ret () rom'"
  shows "\<exists>b'. handler_run (pci_hdl machine_pci_ops) [Out32 0xCF8 0x80000030, Out32 0xCFC v] (b, rom, ata) =
      emit [] [0, 0] (b', rom', ata) \<and> pci_registered [False, True] b'"
proof -
  let ?b = "b\<lparr>configspace := 1, pindex := 0x30, pbus := 0, pdev := 0, pfn := 0\<rparr>"
  have reg: "pci_registered [False, True] ?b" using assms(1) by (simp add: pci_registered_def)
  have sel: "pci_getDevice ?b = Some False" using pci_registered_getDevice [OF reg] by simp
  have "handler_run (pci_hdl machine_pci_ops) [Out32 0xCF8 0x80000030, Out32 0xCFC v] (b, rom, ata) =
      emit [] [0, 0] (?b, rom', ata)"
    using sel assms(2)
    by (simp add: pci_outl_def Let_def pci_call_def cfg_reg_def machine_pci_ops_def lift_pci_ops_def
        vgarom_pci_ops_def)
  with reg show ?thesis by blast
qed

text \<open>A memory access that one device answers is an access to the device alone.\<close>

lemma data_lift:
  "data_store n d (lift_read get put f b a m) = lift_effect get put (\<lambda>s. data_store n d (f b a s)) m"
  "data_store n d (ebind (lift_read get put f b a m) (\<lambda>v. ret (g v))) =
     lift_effect get put (\<lambda>s. data_store n d (ebind (f b a s) (\<lambda>v. ret (g v)))) m"
  "ebind (data_load n d (\<lambda>v. lift_write get put h b a v m)) (\<lambda>_. ret r) =
     lift_effect get put (\<lambda>s. ebind (data_load n d (\<lambda>v. h b a v s)) (\<lambda>_. ret r)) m"
  by (auto simp: data_store_def data_load_def lift_read_def lift_write_def lift_effect_def ebind_def emit_def
      split: sum.splits prod.splits)

lemma mmio_lift:
  assumes "getDevice (rg m) ps a = Some p" and "ops p = lift_ops get put ops0" and "rg m p = r"
    and "mmio_match r a" and "rg0 (get m) = (\<lambda>u :: unit. r)"
  shows "mmio_read rg ops ps a n d m = lift_effect get put (mmio_read rg0 (\<lambda>u. ops0) [()] a n d) m"
    and "mmio_write rg ops ps a n d m = lift_effect get put (mmio_write rg0 (\<lambda>u. ops0) [()] a n d) m"
proof -
  note defs = assms lift_ops_def data_lift lift_effect_def Let_def
  show "mmio_read rg ops ps a n d m = lift_effect get put (mmio_read rg0 (\<lambda>u. ops0) [()] a n d) m"
    by (simp add: mmio_read_def defs split: option.split)
  show "mmio_write rg ops ps a n d m = lift_effect get put (mmio_write rg0 (\<lambda>u. ops0) [()] a n d) m"
    by (simp add: mmio_write_def defs split: option.split)
qed

text \<open>The window of the ROM comes first in the list, so an address in it reaches the ROM.\<close>

lemma rom_bus_read:
  assumes "rom_mmio_read a n d (m_rom m) = ret (0, d') s"
  shows "mmio_read machine_region machine_mmio_ops machine_mmio a n d m = ret (0, d') (m\<lparr>m_rom := s\<rparr>)"
proof -
  have "mmio_match (pcirom (m_rom m)) a"
    using assms by (cases "mmio_match (pcirom (m_rom m)) a") (simp_all add: mmio_read_def emit_def)
  then have "mmio_read machine_region machine_mmio_ops machine_mmio a n d m =
      lift_effect m_rom (\<lambda>s m. m\<lparr>m_rom := s\<rparr>) (rom_mmio_read a n d) m"
    by (intro mmio_lift(1) [where p = False and r = "pcirom (m_rom m)"])
       (simp_all add: machine_region_def machine_mmio_ops_def machine_mmio_def mmio_register_device_def mmio_init_def)
  with assms show ?thesis by (simp add: lift_effect_def emit_def)
qed

text \<open>
  C19: the guest maps the ROM of the video card and reads it. On any machine satisfying the
  invariant, writing a 128 KB-aligned address other than 0 and \<open>0xC0000\<close>, with the enable bit,
  to register \<open>0x30\<close> of PCI device 0 through the ports \<open>0xCF8\<close> and \<open>0xCFC\<close> returns without an event, and
  then every exit for a read of 1, 2 or 4 bytes at an offset of the window delivers the bytes
  of the image there and changes nothing.
\<close>

theorem machine_rom_enable:
  assumes "machine_wf rom ram m" and "pci_registered [False, True] (m_pci m)"
    and nb: "nb \<noteq> 0" "nb \<noteq> 0xC0000" "unat nb mod 0x20000 = 0"
  shows "\<exists>m'. bus_run machine_table [Out32 0xCF8 0x80000030, Out32 0xCFC (nb OR 1)] m = emit [] [0, 0] m' \<and>
    machine_wf rom ram m' \<and>
    (\<forall>k n off. \<not> is_write k \<longrightarrow> mm_len k = of_nat n \<longrightarrow> n \<in> {1, 2, 4} \<longrightarrow>
      phys_addr k = ucast nb + of_nat off \<longrightarrow> off + n \<le> 0x20000 \<longrightarrow> n \<le> length (mm_data k) \<longrightarrow>
      handle_mmio machine_region machine_mmio_ops machine_mmio k m' =
        ret (0, take n (drop off rom) @ drop n (mm_data k)) m')"
proof -
  have r: "rom_wf rom (m_rom m)" using assms(1) by (simp add: machine_wf_def)
  from vgarom_map_and_read [OF r nb, of 1 0 "[0]"] obtain s where
    s: "vgarom_writel 0x30 (nb OR 1) (m_rom m) = ret () s" "rom_wf rom s" by auto
  have rd: "rom_mmio_read (ucast nb + of_nat off) (of_nat n) d s = ret (0, take n (drop off rom) @ drop n d) s"
    if "n \<in> {1, 2, 4}" "off + n \<le> 0x20000" "n \<le> length d" for n off d
    using vgarom_map_and_read [OF r nb that] s(1) by (auto simp: emit_def)
  obtain b where b: "handler_run (pci_hdl machine_pci_ops) [Out32 0xCF8 0x80000030, Out32 0xCFC (nb OR 1)] (get_pci m) =
      emit [] [0, 0] (b, s, m_ata m)"
    using rom_config_write [OF assms(2) s(1), of "m_ata m"] by (auto simp: get_pci_def)
  let ?m = "put_pci (b, s, m_ata m) m"
  have run: "bus_run machine_table [Out32 0xCF8 0x80000030, Out32 0xCFC (nb OR 1)] m = emit [] [0, 0] ?m"
    by (rule owned_run [OF _ handler_of.simps(7) pci_lens b]) (auto simp: port_owner_Some)
  have m: "m_rom ?m = s" "?m\<lparr>m_rom := s\<rparr> = ?m" "machine_wf rom ram ?m"
    using assms(1) s(2) by (simp_all add: put_pci_def machine_wf_def)
  have "handle_mmio machine_region machine_mmio_ops machine_mmio k ?m = ret (0, take n (drop off rom) @ drop n (mm_data k)) ?m"
    if "\<not> is_write k" "mm_len k = of_nat n" "n \<in> {1, 2, 4}" "phys_addr k = ucast nb + of_nat off"
      "off + n \<le> 0x20000" "n \<le> length (mm_data k)" for k n off
  proof -
    from rom_bus_read [of _ _ _ ?m, unfolded m(1), OF rd [OF that(3,5,6)]] that(1,2,4) show ?thesis
      by (simp add: handle_mmio_def m(2) ebind_emit)
  qed
  with run m(3) show ?thesis by blast
qed

subsection \<open>Video memory and the screen\<close>

lemma write_planes_frame: "write_planes k p off bs c = Inr (u, c', es) \<Longrightarrow> c' = c\<lparr>pVRAM := pVRAM c'\<rparr> \<and> es = []"
proof (induction k arbitrary: p c)
  case (Suc k)
  show ?case
  proof (cases "seq_reg c ! 2 AND push_bit p 1 \<noteq> 0")
    case True
    with Suc.prems obtain x where "write_planes k (Suc p) off bs (c\<lparr>pVRAM := x\<rparr>) = Inr (u, c', es)"
      by (auto simp: rbind_Inr)
    from Suc.IH [OF this] show ?thesis by simp
  next
    case False
    with Suc show ?thesis by simp
  qed
qed (simp add: emit_def)

lemma vram_mmio_frame:
  assumes "vram_mmio_write a n d c = Inr (r, c', es)"
  shows "c' = c\<lparr>pVRAM := pVRAM c'\<rparr> \<and> es = []"
proof -
  have "v = v\<lparr>pVRAM := pVRAM v\<rparr>" for v :: vgactx by simp
  with assms show ?thesis
    by (auto simp: mmio_write_def vram_ops_def vram_defs vram_write_def Let_def ebind_Inr data_load_Inr
        split: if_splits dest: write_planes_frame)
qed

text \<open>An exit for a write to video memory.\<close>

lemma vram_exit:
  assumes "machine_wf rom ram m" and "is_write k" and "mm_len k = of_nat n" and "n \<in> {1, 2, 4}"
    and "phys_addr k = 0xA0000 + of_nat off" and "off + n \<le> 0x20000" and "n \<le> length (mm_data k)"
    and "\<not> mmio_match (pcirom (m_rom m)) (phys_addr k)"
  shows "\<exists>v. handle_mmio machine_region machine_mmio_ops machine_mmio k m =
      ret (0, mm_data k) (m\<lparr>m_vga := (m_vga m)\<lparr>pVRAM := v\<rparr>\<rparr>) \<and>
    (\<forall>q < 6. v ! q = (if q < 4 \<and> bit (seq_reg (m_vga m) ! 2) q
       then take off (pVRAM (m_vga m) ! q) @ take n (mm_data k) @ drop (off + n) (pVRAM (m_vga m) ! q)
       else pVRAM (m_vga m) ! q))"
proof -
  have c: "vga_wf (m_vga m)" using assms(1) by (simp add: machine_wf_def)
  from vram_write_planes [OF this assms(4,6,7)] obtain c' where
    c': "vram_mmio_write (phys_addr k) (mm_len k) (mm_data k) (m_vga m) = ret 0 c'"
      "\<forall>q < 6. pVRAM c' ! q = (if q < 4 \<and> bit (seq_reg (m_vga m) ! 2) q
       then take off (pVRAM (m_vga m) ! q) @ take n (mm_data k) @ drop (off + n) (pVRAM (m_vga m) ! q)
       else pVRAM (m_vga m) ! q)"
    unfolding assms(3,5) by blast
  have e: "c' = (m_vga m)\<lparr>pVRAM := pVRAM c'\<rparr>" using vram_mmio_frame c'(1) by (auto simp: emit_def)
  have "mmio_match vram_region (phys_addr k)" unfolding assms(5) by (rule vram_window) (use assms(4,6) in auto)
  then have "mmio_write machine_region machine_mmio_ops machine_mmio (phys_addr k) (mm_len k) (mm_data k) m =
      lift_effect m_vga (\<lambda>s m. m\<lparr>m_vga := s\<rparr>) (vram_mmio_write (phys_addr k) (mm_len k) (mm_data k)) m"
    by (intro mmio_lift(2) [where p = True and r = vram_region])
       (use assms(8) in \<open>simp_all add: machine_region_def machine_mmio_ops_def machine_mmio_def
          mmio_register_device_def mmio_init_def\<close>)
  then have "handle_mmio machine_region machine_mmio_ops machine_mmio k m = ret (0, mm_data k) (m\<lparr>m_vga := c'\<rparr>)"
    using c'(1) assms(2) by (simp add: handle_mmio_def lift_effect_def emit_def ebind_def)
  with e c'(2) show ?thesis by (intro exI [of _ "pVRAM c'"]) simp
qed

text \<open>
  C17: a write to video memory by the guest. On any machine satisfying the invariant, an exit
  for a write of 1, 2 or 4 bytes at an offset of the 128 KB window, where the ROM of the video card
  is not mapped, stores the bytes in exactly those of the four planes that the map mask
  enables; no other byte of a plane, no register and no other device changes.
\<close>

theorem machine_vram_write:
  assumes "machine_wf rom ram m" and "is_write k" and "mm_len k = of_nat n" and "n \<in> {1, 2, 4}"
    and "phys_addr k = 0xA0000 + of_nat off" and "off + n \<le> 0x20000" and "n \<le> length (mm_data k)"
    and "\<not> mmio_match (pcirom (m_rom m)) (phys_addr k)"
  shows "\<exists>v. handle_mmio machine_region machine_mmio_ops machine_mmio k m =
      ret (0, mm_data k) (m\<lparr>m_vga := (m_vga m)\<lparr>pVRAM := v\<rparr>\<rparr>) \<and>
    (\<forall>q < 6. v ! q = (if q < 4 \<and> bit (seq_reg (m_vga m) ! 2) q
       then take off (pVRAM (m_vga m) ! q) @ take n (mm_data k) @ drop (off + n) (pVRAM (m_vga m) ! q)
       else pVRAM (m_vga m) ! q))"
  using assms by (rule vram_exit)

text \<open>The byte at an even distance from a cell of two bytes that was written.\<close>

lemma cell_written:
  assumes "length v = 0x20000" and "q + 2 \<le> 0x20000" and "a < 0x1FFFF" and "even q" and "even a"
  shows "(take q v @ [ch, attr] @ drop (q + 2) v) ! a = (if a = q then ch else v ! a)"
    and "(take q v @ [ch, attr] @ drop (q + 2) v) ! (a + 1) = (if a = q then attr else v ! (a + 1))"
proof -
  consider "a + 2 \<le> q" | "a = q" | "q + 2 \<le> a" using assms(4,5) by (auto elim!: evenE) linarith
  then have "(take q v @ [ch, attr] @ drop (q + 2) v) ! a = (if a = q then ch else v ! a) \<and>
      (take q v @ [ch, attr] @ drop (q + 2) v) ! (a + 1) = (if a = q then attr else v ! (a + 1))"
  proof cases
    case 3
    then obtain b where "a = q + 2 + b" using le_Suc_ex by blast
    with assms(1,3) show ?thesis by (simp add: nth_append)
  qed (use assms(1-3) in \<open>auto simp: nth_append\<close>)
  then show "(take q v @ [ch, attr] @ drop (q + 2) v) ! a = (if a = q then ch else v ! a)"
    "(take q v @ [ch, attr] @ drop (q + 2) v) ! (a + 1) = (if a = q then attr else v ! (a + 1))" by simp_all
qed

lemma text_pixel_written:
  assumes "length (pVRAM c ! 0) = 0x20000" and "start_nat c \<le> 14384" and "X < 80" and "Y < 25"
    and "x < 640" and "y < 400" and "q = 0x18000 + 2 * start_nat c + 2 * (Y * 80 + X)"
    and "v ! 0 = take q (pVRAM c ! 0) @ [ch, attr] @ drop (q + 2) (pVRAM c ! 0)"
  shows "text_pixel (c\<lparr>pVRAM := v\<rparr>) x y = (if y div 16 = Y \<and> x div 8 = X
    then glyph_colour c ch attr (y mod 16) (x mod 8) else text_pixel c x y)"
proof -
  let ?a = "0x18000 + 2 * start_nat c + 2 * (y div 16 * 80 + x div 8)"
  have x: "x div 8 < 80" "y div 16 < 25" using assms(5,6) by (simp_all add: less_mult_imp_div_less)
  have "?a = q \<longleftrightarrow> y div 16 * 80 + x div 8 = Y * 80 + X"
    unfolding assms(7) by (simp only: add_left_cancel mult_cancel1) simp
  also have "\<dots> \<longleftrightarrow> y div 16 = Y \<and> x div 8 = X"
  proof
    assume e: "y div 16 * 80 + x div 8 = Y * 80 + X"
    then have "(y div 16 * 80 + x div 8) mod 80 = (Y * 80 + X) mod 80" by simp
    then have "x div 8 = X" using x assms(3) by simp
    with e show "y div 16 = Y \<and> x div 8 = X" by simp
  qed simp
  finally have eq: "?a = q \<longleftrightarrow> y div 16 = Y \<and> x div 8 = X" .
  have "q + 2 \<le> 0x20000" "?a < 0x1FFFF" "even q" "even ?a" using assms(2-4,7) x by simp_all
  note w = cell_written [OF assms(1) this, of ch attr, folded assms(8), unfolded eq]
  have "glyph_colour (c\<lparr>pVRAM := v\<rparr>) = glyph_colour c" "start_nat (c\<lparr>pVRAM := v\<rparr>) = start_nat c"
    by (intro ext) (simp_all add: glyph_colour_def palette_colour_def start_nat_def)
  then have "text_pixel (c\<lparr>pVRAM := v\<rparr>) x y = glyph_colour c (v ! 0 ! ?a) (v ! 0 ! (?a + 1)) (y mod 16) (x mod 8)"
    by (simp add: text_pixel_def Let_def)
  moreover have "text_pixel c x y = glyph_colour c (pVRAM c ! 0 ! ?a) (pVRAM c ! 0 ! (?a + 1)) (y mod 16) (x mod 8)"
    by (simp add: text_pixel_def Let_def)
  ultimately show ?thesis unfolding w by (cases "y div 16 = Y \<and> x div 8 = X") (simp_all only: if_True if_False simp_thms)
qed

text \<open>
  C16: text on the screen. On any machine satisfying the invariant, in text mode, with plane 0
  enabled and the ROM of the video card mapped elsewhere, a write by the guest of a character and an
  attribute to the memory of cell \<open>X\<close>, \<open>Y\<close> makes the next frame of the viewer show the glyph of the
  character in the colours of the attribute at that cell, and every other cell as before.
\<close>

theorem machine_text_output:
  assumes "machine_wf rom ram m" and "isTextMode (m_vga m)" and "bit (seq_reg (m_vga m) ! 2) 0"
    and "start_nat (m_vga m) \<le> 14384" and "X < 80" and "Y < 25"
    and "is_write k" and "mm_len k = 2" and "take 2 (mm_data k) = [ch, attr]"
    and "phys_addr k = 0xA0000 + of_nat (0x18000 + 2 * start_nat (m_vga m) + 2 * (Y * 80 + X))"
    and "\<not> mmio_match (pcirom (m_rom m)) (phys_addr k)" and "length p = 640 * 400"
  shows "\<exists>m' p'. handle_mmio machine_region machine_mmio_ops machine_mmio k m = ret (0, mm_data k) m' \<and>
    viewer_draw (m_vga m') 640 p = Inr p' \<and>
    (\<forall>x < 640. \<forall>y < 400. p' ! (y * 640 + x) = (if y div 16 = Y \<and> x div 8 = X
       then glyph_colour (m_vga m) ch attr (y mod 16) (x mod 8) else text_pixel (m_vga m) x y))"
proof -
  let ?c = "m_vga m" and ?o = "0x18000 + 2 * start_nat (m_vga m) + 2 * (Y * 80 + X)"
  have wf: "vga_wf ?c" using assms(1) by (simp add: machine_wf_def)
  have "?o + 2 \<le> 0x20000" using assms(4-6) by simp
  moreover have "2 \<le> length (mm_data k)" using arg_cong [OF assms(9), of length] by simp
  ultimately obtain v where
    v: "handle_mmio machine_region machine_mmio_ops machine_mmio k m = ret (0, mm_data k) (m\<lparr>m_vga := ?c\<lparr>pVRAM := v\<rparr>\<rparr>)"
      "v ! 0 = take ?o (pVRAM ?c ! 0) @ [ch, attr] @ drop (?o + 2) (pVRAM ?c ! 0)"
    using vram_exit [OF assms(1,7) _ _ assms(10) _ _ assms(11), of 2] assms(3,8,9) by auto
  have wf': "vga_wf (?c\<lparr>pVRAM := v\<rparr>)"
    using handle_mmio_wf [OF assms(1) v(1) [unfolded emit_def]] by (simp add: machine_wf_def)
  have s: "256 * unat (crtc_reg (?c\<lparr>pVRAM := v\<rparr>) ! 0xC) + unat (crtc_reg (?c\<lparr>pVRAM := v\<rparr>) ! 0xD) \<le> 14384"
    using assms(4) by (simp add: start_nat_def mult.commute)
  obtain p' where "updateTextmode (?c\<lparr>pVRAM := v\<rparr>) 640 p = Inr p'"
    "\<forall>x < 640. \<forall>y < 400. p' ! (y * 640 + x) = text_pixel (?c\<lparr>pVRAM := v\<rparr>) x y"
    using text_frame [OF wf' assms(12) s] by blast
  moreover have "text_pixel (?c\<lparr>pVRAM := v\<rparr>) x y = (if y div 16 = Y \<and> x div 8 = X
       then glyph_colour ?c ch attr (y mod 16) (x mod 8) else text_pixel ?c x y)" if "x < 640" "y < 400" for x y
    by (rule text_pixel_written [OF _ assms(4-6) that refl v(2)]) (use wf in \<open>simp add: vga_wf_def\<close>)
  moreover have "isTextMode (?c\<lparr>pVRAM := v\<rparr>)" using assms(2) by (simp add: isTextMode_def)
  ultimately show ?thesis using v(1)
    by (intro exI [of _ "m\<lparr>m_vga := ?c\<lparr>pVRAM := v\<rparr>\<rparr>"] exI [of _ p']) (simp add: viewer_draw_def)
qed

text \<open>The letter \<open>A\<close> in the top left corner.\<close>

lemma devices_start_rom:
  "devices_start h ram = Inr m \<Longrightarrow> pcirom (m_rom m) = \<lparr> mm_base = 0xFFAA0000, mm_mask = NOT 0x1FFFF \<rparr>"
  by (auto simp: devices_start_def rbind_Inr x86_vga_rom_init_def)

lemmas example_rom = devices_start_rom [OF example_machine]

lemma example_screen:
  defines "c \<equiv> (vgactx_init planes_zero)\<lparr>seq_reg := (seq_reg (vgactx_init planes_zero))[2 := 3]\<rparr>"
  shows "machine_wf (rom_image [0x55, 0xAA]) 0x200000000 (example_machine\<lparr>m_vga := c\<rparr>)"
    and "isTextMode c" and "bit (seq_reg c ! 2) 0" and "start_nat c = 0"
proof -
  show "machine_wf (rom_image [0x55, 0xAA]) 0x200000000 (example_machine\<lparr>m_vga := c\<rparr>)"
    using example_machine_wf vga_wf_upd(6) [OF vga_wf_zero, of 2 3] by (simp add: machine_wf_def c_def)
  show "isTextMode c" "bit (seq_reg c ! 2) 0" "start_nat c = 0"
    by (simp_all add: isTextMode_def start_nat_def c_def vgactx_init_def)
qed

theorem machine_text_output_witness:
  "\<exists>m' p'. handle_mmio machine_region machine_mmio_ops machine_mmio
      \<lparr> is_write = True, phys_addr = 0xB8000, mm_len = 2, mm_data = [65, 7, 0, 0, 0, 0, 0, 0] \<rparr>
      (example_machine\<lparr>m_vga := (vgactx_init planes_zero)\<lparr>seq_reg := (seq_reg (vgactx_init planes_zero))[2 := 3]\<rparr>\<rparr>) =
        ret (0, [65, 7, 0, 0, 0, 0, 0, 0]) m' \<and>
    viewer_draw (m_vga m') 640 (replicate 256000 0) = Inr p'"
proof -
  have "\<not> mmio_match (pcirom (m_rom example_machine)) 0xB8000" by (simp add: example_rom mmio_match_def)
  then show ?thesis
    using machine_text_output [OF example_screen(1), of 0 0
      "\<lparr> is_write = True, phys_addr = 0xB8000, mm_len = 2, mm_data = [65, 7, 0, 0, 0, 0, 0, 0] \<rparr>" 65 7 "replicate 256000 0"]
      example_screen(2-4) by auto
qed

theorem machine_vram_write_witness:
  "\<exists>v. handle_mmio machine_region machine_mmio_ops machine_mmio
      \<lparr> is_write = True, phys_addr = 0xB8000, mm_len = 1, mm_data = [65, 0, 0, 0, 0, 0, 0, 0] \<rparr>
      (example_machine\<lparr>m_vga := (vgactx_init planes_zero)\<lparr>seq_reg := (seq_reg (vgactx_init planes_zero))[2 := 3]\<rparr>\<rparr>) =
    ret (0, [65, 0, 0, 0, 0, 0, 0, 0]) (example_machine\<lparr>m_vga :=
      (vgactx_init planes_zero)\<lparr>seq_reg := (seq_reg (vgactx_init planes_zero))[2 := 3], pVRAM := v\<rparr>\<rparr>)"
proof -
  have "\<not> mmio_match (pcirom (m_rom example_machine)) 0xB8000" by (simp add: example_rom mmio_match_def)
  then show ?thesis
    using machine_vram_write [OF example_screen(1), of
      "\<lparr> is_write = True, phys_addr = 0xB8000, mm_len = 1, mm_data = [65, 0, 0, 0, 0, 0, 0, 0] \<rparr>" 1 "0x18000"]
    by auto
qed

text \<open>The signature of the ROM, mapped at an address of the guest's choice.\<close>

lemma example_pci: "pci_registered [False, True] (m_pci example_machine)"
  by (rule started(2) [OF example_host(1,3) _ example_host(4) example_machine]) simp

theorem machine_rom_enable_witness:
  "\<exists>m'. bus_run machine_table [Out32 0xCF8 0x80000030, Out32 0xCFC 0xFEB00001] example_machine = emit [] [0, 0] m' \<and>
    handle_mmio machine_region machine_mmio_ops machine_mmio
      \<lparr> is_write = False, phys_addr = 0xFEB00000, mm_len = 2, mm_data = [0, 0, 0, 0, 0, 0, 0, 0] \<rparr> m' =
      ret (0, [0x55, 0xAA, 0, 0, 0, 0, 0, 0]) m'"
proof -
  obtain m' where m': "bus_run machine_table [Out32 0xCF8 0x80000030, Out32 0xCFC (0xFEB00000 OR 1)] example_machine = emit [] [0, 0] m'"
    "\<forall>k n off. \<not> is_write k \<longrightarrow> mm_len k = of_nat n \<longrightarrow> n \<in> {1, 2, 4} \<longrightarrow>
      phys_addr k = ucast (0xFEB00000 :: uint32) + of_nat off \<longrightarrow> off + n \<le> 0x20000 \<longrightarrow> n \<le> length (mm_data k) \<longrightarrow>
      handle_mmio machine_region machine_mmio_ops machine_mmio k m' =
        ret (0, take n (drop off (rom_image [0x55, 0xAA])) @ drop n (mm_data k)) m'"
    using machine_rom_enable [OF example_machine_wf example_pci, of "0xFEB00000"] by auto
  have "take 2 (drop 0 (rom_image [0x55, 0xAA])) = [0x55, 0xAA]" by (simp add: rom_image_def)
  with m'(2) [rule_format, of "\<lparr> is_write = False, phys_addr = 0xFEB00000, mm_len = 2, mm_data = [0, 0, 0, 0, 0, 0, 0, 0] \<rparr>" 2 0]
  show ?thesis using m'(1) by (intro exI [of _ m']) simp
qed

end
