(* ===== verification/Disk_Refinement.thy ===== *)
theory Disk_Refinement
  imports Machine_Reach
begin

text \<open>
  The ATA controller against the device it stands for: a disk is a sequence of sectors that
  are read and written as a whole. The locale \<open>block_device\<close> states what a client of the ports
  relies on, its lemma extends that to any sequence of requests, and the interpretations prove it
  for the controller (\<^verbatim>\<open>ata/controller.c\<close>) on its own and for the ports of the whole machine.
\<close>

subsection \<open>Sectors of an image\<close>

text \<open>Behind its end an image reads as zeros.\<close>

definition img_byte :: "uint8 list \<Rightarrow> nat \<Rightarrow> uint8" where
  "img_byte f i = (if i < length f then f ! i else 0)"

definition sector :: "uint8 list \<Rightarrow> nat \<Rightarrow> uint16 list" where
  "sector f k = words_of_bytes (map (img_byte f) [512 * k..<512 * k + 512])"

lemma padded_read: "overlay (replicate n 0) (file_read f a n) = map (img_byte f) [a..<a + n]"
  by (rule nth_equalityI) (auto simp: overlay_def file_read_def img_byte_def nth_append)

lemma img_byte_write:
  "img_byte (file_write f a bs) i = (if a \<le> i \<and> i < a + length bs then bs ! (i - a) else img_byte f i)"
  by (cases "a \<le> length f") (auto simp: img_byte_def file_write_def nth_append min_def)

lemma words_of_bytes_append: "even (length xs) \<Longrightarrow> words_of_bytes (xs @ ys) = words_of_bytes xs @ words_of_bytes ys"
  by (induction xs rule: words_of_bytes.induct) auto

lemma sectors_read:
  "words_of_bytes (overlay (replicate (n * 512) 0) (file_read f (512 * l) (n * 512))) =
     concat (map (sector f) [l..<l + n])"
  unfolding padded_read
proof (induction n)
  case (Suc n)
  have "[512 * l..<512 * l + Suc n * 512] = [512 * l..<512 * l + n * 512] @ [512 * (l + n)..<512 * (l + n) + 512]"
    using upt_add_eq_append [of "512 * l" "512 * l + n * 512" 512] by (simp add: algebra_simps)
  with Suc show ?case by (simp add: words_of_bytes_append sector_def)
qed simp

lemma bytes_of_words_append: "bytes_of_words (vs @ ws) = bytes_of_words vs @ bytes_of_words ws"
  by (induction vs) simp_all

lemma bytes_of_words_part:
  "take (2 * m) (drop (2 * i) (bytes_of_words ws)) = bytes_of_words (take m (drop i ws))"
proof -
  have d: "drop (2 * i) (bytes_of_words ws) = bytes_of_words (drop i ws)" for ws
    by (induction ws arbitrary: i) (simp, case_tac i, simp_all)
  have "take (2 * m) (bytes_of_words ws) = bytes_of_words (take m ws)" for ws
    by (induction ws arbitrary: m) (simp, case_tac m, simp_all)
  with d show ?thesis by simp
qed

lemma sector_write:
  assumes "length ws = 256 * n"
  shows "sector (file_write f (512 * l) (bytes_of_words ws)) k =
    (if l \<le> k \<and> k < l + n then take 256 (drop (256 * (k - l)) ws) else sector f k)"
proof -
  let ?f = "file_write f (512 * l) (bytes_of_words ws)"
  show ?thesis
  proof (cases "l \<le> k \<and> k < l + n")
    case True
    then obtain j where j: "k = l + j" "j < n" by (metis le_Suc_ex nat_add_left_cancel_less)
    have "map (img_byte ?f) [512 * k..<512 * k + 512] = take 512 (drop (512 * j) (bytes_of_words ws))"
    proof (rule nth_equalityI)
      fix i assume "i < length (map (img_byte ?f) [512 * k..<512 * k + 512])"
      then have i: "i < 512" by simp
      have "512 * j + 512 \<le> 512 * n" using j(2) by simp
      with i show "map (img_byte ?f) [512 * k..<512 * k + 512] ! i = take 512 (drop (512 * j) (bytes_of_words ws)) ! i"
        by (simp add: img_byte_write assms j(1) algebra_simps)
    qed (use assms j(2) in simp)
    also have "\<dots> = bytes_of_words (take 256 (drop (256 * j) ws))"
      using bytes_of_words_part [of 256 "256 * j" ws] by simp
    finally show ?thesis using True j(1) by (simp add: sector_def words_bytes_words)
  next
    case False
    then have "img_byte ?f i = img_byte f i" if "512 * k \<le> i" "i < 512 * k + 512" for i
      using that by (auto simp: img_byte_write assms)
    then have "map (img_byte ?f) [512 * k..<512 * k + 512] = map (img_byte f) [512 * k..<512 * k + 512]" by simp
    then show ?thesis using False unfolding sector_def by (simp only: if_False)
  qed
qed

subsection \<open>Requests\<close>

datatype request = Read_Sectors nat nat | Write_Sectors nat "uint16 list"

text \<open>What fits into one command: up to 255 sectors with a 28-bit number.\<close>

fun request_ok :: "request \<Rightarrow> bool" where
  "request_ok (Read_Sectors l n) \<longleftrightarrow> 0 < n \<and> n < 256 \<and> l < 2 ^ 28"
| "request_ok (Write_Sectors l ws) \<longleftrightarrow> (\<exists>n < 256. 0 < n \<and> length ws = 256 * n) \<and> l < 2 ^ 28"

text \<open>The abstract disk: a content for each sector number. A request returns the words it reads.\<close>

fun serve :: "request \<Rightarrow> (nat \<Rightarrow> uint16 list) \<Rightarrow> uint16 list \<times> (nat \<Rightarrow> uint16 list)" where
  "serve (Read_Sectors l n) d = (concat (map d [l..<l + n]), d)"
| "serve (Write_Sectors l ws) d =
     ([], \<lambda>k. if l \<le> k \<and> k < l + length ws div 256 then take 256 (drop (256 * (k - l)) ws) else d k)"

fun serve_all :: "request list \<Rightarrow> (nat \<Rightarrow> uint16 list) \<Rightarrow> uint16 list list \<times> (nat \<Rightarrow> uint16 list)" where
  "serve_all [] d = ([], d)"
| "serve_all (r # rs) d =
     (let (v, d1) = serve r d; (vs, d2) = serve_all rs d1 in (v # vs, d2))"

text \<open>
  The accesses of a request, with the sector number spread over the registers, and the words
  of data among the values its accesses return.
\<close>

fun request_io :: "request \<Rightarrow> access list" where
  "request_io (Read_Sectors l n) = ata_read (0xE0 OR of_nat (l div 16777216)) (of_nat n) (of_nat l)
     (of_nat (l div 256)) (of_nat (l div 65536))"
| "request_io (Write_Sectors l ws) = ata_write (0xE0 OR of_nat (l div 16777216)) (of_nat (length ws div 256))
     (of_nat l) (of_nat (l div 256)) (of_nat (l div 65536)) ws"

fun request_data :: "request \<Rightarrow> uint32 list \<Rightarrow> uint16 list" where
  "request_data (Read_Sectors l n) vs = map ucast (drop 6 vs)"
| "request_data (Write_Sectors l ws) vs = []"

fun run_requests :: "(access \<Rightarrow> 's \<Rightarrow> ('s, uint32) effect) \<Rightarrow> request list \<Rightarrow> 's
    \<Rightarrow> ('s, uint16 list list) effect" where
  "run_requests step [] s = ret [] s"
| "run_requests step (r # rs) s =
     ebind (run_with step (request_io r) s) (\<lambda>vs s1.
       ebind (run_requests step rs s1) (\<lambda>ds. ret (request_data r vs # ds)))"

locale block_device =
  fixes step :: "access \<Rightarrow> 's \<Rightarrow> ('s, uint32) effect" and inv :: "'s \<Rightarrow> bool"
    and content :: "'s \<Rightarrow> nat \<Rightarrow> uint16 list"
  assumes request: "inv s \<Longrightarrow> request_ok r \<Longrightarrow>
    \<exists>vs s' es. run_with step (request_io r) s = Inr (vs, s', es) \<and> inv s' \<and>
      serve r (content s) = (request_data r vs, content s')"
begin

lemma requests:
  "inv s \<Longrightarrow> \<forall>r \<in> set rs. request_ok r \<Longrightarrow>
    \<exists>ds s' es. run_requests step rs s = Inr (ds, s', es) \<and> inv s' \<and>
      serve_all rs (content s) = (ds, content s')"
proof (induction rs arbitrary: s)
  case (Cons r rs)
  from request [OF Cons.prems(1), of r] Cons.prems(2) obtain vs s1 es1 where
    1: "run_with step (request_io r) s = Inr (vs, s1, es1)" "inv s1"
      "serve r (content s) = (request_data r vs, content s1)" by auto
  from Cons.IH [OF 1(2)] Cons.prems(2) obtain ds s2 es2 where
    "run_requests step rs s1 = Inr (ds, s2, es2)" "inv s2" "serve_all rs (content s1) = (ds, content s2)" by auto
  with 1 show ?case by (simp add: ebind_def emit_def)
qed (simp add: emit_def)

end

subsection \<open>The controller implements the disk\<close>

lemma lba_registers:
  assumes "l < 2 ^ 28"
  defines "dh \<equiv> 0xE0 OR of_nat (l div 16777216) :: uint8"
  shows "drop_bit 4 dh AND 1 = 0" and "drop_bit 6 dh AND 1 = 1"
    and "lba_nat dh (of_nat (l div 65536)) (of_nat (l div 256)) (of_nat l) = l"
proof -
  have "l div 16777216 < 16" using assms(1) by simp
  then have n: "l div 16777216 \<in> set [0..<16]" by simp
  have dh: "drop_bit 4 dh AND 1 = 0 \<and> drop_bit 6 dh AND 1 = 1 \<and> unat (dh AND 0xF) = l div 16777216"
    unfolding dh_def using n by (simp add: upt_rec, elim disjE; simp)
  then show "drop_bit 4 dh AND 1 = 0" "drop_bit 6 dh AND 1 = 1" by simp_all
  have d: "l div 65536 = l div 256 div 256" "l div 16777216 = l div 256 div 256 div 256"
    by (simp_all add: div_mult2_eq [symmetric])
  have "l div 16777216 * 16777216 + l div 65536 mod 256 * 65536 + l div 256 mod 256 * 256 + l mod 256 = l"
    unfolding d using div_mult_mod_eq [of l 256] div_mult_mod_eq [of "l div 256" 256]
      div_mult_mod_eq [of "l div 256 div 256" 256] by linarith
  then show "lba_nat dh (of_nat (l div 65536)) (of_nat (l div 256)) (of_nat l) = l"
    using dh by (simp add: lba_nat_def unat_of_nat)
qed

lemma byte_of_nat: "n < 256 \<Longrightarrow> unat (of_nat n :: uint8) = n"
  by (simp add: unat_of_nat)

lemma words_back: "map ucast (map ucast ws :: uint32 list) = (ws :: uint16 list)"
proof -
  have "ucast (ucast w :: uint32) = w" for w :: uint16 by (rule bit_word_eqI) (simp add: bit_simps)
  then show ?thesis by (induction ws) simp_all
qed

lemma ata_request:
  assumes wf: "ata_wf c" and ok: "request_ok r"
  shows "\<exists>vs c' es. handler_run ata_hdl (request_io r) c = Inr (vs, c', es) \<and> ata_wf c' \<and>
    serve r (sector (backingfile (master c))) = (request_data r vs, sector (backingfile (master c')))"
proof (cases r)
  case (Read_Sectors l n)
  with ok have n: "unat (of_nat n :: uint8) = n" "(of_nat n :: uint8) \<noteq> 0" "l < 2 ^ 28"
    using byte_of_nat [of n] by (auto simp: word_unat_eq_iff)
  note reg = lba_registers [OF n(3)]
  from ata_read_run [OF wf reg(1) disjI1 [OF reg(2)] n(2), of "of_nat l" "of_nat (l div 256)" "of_nat (l div 65536)"]
  obtain c' where c': "handler_run ata_hdl (request_io r) c = emit [Irq_Set 14 0, Irq_Set 14 0, Irq_Set 14 1]
      (replicate 6 0 @ map ucast (concat (map (sector (backingfile (master c))) [l..<l + n]))) c'"
    "backingfile (master c') = backingfile (master c)"
    using reg(2,3) by (auto simp: Read_Sectors n(1) sector_nat_def sectors_read)
  have "ata_wf c'" using ata.run_inv [OF wf c'(1) [unfolded emit_def]] .
  with c' show ?thesis by (simp add: Read_Sectors emit_def words_back del: map_map)
next
  case (Write_Sectors l ws)
  with ok obtain n where n0: "n < 256" "0 < n" "length ws = 256 * n" "l < 2 ^ 28" by auto
  then have n: "unat (of_nat n :: uint8) = n" "(of_nat n :: uint8) \<noteq> 0"
    using byte_of_nat [of n] by (auto simp: word_unat_eq_iff)
  note reg = lba_registers [OF n0(4)]
  have "length ws = 256 * unat (of_nat n :: uint8)" using n0 n by simp
  from ata_write_run [OF wf reg(1,2) n(2) this, of "of_nat l" "of_nat (l div 256)" "of_nat (l div 65536)"]
  obtain vs c' where c': "handler_run ata_hdl (request_io r) c = emit [Irq_Set 14 0, Irq_Set 14 0, Irq_Set 14 1] vs c'"
    "backingfile (master c') = file_write (backingfile (master c)) (512 * l) (bytes_of_words ws)"
    using reg(3) n0(3) by (auto simp: Write_Sectors)
  have "ata_wf c'" using ata.run_inv [OF wf c'(1) [unfolded emit_def]] .
  with c' show ?thesis by (simp add: Write_Sectors emit_def sector_write [OF n0(3)] n0(3) fun_eq_iff)
qed

interpretation ata_disk: block_device "handler_access ata_hdl" ata_wf "\<lambda>c. sector (backingfile (master c))"
  by unfold_locales (rule ata_request)

text \<open>The same disk behind the port bus of the machine.\<close>

lemma request_ports:
  "a \<in> set (request_io r) \<Longrightarrow> 0x1F0 \<le> unat (access_port a) \<and> unat (access_port a) < 0x1F8"
  by (cases r) (auto simp: ata_read_def ata_write_def ata_address_def split: if_splits)

interpretation machine_disk: block_device "bus_access machine_table"
  "\<lambda>m. machine_wf rom ram m \<and> (\<exists>c. m = m0\<lparr>m_ata := c\<rparr>)"
  "\<lambda>m. sector (backingfile (master (m_ata m)))" for rom ram m0
proof
  fix s r
  assume s: "machine_wf rom ram s \<and> (\<exists>c. s = m0\<lparr>m_ata := c\<rparr>)" and ok: "request_ok r"
  then have "ata_wf (m_ata s)" by (simp add: machine_wf_def)
  from ata_request [OF this ok] obtain vs c' es where
    c': "handler_run ata_hdl (request_io r) (m_ata s) = Inr (vs, c', es)" "ata_wf c'"
      "serve r (sector (backingfile (master (m_ata s)))) = (request_data r vs, sector (backingfile (master c')))" by blast
  have "bus_run machine_table (request_io r) s = Inr (vs, s\<lparr>m_ata := c'\<rparr>, es)"
    using ata_run_machine [OF request_ports] c'(1) by (simp add: lift_effect_def)
  moreover have "machine_wf rom ram (s\<lparr>m_ata := c'\<rparr>)" "\<exists>c. s\<lparr>m_ata := c'\<rparr> = m0\<lparr>m_ata := c\<rparr>"
    using s c'(2) by (auto simp: machine_wf_def)
  ultimately show "\<exists>vs s' es. bus_run machine_table (request_io r) s = Inr (vs, s', es) \<and>
      (machine_wf rom ram s' \<and> (\<exists>c. s' = m0\<lparr>m_ata := c\<rparr>)) \<and>
      serve r (sector (backingfile (master (m_ata s)))) = (request_data r vs, sector (backingfile (master (m_ata s'))))"
    using c'(3) by (intro exI [of _ vs] exI [of _ "s\<lparr>m_ata := c'\<rparr>"] exI [of _ es]) simp
qed

text \<open>
  C2: the disk. On any machine satisfying the invariant, any sequence of requests of up to 255
  sectors with 28-bit numbers, made through the ports of the disk controller, delivers the
  words and leaves the contents that the abstract disk does, a function from sector numbers to
  sectors of 256 words; every register, buffer and offset of the controller is hidden by the
  refinement, and no other part of the machine changes.
\<close>

theorem machine_refines_disk:
  assumes "machine_wf rom ram m" and "\<forall>r \<in> set rs. request_ok r"
  shows "\<exists>ds c es. run_requests (bus_access machine_table) rs m = Inr (ds, m\<lparr>m_ata := c\<rparr>, es) \<and>
    serve_all rs (sector (backingfile (master (m_ata m)))) = (ds, sector (backingfile (master c))) \<and>
    machine_wf rom ram (m\<lparr>m_ata := c\<rparr>)"
proof -
  have "\<exists>c. m = m\<lparr>m_ata := c\<rparr>" by (rule exI [of _ "m_ata m"]) simp
  with assms(1) have "machine_wf rom ram m \<and> (\<exists>c. m = m\<lparr>m_ata := c\<rparr>)" ..
  from machine_disk.requests [OF this assms(2)] obtain ds s' es c where
    s': "run_requests (bus_access machine_table) rs m = Inr (ds, s', es)" "machine_wf rom ram s'"
      "s' = m\<lparr>m_ata := c\<rparr>"
      "serve_all rs (sector (backingfile (master (m_ata m)))) = (ds, sector (backingfile (master (m_ata s'))))" by blast
  have "m_ata s' = c" unfolding s'(3) by simp
  with s'(4) have "serve_all rs (sector (backingfile (master (m_ata m)))) = (ds, sector (backingfile (master c)))" by simp
  with s'(1,2) show ?thesis unfolding s'(3) by blast
qed

text \<open>A sector written over, and read with its neighbour.\<close>

theorem machine_refines_disk_witness:
  "\<exists>d c es. run_requests (bus_access machine_table)
      [Write_Sectors 0 (replicate 256 0x1234), Write_Sectors 0 (replicate 256 0x5678), Read_Sectors 0 2] example_machine =
    Inr ([[], [], replicate 256 0x5678 @ d], example_machine\<lparr>m_ata := c\<rparr>, es)"
proof -
  let ?rs = "[Write_Sectors 0 (replicate 256 0x1234), Write_Sectors 0 (replicate 256 0x5678), Read_Sectors 0 2]"
  have "\<exists>n < 256. 0 < n \<and> length (replicate 256 (w :: uint16)) = 256 * n" for w
    by (rule exI [of _ 1]) simp
  then have ok: "\<forall>r \<in> set ?rs. request_ok r" by simp
  have "[0..<0 + 2] = [0, 1 :: nat]" by (simp add: upt_rec)
  then have "fst (serve_all [Write_Sectors 0 u, Write_Sectors 0 w, Read_Sectors 0 2] d) = [[], [], w @ d 1]"
    if "length u = 256" "length w = 256" for u w d
    using that by (simp add: Let_def split_def)
  note v = this [of "replicate 256 0x1234" "replicate 256 0x5678", OF length_replicate length_replicate]
  obtain ds c es where r: "run_requests (bus_access machine_table) ?rs example_machine =
      Inr (ds, example_machine\<lparr>m_ata := c\<rparr>, es)"
    "serve_all ?rs (sector (backingfile (master (m_ata example_machine)))) = (ds, sector (backingfile (master c)))"
    using machine_refines_disk [OF example_machine_wf ok] by blast
  have "ds = [[], [], replicate 256 0x5678 @ sector (backingfile (master (m_ata example_machine))) 1]"
    using v [of "sector (backingfile (master (m_ata example_machine)))"] unfolding r(2) by (simp only: fst_conv)
  with r(1) show ?thesis by blast
qed

end
