(* ===== verification/Exit_Effects.thy ===== *)
theory Exit_Effects
  imports Machine_Reach
begin

text \<open>
  What an exit of the virtual CPU to the port bus may touch, whatever the guest asks for: the part
  of the shared page the kernel reserved for its data, the device states within their types, and
  the three interrupt lines in use.
\<close>

subsection \<open>The shared page\<close>

text \<open>\<open>p'\<close> is \<open>p\<close> except for the indices from \<open>a\<close> to \<open>b\<close>.\<close>

definition same_outside :: "int \<Rightarrow> int \<Rightarrow> uint8 list \<Rightarrow> uint8 list \<Rightarrow> bool" where
  "same_outside a b p p' \<longleftrightarrow> length p' = length p \<and>
     (\<forall>i < length p. int i < a \<or> b \<le> int i \<longrightarrow> p' ! i = p ! i)"

lemma same_outside_trans:
  "same_outside a b p q \<Longrightarrow> same_outside b' c q r \<Longrightarrow> a \<le> b' \<Longrightarrow> b \<le> c \<Longrightarrow> same_outside a c p r"
  by (simp add: same_outside_def)

lemma wr_bytes_outside: "wr_bytes p off bs = Inr p' \<Longrightarrow> same_outside off (off + int (length bs)) p p'"
  unfolding same_outside_def
proof (intro conjI allI impI)
  assume w: "wr_bytes p off bs = Inr p'"
  then have "0 \<le> off" by (simp add: wr_bytes_def in_range_def split: if_splits)
  moreover fix i assume "i < length p" "int i < off \<or> off + int (length bs) \<le> int i"
  ultimately show "p' ! i = p ! i" using nth_wr_bytes [OF w, of i] by (auto split: if_splits)
qed (rule wr_bytes_length)

lemma page_store_outside:
  "page_store n off p m = Inr (p', s', es) \<Longrightarrow> same_outside off (off + int n) p p'"
  by (auto simp: page_store_def ebind_Inr rbind_Inr dest!: wr_bytes_outside)

lemma io_in_loop_outside:
  "io_in_loop tbl sz port n off p s = Inr ((r, p'), s', es) \<Longrightarrow>
     r = 0 \<and> same_outside off (off + int sz * int n) p p'"
proof (induction n arbitrary: off p s es)
  case 0
  then show ?case by (simp add: emit_def same_outside_def)
next
  case (Suc n)
  from Suc.prems [unfolded io_in_loop.simps(2) ebind_Inr] obtain p1 s1 es1 es2 where
    1: "(if sz = 1 then page_store 1 off p (io_inb tbl port s)
      else if sz = 2 then page_store 2 off p (io_inw tbl port s)
      else if sz = 4 then page_store 4 off p (io_inl tbl port s)
      else assert_failed) = Inr (p1, s1, es1)" and
    2: "io_in_loop tbl sz port n (off + int sz) p1 s1 = Inr ((r, p'), s', es2)"
    by blast
  from 1 have a: "same_outside off (off + int sz) p p1"
    by (auto split: if_splits dest: page_store_outside)
  have e: "off + int sz + int sz * int n = off + int sz * int (Suc n)" by (simp add: algebra_simps)
  from Suc.IH [OF 2] have "r = 0" and b: "same_outside (off + int sz) (off + int sz * int (Suc n)) p1 p'"
    unfolding e by simp_all
  have "off + int sz \<le> off + int sz * int (Suc n)" by (simp add: algebra_simps)
  with same_outside_trans [OF a b] \<open>r = 0\<close> show ?case by simp
qed

lemma io_out_loop_result: "io_out_loop tbl sz port n off p s = Inr (r, s', es) \<Longrightarrow> r = 0"
  by (induction n arbitrary: off s es) (auto simp: emit_def ebind_Inr)

subsection \<open>The events\<close>

lemma run_events:
  "bus_run machine_table as m = Inr (vs, m', es) \<Longrightarrow> \<forall>e \<in> set es. \<exists>d. dev_event d e"
proof (induction as arbitrary: m vs es)
  case (Cons a as)
  then obtain v vs' m1 es1 es2 where "bus_access machine_table a m = Inr (v, m1, es1)"
    "bus_run machine_table as m1 = Inr (vs', m', es2)" "es = es1 @ es2"
    by (auto simp: ebind_Inr simp del: bus_access.simps)
  with Cons.IH access_owned(3) access_unowned show ?case
    by (cases "port_owner (unat (access_port a))") fastforce+
qed simp



end
