(* ===== verification/Irq.thy ===== *)
theory Irq
  imports Machine_Reach
begin

text \<open>
  Interrupt requests, \<^verbatim>\<open>irq.c\<close>. The devices call \<^verbatim>\<open>irq_set\<close> and ignore what it returns, so in their
  models a call is the event \<open>Irq_Set\<close>. Here an event becomes the call it stands for: one
  \<^verbatim>\<open>KVM_IRQ_LINE\<close> on the system that \<^verbatim>\<open>irq_init\<close> has stored.
\<close>

text \<open>The static pointer \<^verbatim>\<open>pCtx\<close>; \<open>None\<close> is NULL.\<close>

type_synonym irq_ctx = "sys option"

definition irq_init :: "sys \<Rightarrow> irq_ctx \<Rightarrow> int \<times> irq_ctx" where
  "irq_init s ctx = (0, Some s)"

text \<open>The requests the kernel gets: file descriptor, line and level. Its reply is an argument.\<close>

type_synonym irq_line = "int \<times> nat \<times> nat"

definition irq_set :: "(irq_line \<Rightarrow> int) \<Rightarrow> irq_ctx \<Rightarrow> nat \<Rightarrow> nat \<Rightarrow> fault + int \<times> irq_line list" where
  "irq_set kvm ctx irq level = (case ctx of None \<Rightarrow> Inl Wild_Access
     | Some s \<Rightarrow> (let lvl = (vmfd s, irq, level) in
         Inr (if kvm lvl \<noteq> 0 then -1 else 0, [lvl])))"

fun irq_calls :: "(irq_line \<Rightarrow> int) \<Rightarrow> irq_ctx \<Rightarrow> event list \<Rightarrow> fault + irq_line list" where
  "irq_calls kvm ctx [] = Inr []"
| "irq_calls kvm ctx (Put_Char c # es) = irq_calls kvm ctx es"
| "irq_calls kvm ctx (Irq_Set irq level # es) =
     rbind (irq_set kvm ctx irq level) (\<lambda>(r, ls). rbind (irq_calls kvm ctx es) (\<lambda>ls'. Inr (ls @ ls')))"

fun irq_requests :: "event list \<Rightarrow> (nat \<times> nat) list" where
  "irq_requests [] = []"
| "irq_requests (Put_Char c # es) = irq_requests es"
| "irq_requests (Irq_Set irq level # es) = (irq, level) # irq_requests es"

text \<open>
  After \<^verbatim>\<open>irq_init\<close> every request is passed on, in order and to this system, whatever the kernel
  replies; before it a request dereferences NULL.
\<close>

lemma irq_calls_requests:
  "irq_calls kvm (snd (irq_init s ctx)) es = Inr (map (Pair (vmfd s)) (irq_requests es))"
  by (induction es rule: irq_requests.induct) (simp_all add: irq_init_def irq_set_def Let_def)

lemma irq_calls_early: "irq_calls kvm None es = (if irq_requests es = [] then Inr [] else Inl Wild_Access)"
  by (induction es rule: irq_requests.induct) (simp_all add: irq_set_def)

lemma irq_requests_append: "irq_requests (es @ es') = irq_requests es @ irq_requests es'"
  by (induction es rule: irq_requests.induct) simp_all

text \<open>The level of a line is the one last requested.\<close>

definition line_level :: "nat \<Rightarrow> bool \<Rightarrow> irq_line list \<Rightarrow> bool" where
  "line_level irq l ls = foldl (\<lambda>l (fd, i, v). if i = irq then v \<noteq> 0 else l) l ls"

lemma line_level_events:
  assumes "irq_calls kvm (snd (irq_init s ctx)) es = Inr ls"
  shows "line_level irq l ls = irq_level irq l es"
proof -
  have "line_level irq l (map (Pair (vmfd s)) (irq_requests es)) = irq_level irq l es" for l
    by (induction es arbitrary: l rule: irq_requests.induct) (simp_all add: line_level_def)
  with assms show ?thesis by (simp add: irq_calls_requests)
qed

text \<open>
  What the kernel is told of line 1 in a run from the start: whatever it replies, it last saw the
  line raised only if the keyboard controller has a byte for the guest.
\<close>

lemma keyboard_line:
  assumes "devices_start h ram = Inr m0" and "machine_run m0 es m"
    and "irq_calls kvm (snd (irq_init s ctx)) es = Inr ls" and "line_level 1 False ls"
  shows "bit (kb_status (m_kbd m)) 0 \<and> 0 \<le> ndx_output (m_kbd m)"
proof -
  have "kbd_reach (m_kbd m0) (kbd_events [])"
    using kbd_start [of kbd_zero] by (simp add: devices_start_kbd [OF assms(1)] kbd_events_def)
  from kbd_run.run [OF assms(2) this] have "kbd_reach (m_kbd m) (kbd_events es)" .
  from kbd_irq_implies_output [OF this] assms(4) show ?thesis
    unfolding irq_level_kbd_events line_level_events [OF assms(3)] by blast
qed

end
